(* ===== verification/Leitwerk_Prelude.thy ===== *)
theory Leitwerk_Prelude
  imports Main "HOL-Library.Sublist"
begin

text \<open>
  Shared vocabulary of the development: the JavaScript values the sources pass through
  untouched, the string and collection operations of the language that the sources call
  (trimming, splitting and joining, insertion-ordered maps and sets), results of
  code that may throw.

  Strings are lists of code units; every string operation below is exact on ASCII text.
  Numbers that the sources only compare, add or order (sequence numbers, revisions,
  delays) are integers.
\<close>

section \<open>JavaScript values and fallible code\<close>

text \<open>A value of TypeScript type \<open>unknown\<close> or \<open>Record<string, unknown>\<close>.\<close>

datatype json =
    JNull
  | JBool bool
  | JNum int
  | JStr string
  | JArr "json list"
  | JObj "(string \<times> json) list"

text \<open>Code that may throw returns \<open>Inl\<close> of the thrown error's message.\<close>

type_synonym 'a throws = "string + 'a"

definition throws_bind :: "'a throws \<Rightarrow> ('a \<Rightarrow> 'b throws) \<Rightarrow> 'b throws" where
  "throws_bind m f = (case m of Inl e \<Rightarrow> Inl e | Inr x \<Rightarrow> f x)"

lemma throws_bind_simps [simp]:
  "throws_bind (Inl e) f = Inl e"
  "throws_bind (Inr x) f = f x"
  by (simp_all add: throws_bind_def)

lemma throws_bind_Inr [simp]:
  "throws_bind m f = Inr y \<longleftrightarrow> (\<exists>x. m = Inr x \<and> f x = Inr y)"
  by (cases m) simp_all

lemma throws_bind_Inl:
  "throws_bind m f = Inl e \<longleftrightarrow> m = Inl e \<or> (\<exists>x. m = Inr x \<and> f x = Inl e)"
  by (cases m) simp_all

text \<open>The operator \<open>??\<close> on a nullable value.\<close>

fun coalesce :: "'a option \<Rightarrow> 'a \<Rightarrow> 'a" where
  "coalesce None d = d"
| "coalesce (Some x) d = x"

text \<open>Truthiness of a nullable string: \<open>null\<close> and the empty string are false.\<close>

fun truthy :: "string option \<Rightarrow> bool" where
  "truthy None = False"
| "truthy (Some s) = (s \<noteq> [])"

text \<open>Truthiness of a value.\<close>

fun json_truthy :: "json \<Rightarrow> bool" where
  "json_truthy JNull = False"
| "json_truthy (JBool b) = b"
| "json_truthy (JNum n) = (n \<noteq> 0)"
| "json_truthy (JStr s) = (s \<noteq> [])"
| "json_truthy _ = True"

section \<open>Strings\<close>

definition is_js_space :: "char \<Rightarrow> bool" where
  "is_js_space c \<longleftrightarrow> c \<in> {CHR 0x09, CHR 0x0A, CHR 0x0B, CHR 0x0C, CHR 0x0D, CHR 0x20}"

text \<open>\<open>String.prototype.trim\<close>\<close>

definition js_trim :: "string \<Rightarrow> string" where
  "js_trim s = rev (dropWhile is_js_space (rev (dropWhile is_js_space s)))"

lemma js_trim_Nil [simp]: "js_trim [] = []"
  by (simp add: js_trim_def)

text \<open>\<open>s.split(sep)\<close> for a non-empty separator: leftmost matches that do not overlap.\<close>

function js_split :: "string \<Rightarrow> string \<Rightarrow> string list" where
  "js_split sep [] = [[]]"
| "js_split sep (c # cs) =
     (if sep \<noteq> [] \<and> prefix sep (c # cs)
      then [] # js_split sep (drop (length sep) (c # cs))
      else (case js_split sep cs of [] \<Rightarrow> [[c]] | f # fs \<Rightarrow> (c # f) # fs))"
  by pat_completeness auto
termination
  by (relation "measure (\<lambda>(sep, s). length s)") auto

text \<open>\<open>fragments.join(sep)\<close>\<close>

fun js_join :: "string \<Rightarrow> string list \<Rightarrow> string" where
  "js_join sep [] = []"
| "js_join sep [f] = f"
| "js_join sep (f # fs) = f @ sep @ js_join sep fs"

lemma js_split_nonempty [simp]: "js_split sep s \<noteq> []"
  by (induction sep s rule: js_split.induct) (auto split: list.splits)

lemma js_split_first_prefix: "prefix (hd (js_split sep s)) s"
proof (induction sep s rule: js_split.induct)
  case (2 sep c cs)
  then show ?case by (auto split: list.splits)
qed simp

lemma sublist_Cons_cases: "sublist s (c # f) \<Longrightarrow> prefix s (c # f) \<or> sublist s f"
  by (simp add: sublist_Cons_right)

text \<open>No fragment of a split still contains the separator.\<close>

lemma js_split_fragment_free:
  assumes "sep \<noteq> []" and "f \<in> set (js_split sep s)"
  shows "\<not> sublist sep f"
  using assms
proof (induction sep s arbitrary: f rule: js_split.induct)
  case (1 sep)
  then show ?case by simp
next
  case (2 sep c cs)
  show ?case
  proof (cases "prefix sep (c # cs)")
    case True
    with 2 show ?thesis by auto
  next
    case False
    obtain g gs where gs: "js_split sep cs = g # gs"
      using js_split_nonempty by (metis neq_Nil_conv)
    have "prefix g cs" using js_split_first_prefix [of sep cs] gs by simp
    then have "prefix (c # g) (c # cs)" by simp
    with False have "\<not> prefix sep (c # g)" using prefix_order.trans by blast
    moreover have "\<not> sublist sep h" if "h \<in> set (g # gs)" for h
      using 2 False gs that by auto
    ultimately show ?thesis
      using "2.prems" False gs sublist_Cons_cases by fastforce
  qed
qed

text \<open>A word without the character \<open>x\<close> cannot straddle an occurrence of \<open>x\<close>.\<close>

lemma sublist_not_across:
  assumes "x \<notin> set s" and "sublist s (a @ x # b)"
  shows "sublist s a \<or> sublist s b"
proof -
  from assms(2) consider "sublist s a" | "sublist s (x # b)"
    | s1 s2 where "s = s1 @ s2" "suffix s1 a" "prefix s2 (x # b)"
    by (auto simp: sublist_append)
  then show ?thesis
  proof cases
    case 2
    then have "prefix s (x # b) \<or> sublist s b" by (rule sublist_Cons_cases)
    then show ?thesis using assms(1) by (cases s) auto
  next
    case 3
    with assms(1) have "s2 = []" by (cases s2) auto
    with 3 show ?thesis by (simp add: suffix_imp_sublist)
  qed simp
qed

text \<open>\<open>value.replace(/\s+/g, " ")\<close>\<close>

function collapse_spaces :: "string \<Rightarrow> string" where
  "collapse_spaces [] = []"
| "collapse_spaces (c # cs) =
     (if is_js_space c then CHR '' '' # collapse_spaces (dropWhile is_js_space cs) else c # collapse_spaces cs)"
  by pat_completeness auto
termination
  by (relation "measure length") (auto simp: less_Suc_eq_le length_dropWhile_le)

section \<open>Insertion-ordered maps\<close>

text \<open>
  A JavaScript \<open>Map\<close>: overwriting a key keeps its position, a new key goes to the end.
\<close>

fun jsmap_set :: "'k \<Rightarrow> 'v \<Rightarrow> ('k \<times> 'v) list \<Rightarrow> ('k \<times> 'v) list" where
  "jsmap_set k v [] = [(k, v)]"
| "jsmap_set k v ((k', v') # m) = (if k = k' then (k, v) # m else (k', v') # jsmap_set k v m)"

lemma map_of_jsmap_set [simp]: "map_of (jsmap_set k v m) = (map_of m)(k \<mapsto> v)"
  by (induction m) auto

lemma map_fst_jsmap_set:
  "map fst (jsmap_set k v m) = (if k \<in> fst ` set m then map fst m else map fst m @ [k])"
  by (induction m) (auto simp: rev_image_eqI)

lemma keys_jsmap_set [simp]: "fst ` set (jsmap_set k v m) = insert k (fst ` set m)"
proof -
  have "set (map fst (jsmap_set k v m)) = insert k (set (map fst m))"
    by (auto simp: map_fst_jsmap_set)
  then show ?thesis by simp
qed

lemma distinct_jsmap_set [simp]:
  "distinct (map fst m) \<Longrightarrow> distinct (map fst (jsmap_set k v m))"
  by (simp add: map_fst_jsmap_set)

lemma set_jsmap_set: "set (jsmap_set k v m) \<subseteq> insert (k, v) (set m)"
  by (induction m) (auto split: if_splits)

text \<open>\<open>new Map(entries)\<close>: the last entry of a key counts.\<close>

definition js_map :: "('k \<times> 'v) list \<Rightarrow> 'k \<Rightarrow> 'v option" where
  "js_map entries = map_of (rev entries)"

lemma js_map_SomeD: "js_map (map (\<lambda>s. (f s, s)) xs) k = Some x \<Longrightarrow> x \<in> set xs \<and> f x = k"
  by (auto simp: js_map_def dest: map_of_SomeD)

text \<open>A set with insertion order: adding a present element changes nothing.\<close>

definition jsset_add :: "'a \<Rightarrow> 'a list \<Rightarrow> 'a list" where
  "jsset_add x xs = (if x \<in> set xs then xs else xs @ [x])"

lemma set_jsset_add [simp]: "set (jsset_add x xs) = insert x (set xs)"
  by (auto simp: jsset_add_def)

lemma distinct_jsset_add [simp]: "distinct xs \<Longrightarrow> distinct (jsset_add x xs)"
  by (simp add: jsset_add_def)

lemma set_fold_jsset_add [simp]: "set (fold jsset_add ys xs) = set xs \<union> set ys"
  by (induction ys arbitrary: xs) auto

lemma distinct_fold_jsset_add [simp]: "distinct xs \<Longrightarrow> distinct (fold jsset_add ys xs)"
  by (induction ys arbitrary: xs) auto

end
