(* ===== verification/Domain_Types.thy ===== *)
theory Domain_Types
  imports Leitwerk_Prelude
begin

text \<open>
  The closed vocabularies of \<^verbatim>\<open>packages/domain\<close> that several components share: process life
  cycle states, turn types, branch (path) types, worker error classes, recovery contexts of
  failed turns, worker lease states, and the classification functions defined beside them.
\<close>

section \<open>Life cycle and turn vocabularies\<close>

datatype lifecycle_status = Discovered | ActiveProcess | WaitingProcess | ErrorProcess
  | CompletedProcess | AbortedProcess

datatype turn_type = LlmTurn | HumanTurn | ExternalTurn | AutomaticTurn

datatype path_type = PrimaryPath | LeafBranch | RootBranch

definition isWorkerOwnedTurnType :: "turn_type \<Rightarrow> bool" where
  "isWorkerOwnedTurnType t \<longleftrightarrow> t = LlmTurn \<or> t = AutomaticTurn"

definition isWaitingTurnType :: "turn_type \<Rightarrow> bool" where
  "isWaitingTurnType t \<longleftrightarrow> t = HumanTurn \<or> t = ExternalTurn"

definition lifecycleStatusForSelectedTurnType :: "turn_type \<Rightarrow> lifecycle_status" where
  "lifecycleStatusForSelectedTurnType t =
     (if isWaitingTurnType t then WaitingProcess else ActiveProcess)"

lemma turn_type_partition: "isWaitingTurnType t \<longleftrightarrow> \<not> isWorkerOwnedTurnType t"
  by (cases t) (simp_all add: isWaitingTurnType_def isWorkerOwnedTurnType_def)

section \<open>Worker error classes and failure codes\<close>

datatype worker_error_class = LlmError | GitError | PiCrash | PipelineError | Infrastructure
  | ProtocolError | OperatorAbort

fun worker_error_class_name :: "worker_error_class \<Rightarrow> string" where
  "worker_error_class_name LlmError = ''llm_error''"
| "worker_error_class_name GitError = ''git_error''"
| "worker_error_class_name PiCrash = ''pi_crash''"
| "worker_error_class_name PipelineError = ''pipeline_error''"
| "worker_error_class_name Infrastructure = ''infrastructure''"
| "worker_error_class_name ProtocolError = ''protocol_error''"
| "worker_error_class_name OperatorAbort = ''operator_abort''"

definition WORKER_ERROR_CLASSES :: "worker_error_class list" where
  "WORKER_ERROR_CLASSES = [LlmError, GitError, PiCrash, PipelineError, Infrastructure,
     ProtocolError, OperatorAbort]"

text \<open>The type guard \<open>isWorkerErrorClass\<close>, together with the value it narrows to.\<close>

definition parseWorkerErrorClass :: "string \<Rightarrow> worker_error_class option" where
  "parseWorkerErrorClass s = find (\<lambda>c. worker_error_class_name c = s) WORKER_ERROR_CLASSES"

definition isWorkerErrorClass :: "string \<Rightarrow> bool" where
  "isWorkerErrorClass s \<longleftrightarrow> s \<in> set (map worker_error_class_name WORKER_ERROR_CLASSES)"

lemma parseWorkerErrorClass_name [simp]: "parseWorkerErrorClass (worker_error_class_name c) = Some c"
  by (cases c) (simp_all add: parseWorkerErrorClass_def WORKER_ERROR_CLASSES_def)

lemma isWorkerErrorClass_iff: "isWorkerErrorClass s \<longleftrightarrow> parseWorkerErrorClass s \<noteq> None"
  by (auto simp: isWorkerErrorClass_def parseWorkerErrorClass_def find_None_iff)

datatype turn_failure_code = BranchDrift

datatype recovery_code = GenericContinue | OutcomeRejected | MissingOutcomeTool
  | MissingMarkdownResult | MissingRequiredToolCalls

record recovery_context =
  suggestedContinuePrompt :: string
  failureCode :: recovery_code
  missingToolNames :: "string list option"

end
