(* ===== verification/Worker_Errors.thy ===== *)
theory Worker_Errors
  imports Domain_Types
begin

text \<open>
  Thrown values as the worker reads them: their message and error class
  (\<^verbatim>\<open>packages/worker/src/turn-execution-error.ts\<close>,
  \<^verbatim>\<open>packages/domain/src/string-normalize.ts\<close>) and the bounded, allowlisted summary of a
  transport error's causes (\<^verbatim>\<open>packages/worker/src/transport-error.ts\<close>), with the proof that
  only bounded and allowlisted data crosses into durable diagnostics.
\<close>

section \<open>Thrown values\<close>

text \<open>
  A thrown value is a primitive (with its string rendering) or an object. What the code reads
  of an object is its properties, its next link (\<open>error ?? cause\<close>), its aggregated errors and
  its identity, which the cycle check compares. A cyclic chain of causes is represented by its
  unfolding: equal identities mark the repeated object.
\<close>

record turn_execution_error =
  te_turnId :: string
  te_errorClass :: worker_error_class
  te_message :: string
  te_failureCode :: "turn_failure_code option"
  te_failureDetails :: "json option"
  te_recoveryContext :: "recovery_context option"

record error_properties =
  ep_turnError :: "turn_execution_error option"
  ep_isError :: bool
  ep_isAggregate :: bool
  ep_name :: "string option"
  ep_code :: "string option"
  ep_message :: "string option"
  ep_errorClass :: "string option"
  ep_rendered :: string

datatype js_thrown =
    ThrownPrim string
  | ThrownObj nat error_properties "js_thrown option" "js_thrown list option"

fun toErrorMessage :: "js_thrown \<Rightarrow> string" where
  "toErrorMessage (ThrownPrim s) = s"
| "toErrorMessage (ThrownObj _ p _ _) =
     (case ep_message p of
        Some m \<Rightarrow> if ep_isError p \<and> js_trim m \<noteq> [] then m else ep_rendered p
      | None \<Rightarrow> ep_rendered p)"

record classified_error =
  ce_errorClass :: worker_error_class
  ce_message :: string

fun classifyRuntimeError :: "js_thrown \<Rightarrow> worker_error_class \<Rightarrow> classified_error" where
  "classifyRuntimeError (ThrownPrim s) fallback =
     \<lparr>ce_errorClass = fallback, ce_message = toErrorMessage (ThrownPrim s)\<rparr>"
| "classifyRuntimeError (ThrownObj i p nx es) fallback =
     (case ep_turnError p of
        Some te \<Rightarrow> \<lparr>ce_errorClass = te_errorClass te, ce_message = te_message te\<rparr>
      | None \<Rightarrow>
          (case Option.bind (ep_errorClass p) parseWorkerErrorClass of
             Some c \<Rightarrow>
               \<lparr>ce_errorClass = c,
                ce_message = (case ep_message p of
                    Some m \<Rightarrow> if js_trim m \<noteq> [] then m else ep_rendered p
                  | None \<Rightarrow> ep_rendered p)\<rparr>
           | None \<Rightarrow>
               \<lparr>ce_errorClass = fallback,
                ce_message = toErrorMessage (ThrownObj i p nx es)\<rparr>))"

definition errorCode :: "js_thrown \<Rightarrow> string \<Rightarrow> string" where
  "errorCode err fallback =
     (case err of
        ThrownObj _ p _ _ \<Rightarrow>
          (case ep_code p of
             Some c \<Rightarrow> if js_trim c \<noteq> [] then js_trim c else fallback
           | None \<Rightarrow> fallback)
      | ThrownPrim _ \<Rightarrow> fallback)"

section \<open>Transport error details\<close>

definition transportCodes :: "string list" where
  "transportCodes = [''ECONNREFUSED'', ''ECONNRESET'', ''ENOTFOUND'', ''EAI_AGAIN'',
     ''ETIMEDOUT'', ''ENETUNREACH'', ''EHOSTUNREACH'', ''EPIPE'', ''CERT_HAS_EXPIRED'',
     ''DEPTH_ZERO_SELF_SIGNED_CERT'', ''SELF_SIGNED_CERT_IN_CHAIN'',
     ''UNABLE_TO_VERIFY_LEAF_SIGNATURE'', ''UNABLE_TO_GET_ISSUER_CERT_LOCALLY'',
     ''ERR_TLS_CERT_ALTNAME_INVALID'', ''ERR_TLS_CERT_SIGNATURE_ALGORITHM_UNSUPPORTED'',
     ''UND_ERR_CONNECT_TIMEOUT'', ''UND_ERR_HEADERS_TIMEOUT'', ''UND_ERR_BODY_TIMEOUT'',
     ''UND_ERR_SOCKET'', ''UND_ERR_ABORTED'', ''UND_ERR_DESTROYED'', ''UND_ERR_CLOSED'']"

definition transportNames :: "string list" where
  "transportNames = [''Error'', ''TypeError'', ''AggregateError'', ''AbortError'',
     ''TimeoutError'', ''SystemError'', ''ConnectTimeoutError'', ''HeadersTimeoutError'',
     ''BodyTimeoutError'', ''SocketError'', ''RequestAbortedError'', ''ClientDestroyedError'',
     ''ClientClosedError'']"

record transport_cause =
  tc_name :: "string option"
  tc_code :: "string option"
  tc_parent :: "nat option"

record transport_error_details =
  td_causes :: "transport_cause list"
  td_truncated :: bool

text \<open>The closure's mutable variables: the collected causes, the seen objects, the flag.\<close>

record visit_state =
  vs_causes :: "transport_cause list"
  vs_seen :: "nat list"
  vs_truncated :: bool

definition allowlisted :: "string list \<Rightarrow> string option \<Rightarrow> string option" where
  "allowlisted ok v = (case v of Some s \<Rightarrow> if s \<in> set ok then Some s else None | None \<Rightarrow> None)"

type_synonym visitor = "nat \<Rightarrow> nat option \<Rightarrow> visit_state \<Rightarrow> visit_state"

text \<open>
  What \<open>visit\<close> does at one object, given the visitors of its next link and of its aggregated
  errors: the guards, the new cause, then the next link, then at most four of the errors.
\<close>

definition visit_object ::
  "nat \<Rightarrow> error_properties \<Rightarrow> visitor option \<Rightarrow> visitor list option \<Rightarrow> visitor" where
  "visit_object i p nx es depth parent st =
     (if i \<in> set (vs_seen st) then st
      else if 6 \<le> depth \<or> 8 \<le> length (vs_causes st) then st\<lparr>vs_truncated := True\<rparr>
      else
        let index = length (vs_causes st);
            st1 = st\<lparr>vs_seen := i # vs_seen st,
                     vs_causes := vs_causes st @
                       [\<lparr>tc_name = allowlisted transportNames (ep_name p),
                         tc_code = allowlisted transportCodes (ep_code p),
                         tc_parent = parent\<rparr>]\<rparr>;
            st2 = (case nx of None \<Rightarrow> st1 | Some v \<Rightarrow> v (depth + 1) (Some index) st1)
        in case es of
             None \<Rightarrow> st2
           | Some vs \<Rightarrow>
               if \<not> ep_isAggregate p then st2
               else fold (\<lambda>v. v (depth + 1) (Some index)) (take 4 vs)
                      (if 4 < length vs then st2\<lparr>vs_truncated := True\<rparr> else st2))"

primrec visit :: "js_thrown \<Rightarrow> visitor" where
  "visit (ThrownPrim s) = (\<lambda>depth parent st. st)"
| "visit (ThrownObj i p nx es) =
     visit_object i p (map_option visit nx) (map_option (map visit) es)"

definition transportErrorDetails :: "js_thrown \<Rightarrow> transport_error_details" where
  "transportErrorDetails err =
     (let st = visit err 0 None \<lparr>vs_causes = [], vs_seen = [], vs_truncated = False\<rparr>
      in \<lparr>td_causes = vs_causes st, td_truncated = vs_truncated st\<rparr>)"

definition transportErrorCode :: "js_thrown \<Rightarrow> string option" where
  "transportErrorCode err =
     (case find (\<lambda>c. truthy (tc_code c)) (td_causes (transportErrorDetails err)) of
        None \<Rightarrow> None | Some c \<Rightarrow> tc_code c)"

subsection \<open>Bounds of the durable diagnostic\<close>

text \<open>
  The collected causes are bounded, mention only allowlisted names and codes, and each
  parent link points to an earlier cause.
\<close>

definition cause_ok :: "transport_cause list \<Rightarrow> nat \<Rightarrow> bool" where
  "cause_ok cs i \<longleftrightarrow>
     (\<forall>n. tc_name (cs ! i) = Some n \<longrightarrow> n \<in> set transportNames) \<and>
     (\<forall>c. tc_code (cs ! i) = Some c \<longrightarrow> c \<in> set transportCodes) \<and>
     (\<forall>j. tc_parent (cs ! i) = Some j \<longrightarrow> j < i)"

definition causes_ok :: "transport_cause list \<Rightarrow> bool" where
  "causes_ok cs \<longleftrightarrow> length cs \<le> 8 \<and> (\<forall>i < length cs. cause_ok cs i)"

definition good_visitor :: "visitor \<Rightarrow> bool" where
  "good_visitor v \<longleftrightarrow>
     (\<forall>depth parent st.
        causes_ok (vs_causes st) \<longrightarrow>
        (\<forall>j. parent = Some j \<longrightarrow> j < length (vs_causes st)) \<longrightarrow>
        causes_ok (vs_causes (v depth parent st)) \<and>
        length (vs_causes st) \<le> length (vs_causes (v depth parent st)))"

lemma allowlisted_Some: "allowlisted ok v = Some s \<Longrightarrow> s \<in> set ok"
  by (auto simp: allowlisted_def split: option.splits if_splits)

lemma causes_ok_snoc:
  assumes "causes_ok cs" and "length cs < 8"
    and "\<And>n. tc_name c = Some n \<Longrightarrow> n \<in> set transportNames"
    and "\<And>k. tc_code c = Some k \<Longrightarrow> k \<in> set transportCodes"
    and "\<And>j. tc_parent c = Some j \<Longrightarrow> j < length cs"
  shows "causes_ok (cs @ [c])"
  using assms by (auto simp: causes_ok_def cause_ok_def nth_append less_Suc_eq)

lemma good_visitorD:
  assumes "good_visitor v" and "causes_ok (vs_causes st)"
    and "\<And>j. parent = Some j \<Longrightarrow> j < length (vs_causes st)"
  shows "causes_ok (vs_causes (v depth parent st))"
    and "length (vs_causes st) \<le> length (vs_causes (v depth parent st))"
  using assms by (auto simp: good_visitor_def)

lemma good_visitor_fold:
  assumes "\<And>v. v \<in> set vs \<Longrightarrow> good_visitor v" and "causes_ok (vs_causes st)"
    and "index < length (vs_causes st)"
  shows "causes_ok (vs_causes (fold (\<lambda>v. v depth (Some index)) vs st)) \<and>
    length (vs_causes st) \<le> length (vs_causes (fold (\<lambda>v. v depth (Some index)) vs st))"
  using assms
proof (induction vs arbitrary: st)
  case (Cons v vs)
  let ?st = "v depth (Some index) st"
  have v: "causes_ok (vs_causes ?st)" "length (vs_causes st) \<le> length (vs_causes ?st)"
    using Cons.prems good_visitorD [of v st "Some index"] by auto
  then have "causes_ok (vs_causes (fold (\<lambda>v. v depth (Some index)) vs ?st)) \<and>
    length (vs_causes ?st) \<le> length (vs_causes (fold (\<lambda>v. v depth (Some index)) vs ?st))"
    using Cons by simp
  with v show ?case by simp
qed simp

lemma good_visitor_object:
  assumes nx: "\<And>v. nx = Some v \<Longrightarrow> good_visitor v"
    and es: "\<And>vs v. es = Some vs \<Longrightarrow> v \<in> set vs \<Longrightarrow> good_visitor v"
  shows "good_visitor (visit_object i p nx es)"
  unfolding good_visitor_def
proof (intro allI impI)
  fix depth :: nat and parent :: "nat option" and st :: visit_state
  assume ok: "causes_ok (vs_causes st)" and par: "\<forall>j. parent = Some j \<longrightarrow> j < length (vs_causes st)"
  let ?n = "length (vs_causes st)"
  define st1 where "st1 = st\<lparr>vs_seen := i # vs_seen st,
      vs_causes := vs_causes st @ [\<lparr>tc_name = allowlisted transportNames (ep_name p),
        tc_code = allowlisted transportCodes (ep_code p), tc_parent = parent\<rparr>]\<rparr>"
  define st2 where "st2 = (case nx of None \<Rightarrow> st1 | Some v \<Rightarrow> v (depth + 1) (Some ?n) st1)"
  define st3 where "st3 = (case es of None \<Rightarrow> st2 | Some vs \<Rightarrow>
      if \<not> ep_isAggregate p then st2
      else fold (\<lambda>v. v (depth + 1) (Some ?n)) (take 4 vs)
             (if 4 < length vs then st2\<lparr>vs_truncated := True\<rparr> else st2))"
  have eq: "visit_object i p nx es depth parent st =
      (if i \<in> set (vs_seen st) then st
       else if 6 \<le> depth \<or> 8 \<le> ?n then st\<lparr>vs_truncated := True\<rparr> else st3)"
    unfolding visit_object_def Let_def st3_def st2_def st1_def by (rule refl)
  have "causes_ok (vs_causes st3) \<and> ?n \<le> length (vs_causes st3)" if "?n < 8"
  proof -
    have st1: "causes_ok (vs_causes st1)" "length (vs_causes st1) = Suc ?n"
      using ok par that allowlisted_Some by (auto simp: st1_def intro!: causes_ok_snoc)
    have st2: "causes_ok (vs_causes st2)" "Suc ?n \<le> length (vs_causes st2)"
      using st1 nx good_visitorD [of _ st1 "Some ?n" "depth + 1"]
      by (auto simp: st2_def split: option.splits)
    show ?thesis
    proof (cases es)
      case None
      then show ?thesis using st2 by (simp add: st3_def)
    next
      case (Some vs)
      define st2' where "st2' = (if 4 < length vs then st2\<lparr>vs_truncated := True\<rparr> else st2)"
      have "vs_causes st2' = vs_causes st2" by (simp add: st2'_def)
      then have "causes_ok (vs_causes (fold (\<lambda>v. v (depth + 1) (Some ?n)) (take 4 vs) st2')) \<and>
        length (vs_causes st2') \<le> length (vs_causes (fold (\<lambda>v. v (depth + 1) (Some ?n)) (take 4 vs) st2'))"
        using st2 es Some by (intro good_visitor_fold) (auto dest: in_set_takeD)
      with st2 Some \<open>vs_causes st2' = _\<close> show ?thesis by (auto simp: st3_def st2'_def)
    qed
  qed
  then show "causes_ok (vs_causes (visit_object i p nx es depth parent st)) \<and>
      ?n \<le> length (vs_causes (visit_object i p nx es depth parent st))"
    using ok by (auto simp: eq)
qed

lemma good_visitor_visit: "good_visitor (visit v)"
proof (induction v)
  case (ThrownPrim s)
  then show ?case by (simp add: good_visitor_def)
next
  case (ThrownObj i p nx es)
  then show ?case by (auto intro!: good_visitor_object)
qed

text \<open>
  What crosses the durable diagnostic boundary of a transport error is bounded and allowlisted:
  for every error graph, cyclic or not, at most eight causes are recorded, their names and codes
  come from the two allowlists, and the parent of a cause is a cause recorded before it.
\<close>

lemma transport_details_bounded:
  "causes_ok (td_causes (transportErrorDetails err))"
proof -
  have "causes_ok []" by (simp add: causes_ok_def)
  then show ?thesis
    using good_visitorD(1) [OF good_visitor_visit, of "\<lparr>vs_causes = [], vs_seen = [], vs_truncated = False\<rparr>" None]
    by (simp add: transportErrorDetails_def Let_def)
qed

end
