(* ===== verification/Worker_Failure_Policy.thy ===== *)
theory Worker_Failure_Policy
  imports Worker_Errors
begin

text \<open>
  The pure failure boundary of the worker runtime: the snapshot policy
  (\<^verbatim>\<open>packages/worker/src/runtime/snapshot-policy.ts\<close>), the secrets of a start payload and their
  redaction, and the normalisation of every failure into a diagnostic, an optional snapshot
  request and one terminal report (\<^verbatim>\<open>packages/worker/src/runtime/failure-policy.ts\<close>).
\<close>

section \<open>Snapshot policy\<close>

datatype snapshot_point = AfterWorkerReady | BeforeTurnOutcome | BeforeTurnFailed
  | BeforeCleanupCompleted | BeforeWorkerFailed

fun snapshot_point_name :: "snapshot_point \<Rightarrow> string" where
  "snapshot_point_name AfterWorkerReady = ''after_worker_ready''"
| "snapshot_point_name BeforeTurnOutcome = ''before_turn_outcome''"
| "snapshot_point_name BeforeTurnFailed = ''before_turn_failed''"
| "snapshot_point_name BeforeCleanupCompleted = ''before_cleanup_completed''"
| "snapshot_point_name BeforeWorkerFailed = ''before_worker_failed''"

datatype session_kind = LlmSession | AutomaticSession

datatype snapshot_policy = NoUpload | Upload (required: bool) (turnCorrelated: bool)

definition resolveWorkerSnapshotPolicy :: "snapshot_point \<Rightarrow> session_kind \<Rightarrow> bool \<Rightarrow> snapshot_policy" where
  "resolveWorkerSnapshotPolicy point sessionKind piAvailable =
     (if sessionKind = AutomaticSession then NoUpload
      else if point = BeforeCleanupCompleted \<and> \<not> piAvailable then NoUpload
      else if point = AfterWorkerReady \<or> point = BeforeWorkerFailed then Upload False False
      else Upload True (point \<noteq> BeforeCleanupCompleted))"

section \<open>Start payloads and their secrets\<close>

datatype repository_credential =
    GitSsh string string (rc_privateKey: string) string
  | GitHttps string string string string (rc_password: string)

record docker_credential =
  dc_username :: string
  dc_password :: string

datatype start_bootstrap =
    LlmBootstrap (bootstrap_credential: "(string \<times> string) list option")
  | AutomaticBootstrap

text \<open>
  \<open>WorkerStartPayload\<close>: the fields the runtime core reads; everything it only hands on to the
  bootstrap adapter is in \<open>sp_rest\<close>.
\<close>

record worker_start_payload =
  sp_turnStartId :: string
  sp_proposedTurnRecordId :: string
  sp_bootstrap :: start_bootstrap
  sp_primaryTreeFile :: string
  sp_selectedTurnId :: "string option"
  sp_repositoryCredentials :: "repository_credential list"
  sp_dockerRegistryCredentials :: "docker_credential list"
  sp_rest :: json

fun bootstrap_kind :: "start_bootstrap \<Rightarrow> session_kind" where
  "bootstrap_kind (LlmBootstrap _) = LlmSession"
| "bootstrap_kind AutomaticBootstrap = AutomaticSession"

subsection \<open>Encodings under which a secret may reappear\<close>

definition uri_unreserved :: "char \<Rightarrow> bool" where
  "uri_unreserved c \<longleftrightarrow>
     c \<in> set ''ABCDEFGHIJKLMNOPQRSTUVWXYZabcdefghijklmnopqrstuvwxyz0123456789-_.!~*()''
     \<or> c = CHR 0x27"

definition hex_digit :: "nat \<Rightarrow> char" where
  "hex_digit n = ''0123456789ABCDEF'' ! (n mod 16)"

definition encodeURIComponent :: "string \<Rightarrow> string" where
  "encodeURIComponent s =
     concat (map (\<lambda>c. if uri_unreserved c then [c]
       else [CHR ''%'', hex_digit (of_char c div 16), hex_digit (of_char c)]) s)"

definition base64_digit :: "nat \<Rightarrow> char" where
  "base64_digit n =
     ''ABCDEFGHIJKLMNOPQRSTUVWXYZabcdefghijklmnopqrstuvwxyz0123456789+/'' ! (n mod 64)"

fun base64_bytes :: "nat list \<Rightarrow> string" where
  "base64_bytes [] = []"
| "base64_bytes [a] =
     [base64_digit (a div 4), base64_digit (a mod 4 * 16), CHR ''='', CHR ''='']"
| "base64_bytes [a, b] =
     [base64_digit (a div 4), base64_digit (a mod 4 * 16 + b div 16),
      base64_digit (b mod 16 * 4), CHR ''='']"
| "base64_bytes (a # b # c # r) =
     [base64_digit (a div 4), base64_digit (a mod 4 * 16 + b div 16),
      base64_digit (b mod 16 * 4 + c div 64), base64_digit c] @ base64_bytes r"

definition base64 :: "string \<Rightarrow> string" where
  "base64 s = base64_bytes (map of_char s)"

subsection \<open>Extraction and redaction\<close>

definition docker_secrets :: "docker_credential \<Rightarrow> string list" where
  "docker_secrets c =
     [dc_password c, base64 (dc_username c @ '':'' @ dc_password c), base64 (dc_password c),
      encodeURIComponent (dc_password c)]"

definition extractDockerRegistrySecretValues :: "worker_start_payload \<Rightarrow> string list" where
  "extractDockerRegistrySecretValues payload =
     sort_key (\<lambda>s. - int (length s))
       (filter (\<lambda>s. s \<noteq> [])
          (fold (\<lambda>c acc. fold jsset_add (docker_secrets c) acc)
             (sp_dockerRegistryCredentials payload) []))"

fun credential_secret :: "repository_credential \<Rightarrow> string" where
  "credential_secret (GitSsh _ _ privateKey _) = privateKey"
| "credential_secret (GitHttps _ _ _ _ password) = password"

fun bootstrap_secrets :: "start_bootstrap \<Rightarrow> string list" where
  "bootstrap_secrets (LlmBootstrap (Some values)) =
     map js_trim (filter (\<lambda>v. js_trim v \<noteq> []) (map snd values))"
| "bootstrap_secrets (LlmBootstrap None) = []"
| "bootstrap_secrets AutomaticBootstrap = []"

definition extractSecretValuesFromPayload :: "worker_start_payload option \<Rightarrow> string list" where
  "extractSecretValuesFromPayload p =
     (case p of
        None \<Rightarrow> []
      | Some payload \<Rightarrow>
          fold (\<lambda>c acc. let value = credential_secret c in
                  if value = [] then acc
                  else jsset_add (encodeURIComponent value) (jsset_add value acc))
            (sp_repositoryCredentials payload)
            (fold jsset_add (extractDockerRegistrySecretValues payload)
               (fold jsset_add (bootstrap_secrets (sp_bootstrap payload)) [])))"

definition redaction_marker :: string where
  "redaction_marker = ''<redacted>''"

definition redactSecrets :: "string \<Rightarrow> string list \<Rightarrow> string" where
  "redactSecrets message secrets =
     fold (\<lambda>secret result. if secret = [] then result
             else js_join redaction_marker (js_split secret result)) secrets message"

definition bounded :: "string \<Rightarrow> string" where
  "bounded message = (if 200 < length message then take 197 message @ ''...'' else message)"

subsection \<open>Redaction removes the secret\<close>

lemma js_split_sublist: "f \<in> set (js_split sep s) \<Longrightarrow> sublist f s"
proof (induction sep s arbitrary: f rule: js_split.induct)
  case (2 sep c cs)
  show ?case
  proof (cases "sep \<noteq> [] \<and> prefix sep (c # cs)")
    case True
    then have "f = [] \<or> sublist f (drop (length sep) (c # cs))"
      using 2 by auto
    then show ?thesis using sublist_order.order.trans sublist_drop by auto
  next
    case False
    obtain g gs where gs: "js_split sep cs = g # gs"
      using js_split_nonempty by (metis neq_Nil_conv)
    then have "f = c # g \<or> f \<in> set gs" using 2 False by auto
    moreover have "prefix (c # g) (c # cs)"
      using js_split_first_prefix [of sep cs] gs by simp
    ultimately show ?thesis
      using 2 False gs by (auto intro: sublist_Cons_right [THEN iffD2])
  qed
qed simp

lemma sublist_join_marker:
  assumes "CHR ''<'' \<notin> set s" "CHR ''>'' \<notin> set s" "\<not> sublist s ''redacted''"
    and "sublist s (js_join redaction_marker fs)"
  shows "\<exists>f \<in> set fs. sublist s f"
  using assms(4)
proof (induction redaction_marker fs rule: js_join.induct)
  case 1
  with assms(3) show ?case by simp
next
  case (3 f g fs)
  let ?rest = "js_join redaction_marker (g # fs)"
  have "js_join redaction_marker (f # g # fs) = f @ CHR ''<'' # (''redacted'' @ CHR ''>'' # ?rest)"
    by (simp add: redaction_marker_def)
  with 3 have "sublist s f \<or> sublist s (''redacted'' @ CHR ''>'' # ?rest)"
    using sublist_not_across [OF assms(1)] by metis
  then have "sublist s f \<or> sublist s ?rest"
    using sublist_not_across [OF assms(2)] assms(3) by blast
  with 3 show ?case by auto
qed simp

definition redact_one :: "string \<Rightarrow> string \<Rightarrow> string" where
  "redact_one secret result =
     (if secret = [] then result else js_join redaction_marker (js_split secret result))"

lemma redactSecrets_fold: "redactSecrets m secrets = fold redact_one secrets m"
  by (simp add: redactSecrets_def redact_one_def [abs_def])

lemma redact_one_keeps_absence:
  assumes "CHR ''<'' \<notin> set s" "CHR ''>'' \<notin> set s" "\<not> sublist s ''redacted''"
    and "\<not> sublist s m"
  shows "\<not> sublist s (redact_one secret m)"
proof
  assume "sublist s (redact_one secret m)"
  with assms(4) have "sublist s (js_join redaction_marker (js_split secret m))"
    by (auto simp: redact_one_def split: if_splits)
  from sublist_join_marker [OF assms(1-3) this] obtain f
    where "f \<in> set (js_split secret m)" "sublist s f" by blast
  then show False using js_split_sublist assms(4) sublist_order.order.trans by blast
qed

lemma redact_one_removes:
  assumes "CHR ''<'' \<notin> set s" "CHR ''>'' \<notin> set s" "\<not> sublist s ''redacted''"
  shows "\<not> sublist s (redact_one s m)"
proof
  assume a: "sublist s (redact_one s m)"
  have "s \<noteq> []" using assms(3) by auto
  then have "sublist s (js_join redaction_marker (js_split s m))"
    using a by (simp add: redact_one_def)
  from sublist_join_marker [OF assms this] show False
    using js_split_fragment_free \<open>s \<noteq> []\<close> by blast
qed

lemma redact_fold_keeps_absence:
  assumes "CHR ''<'' \<notin> set s" "CHR ''>'' \<notin> set s" "\<not> sublist s ''redacted''"
    and "\<not> sublist s m"
  shows "\<not> sublist s (fold redact_one secrets m)"
  using assms(4)
  by (induction secrets arbitrary: m) (simp_all add: redact_one_keeps_absence [OF assms(1-3)])

lemma redactSecrets_removes:
  assumes "s \<in> set secrets"
    and "CHR ''<'' \<notin> set s" "CHR ''>'' \<notin> set s" "\<not> sublist s ''redacted''"
  shows "\<not> sublist s (redactSecrets m secrets)"
proof -
  obtain before after where "secrets = before @ s # after"
    using assms(1) by (meson split_list)
  then have "redactSecrets m secrets = fold redact_one after (redact_one s (fold redact_one before m))"
    by (simp add: redactSecrets_fold)
  then show ?thesis
    using redact_fold_keeps_absence [OF assms(2-4)] redact_one_removes [OF assms(2-4)] by metis
qed

section \<open>Failures and their dispositions\<close>

datatype runtime_state_name = NameInit | NameWaitingForStart | NameBootstrapping | NameIdle
  | NameBusy | NameDraining | NameCleanup | NameExited

record snapshot_source =
  src_kind :: session_kind
  src_treeFile :: string

record failure_session_context =
  fs_selectedTurnId :: "string option"
  fs_lifecycleStatus :: lifecycle_status
  fs_snapshotSource :: snapshot_source

record turn_failure_correlation =
  cor_turnRecordId :: string
  cor_turnId :: string
  cor_turnType :: "turn_type option"
  cor_pathType :: "path_type option"
  cor_forkPiEntryId :: "string option"
  cor_resultPiEntryId :: "string option"

datatype worker_failure =
    BootstrapFailure js_thrown worker_start_payload
  | TurnFailure turn_execution_error turn_failure_correlation "failure_session_context option"
  | MandatorySnapshotFailure js_thrown snapshot_point turn_failure_correlation
      "failure_session_context option"
  | DispatchFailure js_thrown runtime_state_name "failure_session_context option"
  | CleanupFailure js_thrown "failure_session_context option"
  | TransportFailure js_thrown

record turn_failed_payload =
  tf_turnRecordId :: string
  tf_turnId :: string
  tf_turnType :: turn_type
  tf_pathType :: path_type
  tf_errorSummary :: string
  tf_errorClass :: worker_error_class
  tf_forkPiEntryId :: "string option"
  tf_resultPiEntryId :: "string option"
  tf_failureCode :: "turn_failure_code option"
  tf_failureDetails :: "json option"
  tf_recoveryContext :: "recovery_context option"

record lifecycle_parked_payload =
  pk_selectedTurnId :: "string option"
  pk_reason :: "string option"
  pk_errorClass :: "worker_error_class option"

record worker_failed_payload =
  wf_state :: runtime_state_name
  wf_errorCode :: string
  wf_message :: string
  wf_errorClass :: worker_error_class
  wf_selectedTurnId :: "string option"

datatype diagnostic_level = LevelDebug | LevelInfo | LevelWarn | LevelError

record diagnostic_payload =
  dg_level :: diagnostic_level
  dg_code :: string
  dg_message :: string
  dg_turnRecordId :: "string option"
  dg_turnId :: "string option"
  dg_errorClass :: "worker_error_class option"
  dg_details :: "json option"

datatype failure_terminal =
    TerminalTurnFailed turn_failed_payload lifecycle_parked_payload
  | TerminalWorkerFailed worker_failed_payload
  | TerminalPark lifecycle_parked_payload
  | TerminalTransportLost

record failure_disposition =
  dp_diagnostic :: "diagnostic_payload option"
  dp_stderrMessage :: string
  dp_snapshot :: "snapshot_source option"
  dp_terminal :: failure_terminal
  dp_exitCode :: "int option"

text \<open>\<open>classifyRuntimeError(failure.error, "infrastructure")\<close>; a turn failure carries a
  \<open>TurnExecutionError\<close>, which classifies itself.\<close>

fun classify_failure :: "worker_failure \<Rightarrow> classified_error" where
  "classify_failure (BootstrapFailure e _) = classifyRuntimeError e Infrastructure"
| "classify_failure (TurnFailure te _ _) =
     \<lparr>ce_errorClass = te_errorClass te, ce_message = te_message te\<rparr>"
| "classify_failure (MandatorySnapshotFailure e _ _ _) = classifyRuntimeError e Infrastructure"
| "classify_failure (DispatchFailure e _ _) = classifyRuntimeError e Infrastructure"
| "classify_failure (CleanupFailure e _) = classifyRuntimeError e Infrastructure"
| "classify_failure (TransportFailure e) = classifyRuntimeError e Infrastructure"

definition failure_message :: "worker_failure \<Rightarrow> string" where
  "failure_message f =
     redactSecrets (ce_message (classify_failure f))
       (extractSecretValuesFromPayload
          (case f of BootstrapFailure _ payload \<Rightarrow> Some payload | _ \<Rightarrow> None))"

definition json_field :: "string \<Rightarrow> string option \<Rightarrow> (string \<times> json) list" where
  "json_field k v = (case v of None \<Rightarrow> [] | Some s \<Rightarrow> [(k, JStr s)])"

definition transport_details_json :: "transport_error_details \<Rightarrow> json" where
  "transport_details_json d =
     JObj ((''causes'', JArr (map (\<lambda>c. JObj (json_field ''name'' (tc_name c) @
         json_field ''code'' (tc_code c) @
         (case tc_parent c of None \<Rightarrow> [] | Some j \<Rightarrow> [(''parent'', JNum (int j))]))) (td_causes d)))
       # (if td_truncated d then [(''truncated'', JBool True)] else []))"

definition snapshot_failure_prefix :: "snapshot_point \<Rightarrow> string" where
  "snapshot_failure_prefix point =
     ''Mandatory session snapshot upload failed before '' @ snapshot_point_name point @ '': ''"

definition snapshot_failure_details :: "snapshot_point \<Rightarrow> js_thrown \<Rightarrow> json" where
  "snapshot_failure_details point err =
     JObj [(''reason'', JStr (snapshot_point_name point)),
           (''transport'', transport_details_json (transportErrorDetails err))]"

definition turn_failed_of ::
  "turn_failure_correlation \<Rightarrow> string \<Rightarrow> worker_error_class \<Rightarrow> turn_failure_code option \<Rightarrow>
   json option \<Rightarrow> recovery_context option \<Rightarrow> turn_failed_payload" where
  "turn_failed_of cor summary cls code details ctx =
     \<lparr>tf_turnRecordId = cor_turnRecordId cor, tf_turnId = cor_turnId cor,
      tf_turnType = coalesce (cor_turnType cor) LlmTurn,
      tf_pathType = coalesce (cor_pathType cor) PrimaryPath,
      tf_errorSummary = summary, tf_errorClass = cls,
      tf_forkPiEntryId = cor_forkPiEntryId cor, tf_resultPiEntryId = cor_resultPiEntryId cor,
      tf_failureCode = code, tf_failureDetails = details, tf_recoveryContext = ctx\<rparr>"

definition turn_failure_park ::
  "failure_session_context option \<Rightarrow> turn_failure_correlation \<Rightarrow> string \<Rightarrow> worker_error_class \<Rightarrow>
   lifecycle_parked_payload" where
  "turn_failure_park ses cor summary cls =
     \<lparr>pk_selectedTurnId = Some (coalesce (Option.bind ses fs_selectedTurnId) (cor_turnId cor)),
      pk_reason = Some summary, pk_errorClass = Some cls\<rparr>"

definition worker_failed_disposition ::
  "diagnostic_payload \<Rightarrow> string \<Rightarrow> snapshot_source option \<Rightarrow> worker_failed_payload \<Rightarrow>
   failure_disposition" where
  "worker_failed_disposition diag stderr snap payload =
     \<lparr>dp_diagnostic = Some diag, dp_stderrMessage = stderr, dp_snapshot = snap,
      dp_terminal = TerminalWorkerFailed payload, dp_exitCode = Some 1\<rparr>"

definition plain_diagnostic :: "string \<Rightarrow> string \<Rightarrow> worker_error_class \<Rightarrow> diagnostic_payload" where
  "plain_diagnostic code msg cls =
     \<lparr>dg_level = LevelError, dg_code = code, dg_message = msg, dg_turnRecordId = None,
      dg_turnId = None, dg_errorClass = Some cls, dg_details = None\<rparr>"

fun normalizeWorkerFailure :: "worker_failure \<Rightarrow> failure_disposition" where
  "normalizeWorkerFailure (TransportFailure e) =
     \<lparr>dp_diagnostic = None, dp_stderrMessage = failure_message (TransportFailure e),
      dp_snapshot = None, dp_terminal = TerminalTransportLost, dp_exitCode = Some 1\<rparr>"
| "normalizeWorkerFailure (TurnFailure te cor ses) =
     (let summary = te_message te; cls = te_errorClass te in
      \<lparr>dp_diagnostic = Some \<lparr>dg_level = LevelError, dg_code = ''turn.execution_failed'',
         dg_message = ''Turn execution failed: '' @ summary,
         dg_turnRecordId = Some (cor_turnRecordId cor), dg_turnId = Some (cor_turnId cor),
         dg_errorClass = Some cls, dg_details = None\<rparr>,
       dp_stderrMessage = summary, dp_snapshot = None,
       dp_terminal = TerminalTurnFailed
         (turn_failed_of cor summary cls (te_failureCode te) (te_failureDetails te)
            (te_recoveryContext te))
         (turn_failure_park ses cor summary cls),
       dp_exitCode = None\<rparr>)"
| "normalizeWorkerFailure (MandatorySnapshotFailure e point cor ses) =
     (let message = failure_message (MandatorySnapshotFailure e point cor ses);
          summary = (if prefix (snapshot_failure_prefix point) message then message
                     else snapshot_failure_prefix point @ message);
          cls = ce_errorClass (classify_failure (MandatorySnapshotFailure e point cor ses));
          details = Some (snapshot_failure_details point e) in
      \<lparr>dp_diagnostic = Some \<lparr>dg_level = LevelError, dg_code = ''session_snapshot.upload_failed'',
         dg_message = summary,
         dg_turnRecordId = Some (cor_turnRecordId cor), dg_turnId = Some (cor_turnId cor),
         dg_errorClass = Some cls, dg_details = details\<rparr>,
       dp_stderrMessage = summary, dp_snapshot = None,
       dp_terminal = TerminalTurnFailed (turn_failed_of cor summary cls None details None)
         (turn_failure_park ses cor summary cls),
       dp_exitCode = None\<rparr>)"
| "normalizeWorkerFailure (BootstrapFailure e payload) =
     (let summary = ''Worker bootstrap failed: '' @ failure_message (BootstrapFailure e payload) in
      worker_failed_disposition (plain_diagnostic ''bootstrap.failed'' summary Infrastructure)
        summary
        (Some \<lparr>src_kind = bootstrap_kind (sp_bootstrap payload),
               src_treeFile = sp_primaryTreeFile payload\<rparr>)
        \<lparr>wf_state = NameBootstrapping, wf_errorCode = errorCode e ''bootstrap_failed'',
         wf_message = bounded summary, wf_errorClass = Infrastructure,
         wf_selectedTurnId = sp_selectedTurnId payload\<rparr>)"
| "normalizeWorkerFailure (CleanupFailure e ses) =
     (let message = failure_message (CleanupFailure e ses);
          summary = ''Worker cleanup failed: '' @ message;
          cls = ce_errorClass (classify_failure (CleanupFailure e ses)) in
      worker_failed_disposition (plain_diagnostic ''cleanup.failed'' summary cls) summary
        (map_option fs_snapshotSource ses)
        \<lparr>wf_state = NameCleanup, wf_errorCode = ''cleanup_failed'', wf_message = bounded message,
         wf_errorClass = cls, wf_selectedTurnId = Option.bind ses fs_selectedTurnId\<rparr>)"
| "normalizeWorkerFailure (DispatchFailure e st ses) =
     (let message = failure_message (DispatchFailure e st ses);
          summary = ''Worker dispatch failed: '' @ message;
          cls = ce_errorClass (classify_failure (DispatchFailure e st ses));
          diag = plain_diagnostic ''runtime.dispatch_failed'' summary cls;
          failed = worker_failed_disposition diag summary (map_option fs_snapshotSource ses)
            \<lparr>wf_state = st, wf_errorCode = ''runtime_dispatch_failed'',
             wf_message = bounded message, wf_errorClass = cls,
             wf_selectedTurnId = Option.bind ses fs_selectedTurnId\<rparr> in
      case ses of
        Some ctx \<Rightarrow>
          if fs_lifecycleStatus ctx \<noteq> ErrorProcess
          then \<lparr>dp_diagnostic = Some diag, dp_stderrMessage = message, dp_snapshot = None,
                dp_terminal = TerminalPark \<lparr>pk_selectedTurnId = fs_selectedTurnId ctx,
                  pk_reason = Some message, pk_errorClass = Some cls\<rparr>,
                dp_exitCode = None\<rparr>
          else failed
      | None \<Rightarrow> failed)"

end
