(* ===== verification/Worker_Types.thy ===== *)
theory Worker_Types
  imports Worker_Failure_Policy
begin

text \<open>
  The data of the worker runtime, \<^verbatim>\<open>packages/worker/src/runtime/lifecycle-reducer.ts\<close> and the
  types it imports: phases, publications, sessions, queued inputs, credentials, protocol facts,
  commands, server messages and runtime events.
\<close>

section \<open>State\<close>

datatype turn_status = TurnPending | TurnExecuting | TurnCompleted

datatype draining_operation =
    DrainBootstrap string string
  | DrainActivation string string
  | DrainTurn string

datatype cleaning_stage = StagePublication | StageResources

datatype worker_phase =
    Init
  | WaitingForStart
  | Bootstrapping string string
  | Readying string string "string option"
  | WaitingForAcceptance string string
  | Activating string string
  | Active string string turn_status
  | Draining string bool "draining_operation option"
  | Cleaning string bool cleaning_stage
  | Exited

datatype reported_state = ReportedIdle | ReportedBusy | ReportedDraining

datatype timer_name = Heartbeat | AcceptanceRetry | CredentialPoll | TerminalAck

datatype input_target = TargetSemanticRef string | TargetProduct string

record input_item =
  in_inputId :: string
  in_sequence :: int
  in_source :: string
  in_kind :: string
  in_target :: "input_target option"
  in_bodyMarkdown :: string

record input_delivery =
  dl_inputId :: string
  dl_sequence :: int
  dl_source :: string
  dl_kind :: string
  dl_target :: "input_target option"
  dl_receivedAt :: string
  dl_bodyMarkdown :: string

definition inputDeliveryToItem :: "input_delivery \<Rightarrow> input_item" where
  "inputDeliveryToItem d =
     \<lparr>in_inputId = dl_inputId d, in_sequence = dl_sequence d, in_source = dl_source d,
      in_kind = dl_kind d, in_target = dl_target d, in_bodyMarkdown = dl_bodyMarkdown d\<rparr>"

datatype delivery_mode = ModePrompt | ModeSteer | ModeIgnored | ModeAppendMessage

record delivered_input =
  di_inputId :: string
  di_sequence :: int
  di_deliveryMode :: delivery_mode

type_synonym json_fields = "(string \<times> json) list"

record applied_targeted_input =
  at_inputId :: string
  at_sequence :: int
  at_meta :: "json_fields option"

record process_snapshot =
  ps_lifecycleStatus :: lifecycle_status
  ps_selectedTurnModelProfileId :: "string option"
  ps_rest :: json

text \<open>\<open>PreparedWorkerSession\<close>: the fields the reducer reads or sets; \<open>ses_rest\<close> is the rest.\<close>

record prepared_session =
  ses_kind :: session_kind
  ses_piAvailable :: bool
  ses_activeModelProfileId :: "string option"
  ses_processSnapshot :: process_snapshot
  ses_selectedTurnId :: string
  ses_startRecordId :: string
  ses_proposedTurnRecordId :: string
  ses_acceptedTurnRecordId :: "string option"
  ses_treeFile :: string
  ses_workspaceRoot :: string
  ses_heartbeatIntervalMs :: int
  ses_rest :: json

record credential_descriptor =
  cd_agentDir :: string
  cd_declaredCredentialPaths :: "string list"
  cd_providerId :: string
  cd_revision :: int

record credential_state =
  cs_descriptor :: credential_descriptor
  cs_baselineFingerprint :: "string option"
  cs_pendingFingerprint :: "string option"
  cs_revision :: int
  cs_sampling :: bool
  cs_updatePending :: bool
  cs_enabled :: bool

record turn_outcome_payload =
  to_turnRecordId :: string
  to_turnId :: string
  to_turnType :: turn_type
  to_outcome :: string
  to_params :: json
  to_pathType :: path_type
  to_forkPiEntryId :: "string option"
  to_resultPiEntryId :: "string option"
  to_turnResultMarkdown :: "string option"
  to_resultSummary :: "string option"
  to_rootEntryId :: "string option"

datatype terminal_fact = OutcomeFact turn_outcome_payload | FailedFact turn_failed_payload

record pending_terminal =
  pt_fact :: terminal_fact
  pt_park :: "lifecycle_parked_payload option"
  pt_correlation :: turn_failure_correlation

record pending_fatal =
  pf_payload :: worker_failed_payload
  pf_exitCode :: "int option"

datatype after_snapshot = AfterExit | AfterCleanup

datatype publication_state =
    PubNone
  | ReadySnapshot
  | TerminalSnapshot snapshot_point string pending_terminal
  | TerminalPendingAck pending_terminal
  | CleanupSnapshot
  | FatalSnapshot pending_fatal after_snapshot
  | FatalPendingCleanup pending_fatal

text \<open>The \<open>snapshot\<close> field of a publication: point, correlated turn and requiredness.\<close>

fun publication_snapshot :: "publication_state \<Rightarrow> (snapshot_point \<times> string option \<times> bool) option" where
  "publication_snapshot PubNone = None"
| "publication_snapshot ReadySnapshot = Some (AfterWorkerReady, None, False)"
| "publication_snapshot (TerminalSnapshot point turn _) = Some (point, Some turn, True)"
| "publication_snapshot (TerminalPendingAck _) = None"
| "publication_snapshot CleanupSnapshot = Some (BeforeCleanupCompleted, None, True)"
| "publication_snapshot (FatalSnapshot _ _) = Some (BeforeWorkerFailed, None, False)"
| "publication_snapshot (FatalPendingCleanup _) = None"

record active_work =
  deliveryHeadSequence :: "int option"
  publication :: publication_state

record worker_state =
  phase :: worker_phase
  session :: "prepared_session option"
  inputQueue :: "input_item list"
  lastSequenceConsumed :: int
  sessionTainted :: bool
  piTurnActive :: bool
  work :: active_work
  credential :: "credential_state option"
  timers :: "timer_name \<Rightarrow> string option"

abbreviation set_publication :: "publication_state \<Rightarrow> worker_state \<Rightarrow> worker_state" where
  "set_publication p s \<equiv> s\<lparr>work := (work s)\<lparr>publication := p\<rparr>\<rparr>"

abbreviation set_deliveryHead :: "int option \<Rightarrow> worker_state \<Rightarrow> worker_state" where
  "set_deliveryHead h s \<equiv> s\<lparr>work := (work s)\<lparr>deliveryHeadSequence := h\<rparr>\<rparr>"

section \<open>Outputs and events\<close>

datatype protocol_fact =
    WorkerHello
  | BootstrapProgress string
  | WorkerHeartbeat reported_state int string
  | WorkerReady json
  | TurnStarted string string
  | TurnOutcome turn_outcome_payload
  | TurnFailed turn_failed_payload
  | LifecycleParked lifecycle_parked_payload
  | InputConsumed string int delivery_mode json_fields
  | WorkerStateChanged reported_state reported_state string
  | CleanupStarted string
  | CleanupCompleted "string list" "string list"
  | WorkerFailed worker_failed_payload
  | CredentialUpdate string int "(string \<times> string) list"

fun terminal_protocol :: "terminal_fact \<Rightarrow> protocol_fact" where
  "terminal_protocol (OutcomeFact p) = TurnOutcome p"
| "terminal_protocol (FailedFact p) = TurnFailed p"

datatype worker_command =
    CmdBootstrap string worker_start_payload
  | CmdActivate string string prepared_session
  | CmdDeliverInputs int "input_item list" bool
  | CmdExecuteTurn string "input_item list" prepared_session
  | CmdUploadSnapshot snapshot_point "string option" bool snapshot_source
  | CmdSampleCredentials credential_descriptor bool
  | CmdCleanup
  | CmdArmTimer timer_name int string
  | CmdCancelTimer timer_name
  | CmdCloseTransport
  | CmdExit int

datatype extension_fact = HandleReady string string | SessionTaintedFact string

datatype worker_output =
    Protocol protocol_fact
  | Extension extension_fact
  | Diagnostic diagnostic_payload "string option"
  | Stderr string
  | Command worker_command

record bootstrap_completion =
  bc_session :: prepared_session
  bc_pendingInputs :: "input_item list"
  bc_readyPayload :: json
  bc_credentialRefresh :: "credential_descriptor option"
  bc_diagnostics :: "string list"

record turn_execution_meta =
  tm_turnRecordId :: string
  tm_turnType :: "turn_type option"
  tm_pathType :: path_type
  tm_forkPiEntryId :: "string option"
  tm_resultPiEntryId :: "string option"
  tm_turnResultMarkdown :: "string option"
  tm_resultSummary :: "string option"
  tm_rootEntryId :: "string option"

record turn_execution_failure =
  xf_turnRecordId :: string
  xf_turnId :: string
  xf_turnType :: turn_type
  xf_pathType :: path_type
  xf_failure :: turn_execution_error
  xf_forkPiEntryId :: "string option"
  xf_resultPiEntryId :: "string option"

datatype turn_execution_result =
    ResultOutcome string string json turn_execution_meta "applied_targeted_input list"
  | ResultFailed turn_execution_failure "applied_targeted_input list"
  | ResultParked "string option" "applied_targeted_input list"

fun appliedTargetedInputs :: "turn_execution_result \<Rightarrow> applied_targeted_input list" where
  "appliedTargetedInputs (ResultOutcome _ _ _ _ a) = a"
| "appliedTargetedInputs (ResultFailed _ a) = a"
| "appliedTargetedInputs (ResultParked _ a) = a"

text \<open>
  Server messages. Question responses and integration tool results are routed to their bridges
  before the reducer; were one to arrive, the reducer ignores it.
\<close>

datatype server_message =
    MsgStart worker_start_payload
  | MsgTurnStartAccepted string string
  | MsgTurnTerminalRecorded string
  | MsgCredentialUpdateAccepted string bool "int option" "string option"
  | MsgInputBatch "input_delivery list"
  | MsgStop string
  | MsgAbortTurn string
  | MsgOther

datatype worker_event =
    RuntimeStarted
  | TransportConnected
  | TransportFailed js_thrown
  | ServerMessage server_message
  | StopRequested string bool
  | OperatorAbortObserved
  | PiTurnStarted
  | PiTurnEnded
  | SessionTaintedEvent string
  | TimerFired timer_name string
  | BootstrapSucceeded string bootstrap_completion
  | BootstrapFailed string js_thrown worker_start_payload
  | ActivationSucceeded string string "string list"
  | ActivationFailed string string js_thrown
  | InputsDelivered int "delivered_input list" "json_fields option"
  | InputDeliveryFailed int js_thrown
  | TurnCompletedEvent string turn_execution_result
  | TurnDefect string js_thrown
  | SnapshotSucceeded snapshot_point "string option"
  | SnapshotFailed snapshot_point "string option" js_thrown
  | CredentialSampled string "(string \<times> string) list" string
  | CredentialSampleFailed string js_thrown
  | CleanupSucceeded
  | CleanupFailed js_thrown
  | InvariantFailed js_thrown

fun event_kind :: "worker_event \<Rightarrow> string" where
  "event_kind RuntimeStarted = ''runtime_started''"
| "event_kind TransportConnected = ''transport_connected''"
| "event_kind (TransportFailed _) = ''transport_failed''"
| "event_kind (ServerMessage _) = ''server_message''"
| "event_kind (StopRequested _ _) = ''stop_requested''"
| "event_kind OperatorAbortObserved = ''operator_abort_observed''"
| "event_kind PiTurnStarted = ''pi_turn_started''"
| "event_kind PiTurnEnded = ''pi_turn_ended''"
| "event_kind (SessionTaintedEvent _) = ''session_tainted''"
| "event_kind (TimerFired _ _) = ''timer_fired''"
| "event_kind (BootstrapSucceeded _ _) = ''bootstrap_succeeded''"
| "event_kind (BootstrapFailed _ _ _) = ''bootstrap_failed''"
| "event_kind (ActivationSucceeded _ _ _) = ''activation_succeeded''"
| "event_kind (ActivationFailed _ _ _) = ''activation_failed''"
| "event_kind (InputsDelivered _ _ _) = ''inputs_delivered''"
| "event_kind (InputDeliveryFailed _ _) = ''input_delivery_failed''"
| "event_kind (TurnCompletedEvent _ _) = ''turn_completed''"
| "event_kind (TurnDefect _ _) = ''turn_defect''"
| "event_kind (SnapshotSucceeded _ _) = ''snapshot_succeeded''"
| "event_kind (SnapshotFailed _ _ _) = ''snapshot_failed''"
| "event_kind (CredentialSampled _ _ _) = ''credential_sampled''"
| "event_kind (CredentialSampleFailed _ _) = ''credential_sample_failed''"
| "event_kind CleanupSucceeded = ''cleanup_succeeded''"
| "event_kind (CleanupFailed _) = ''cleanup_failed''"
| "event_kind (InvariantFailed _) = ''invariant_failed''"

type_synonym reduction = "worker_state \<times> worker_output list"

end
