(* ===== verification/Worker_Lifecycle.thy ===== *)
theory Worker_Lifecycle
  imports Worker_Types
begin

text \<open>
  The worker runtime's state machine, \<^verbatim>\<open>packages/worker/src/runtime/lifecycle-reducer.ts\<close>: the
  FIFO input policy, the helpers, and the reducer \<open>reduceWorkerRuntime\<close>, written as one definition
  per event handler. A helper of the source that pushes onto the shared \<open>outputs\<close> array returns
  the outputs it pushes; a \<open>throw\<close> is \<open>Inl\<close>.
\<close>

section \<open>Pure helpers of the reducer\<close>

definition createInitialWorkerRuntimeState :: worker_state where
  "createInitialWorkerRuntimeState =
     \<lparr>phase = Init, session = None, inputQueue = [], lastSequenceConsumed = 0,
      sessionTainted = False, piTurnActive = False,
      work = \<lparr>deliveryHeadSequence = None, publication = PubNone\<rparr>,
      credential = None, timers = (\<lambda>_. None)\<rparr>"

fun terminal_publication :: "publication_state \<Rightarrow> bool" where
  "terminal_publication (TerminalSnapshot _ _ _) = True"
| "terminal_publication (TerminalPendingAck _) = True"
| "terminal_publication _ = False"

definition deriveReportedWorkerState :: "worker_state \<Rightarrow> reported_state" where
  "deriveReportedWorkerState s =
     (case phase s of
        Draining _ _ _ \<Rightarrow> ReportedDraining
      | Cleaning _ _ _ \<Rightarrow> ReportedDraining
      | Active _ _ st \<Rightarrow>
          if st = TurnExecuting \<or> terminal_publication (publication (work s)) \<or>
             deliveryHeadSequence (work s) \<noteq> None
          then ReportedBusy else ReportedIdle
      | _ \<Rightarrow> if deliveryHeadSequence (work s) \<noteq> None then ReportedBusy else ReportedIdle)"

subsection \<open>The FIFO input policy\<close>

datatype input_effect =
    EffectNone
  | EffectBlocked
  | EffectDeliver "input_item list"
  | EffectConsumeIgnored "input_item list"
  | EffectStartTurn "input_item list"

definition decideWorkerInputEffect :: "input_item list \<Rightarrow> bool \<Rightarrow> bool \<Rightarrow> bool \<Rightarrow> input_effect" where
  "decideWorkerInputEffect items tainted piAvailable mayStartTurn =
     (case items of
        [] \<Rightarrow> if mayStartTurn \<and> \<not> tainted then EffectStartTurn [] else EffectNone
      | head # _ \<Rightarrow>
          if tainted then EffectBlocked
          else if in_target head \<noteq> None then
            (if \<not> mayStartTurn then EffectNone
             else EffectStartTurn (takeWhile (\<lambda>item. in_target item \<noteq> None) items))
          else
            (let ordinary = takeWhile (\<lambda>item. in_target item = None) items in
             if piAvailable then EffectDeliver ordinary else EffectConsumeIgnored ordinary))"

definition inputs_by_id :: "input_item list \<Rightarrow> (string \<times> input_item) list \<Rightarrow> (string \<times> input_item) list" where
  "inputs_by_id items m = fold (\<lambda>item. jsmap_set (in_inputId item) item) items m"

definition enqueueInputs :: "input_item list \<Rightarrow> input_item list \<Rightarrow> input_item list" where
  "enqueueInputs current incoming =
     sort_key in_sequence (map snd (inputs_by_id incoming (inputs_by_id current [])))"

subsection \<open>State names and failure context\<close>

definition currentStateName :: "worker_state \<Rightarrow> runtime_state_name" where
  "currentStateName s =
     (case phase s of
        Init \<Rightarrow> NameInit
      | WaitingForStart \<Rightarrow> NameWaitingForStart
      | Bootstrapping _ _ \<Rightarrow> NameBootstrapping
      | Readying _ _ _ \<Rightarrow> NameIdle
      | WaitingForAcceptance _ _ \<Rightarrow> NameIdle
      | Activating _ _ \<Rightarrow> NameBusy
      | Active _ _ st \<Rightarrow>
          (case publication (work s) of
             TerminalSnapshot _ _ _ \<Rightarrow> NameBusy
           | _ \<Rightarrow> if st = TurnExecuting then NameBusy else NameIdle)
      | Draining _ _ _ \<Rightarrow> NameDraining
      | Cleaning _ _ _ \<Rightarrow> NameCleanup
      | Exited \<Rightarrow> NameExited)"

definition sessionSnapshotSource :: "prepared_session \<Rightarrow> snapshot_source" where
  "sessionSnapshotSource ses = \<lparr>src_kind = ses_kind ses, src_treeFile = ses_treeFile ses\<rparr>"

definition failureContext :: "worker_state \<Rightarrow> failure_session_context option" where
  "failureContext s =
     map_option (\<lambda>ses. \<lparr>fs_selectedTurnId = Some (ses_selectedTurnId ses),
        fs_lifecycleStatus = ps_lifecycleStatus (ses_processSnapshot ses),
        fs_snapshotSource = sessionSnapshotSource ses\<rparr>) (session s)"

definition hasActivePublication :: "worker_state \<Rightarrow> bool" where
  "hasActivePublication s \<longleftrightarrow> publication (work s) \<noteq> PubNone"

definition beginSnapshot :: "worker_state \<Rightarrow> publication_state \<Rightarrow> snapshot_source \<Rightarrow> reduction throws" where
  "beginSnapshot s pub source =
     (if hasActivePublication s then Inl ''Snapshot publication is already active''
      else case publication_snapshot pub of
        None \<Rightarrow> Inr (set_publication pub s, [])
      | Some (point, turn, req) \<Rightarrow>
          Inr (set_publication pub s, [Command (CmdUploadSnapshot point turn req source)]))"

definition armTimer :: "worker_state \<Rightarrow> timer_name \<Rightarrow> int \<Rightarrow> string \<Rightarrow> reduction" where
  "armTimer s name delay cor =
     (s\<lparr>timers := (timers s)(name := Some cor)\<rparr>, [Command (CmdArmTimer name delay cor)])"

definition TERMINAL_ACK_RETRY_MS :: int where
  "TERMINAL_ACK_RETRY_MS = 5000"

definition publishTerminalAndAwaitAcknowledgement :: "worker_state \<Rightarrow> pending_terminal \<Rightarrow> reduction" where
  "publishTerminalAndAwaitAcknowledgement s terminal =
     (let (s', timerOut) = armTimer (set_publication (TerminalPendingAck terminal) s) TerminalAck
            TERMINAL_ACK_RETRY_MS (cor_turnRecordId (pt_correlation terminal))
      in (s', Protocol (terminal_protocol (pt_fact terminal)) #
              (case pt_park terminal of None \<Rightarrow> [] | Some p \<Rightarrow> [Protocol (LifecycleParked p)]) @
              timerOut))"

definition finishFatal :: "worker_state \<Rightarrow> pending_fatal \<Rightarrow> reduction" where
  "finishFatal s fatal =
     ((set_publication PubNone s)\<lparr>phase := Exited\<rparr>,
      [Protocol (WorkerFailed (pf_payload fatal)), Command CmdCloseTransport] @
      (case pf_exitCode fatal of None \<Rightarrow> [] | Some code \<Rightarrow> [Command (CmdExit code)]))"

definition failureOutputs :: "worker_state \<Rightarrow> worker_failure \<Rightarrow> reduction throws" where
  "failureOutputs s failure =
     (let d = normalizeWorkerFailure failure;
          reports = (case dp_diagnostic d of None \<Rightarrow> [] | Some g \<Rightarrow> [Diagnostic g None]) @
                    (if dp_stderrMessage d \<noteq> [] then [Stderr (dp_stderrMessage d)] else [])
      in case dp_terminal d of
           TerminalTurnFailed payload park \<Rightarrow>
             Inr (s, reports @ [Protocol (TurnFailed payload), Protocol (LifecycleParked park)])
         | TerminalPark payload \<Rightarrow> Inr (s, reports @ [Protocol (LifecycleParked payload)])
         | TerminalWorkerFailed payload \<Rightarrow>
             (let fatal = \<lparr>pf_payload = payload, pf_exitCode = dp_exitCode d\<rparr> in
              case dp_snapshot d of
                Some source \<Rightarrow>
                  if \<not> hasActivePublication s then
                    throws_bind
                      (beginSnapshot s (FatalSnapshot fatal
                         (case phase s of Cleaning _ _ StagePublication \<Rightarrow> AfterCleanup
                          | _ \<Rightarrow> AfterExit)) source)
                      (\<lambda>(s', outs). Inr (s', reports @ outs))
                  else (let (s', outs) = finishFatal s fatal in Inr (s', reports @ outs))
              | None \<Rightarrow> (let (s', outs) = finishFatal s fatal in Inr (s', reports @ outs)))
         | TerminalTransportLost \<Rightarrow>
             Inr ((set_publication PubNone s)\<lparr>phase := Exited\<rparr>,
                  reports @ [Command CmdCloseTransport,
                             Command (CmdExit (coalesce (dp_exitCode d) 1))]))"

subsection \<open>Correlating completions with the phase\<close>

definition matchesBootstrap :: "worker_state \<Rightarrow> string \<Rightarrow> bool" where
  "matchesBootstrap s startRecordId =
     (case phase s of
        Bootstrapping sid _ \<Rightarrow> sid = startRecordId
      | Draining _ _ (Some (DrainBootstrap sid _)) \<Rightarrow> sid = startRecordId
      | _ \<Rightarrow> False)"

definition matchesActivation :: "worker_state \<Rightarrow> string \<Rightarrow> string \<Rightarrow> bool" where
  "matchesActivation s startRecordId turnRecordId =
     (case phase s of
        Activating sid tid \<Rightarrow> sid = startRecordId \<and> tid = turnRecordId
      | Draining _ _ (Some (DrainActivation sid tid)) \<Rightarrow> sid = startRecordId \<and> tid = turnRecordId
      | _ \<Rightarrow> False)"

definition matchesTurn :: "worker_state \<Rightarrow> string \<Rightarrow> bool" where
  "matchesTurn s turnRecordId =
     (case phase s of
        Active _ tid st \<Rightarrow> st = TurnExecuting \<and> tid = turnRecordId
      | Draining _ _ (Some (DrainTurn tid)) \<Rightarrow> tid = turnRecordId
      | _ \<Rightarrow> False)"

definition isDraining :: "worker_state \<Rightarrow> bool" where
  "isDraining s = (case phase s of Draining _ _ _ \<Rightarrow> True | _ \<Rightarrow> False)"

definition finishDrainingOperation :: "worker_state \<Rightarrow> worker_state" where
  "finishDrainingOperation s =
     (case phase s of Draining r x _ \<Rightarrow> s\<lparr>phase := Draining r x None\<rparr> | _ \<Rightarrow> s)"

definition noActiveWork :: "worker_state \<Rightarrow> bool" where
  "noActiveWork s =
     (case phase s of
        Draining _ _ None \<Rightarrow> deliveryHeadSequence (work s) = None \<and> publication (work s) = PubNone
      | _ \<Rightarrow> False)"

definition inputConsumedFact :: "string \<Rightarrow> int \<Rightarrow> delivery_mode \<Rightarrow> json_fields \<Rightarrow> worker_output" where
  "inputConsumedFact iid sq mode meta = Protocol (InputConsumed iid sq mode meta)"

fun remove_applied ::
  "applied_targeted_input list \<Rightarrow> input_item list \<Rightarrow> int \<Rightarrow> input_item list \<times> int \<times> worker_output list" where
  "remove_applied [] queue lst = (queue, lst, [])"
| "remove_applied (item # rest) [] lst = ([], lst, [])"
| "remove_applied (item # rest) (head # queue) lst =
     (if in_inputId head \<noteq> at_inputId item \<or> in_sequence head \<noteq> at_sequence item \<or>
         in_target head = None
      then (head # queue, lst, [])
      else (let (queue', lst', outs) = remove_applied rest queue (max lst (at_sequence item))
            in (queue', lst',
                inputConsumedFact (at_inputId item) (at_sequence item) ModeAppendMessage
                  (coalesce (at_meta item) []) # outs)))"

definition removeAppliedTargeted :: "worker_state \<Rightarrow> applied_targeted_input list \<Rightarrow> reduction" where
  "removeAppliedTargeted s applied =
     (let (queue, lst, outs) = remove_applied applied (inputQueue s) (lastSequenceConsumed s)
      in (s\<lparr>inputQueue := queue, lastSequenceConsumed := lst\<rparr>, outs))"

definition beginActivation :: "worker_state \<Rightarrow> string \<Rightarrow> string \<Rightarrow> reduction" where
  "beginActivation s startRecordId turnRecordId =
     (case session s of
        None \<Rightarrow> (s, [])
      | Some ses \<Rightarrow>
          (s\<lparr>phase := Activating startRecordId turnRecordId,
             timers := (timers s)(AcceptanceRetry := None)\<rparr>,
           [Command (CmdCancelTimer AcceptanceRetry),
            Command (CmdActivate startRecordId turnRecordId ses)]))"

definition finishReadying :: "worker_state \<Rightarrow> reduction" where
  "finishReadying s =
     (case phase s of
        Readying sid proposed acceptedId \<Rightarrow>
          if (case credential s of None \<Rightarrow> False | Some c \<Rightarrow> cs_sampling c) then (s, [])
          else if hasActivePublication s then (s, [])
          else if truthy acceptedId then beginActivation s sid (the acceptedId)
          else (let (s', outs) = armTimer (s\<lparr>phase := WaitingForAcceptance sid proposed\<rparr>)
                        AcceptanceRetry 1000 sid
                in (s', Protocol (TurnStarted sid proposed) # outs))
      | _ \<Rightarrow> (s, []))"

section \<open>Advancing after an event\<close>

text \<open>The draining branch of \<open>advance\<close>: cleanup starts, after a required snapshot if there is one.\<close>

definition begin_cleanup :: "worker_state \<Rightarrow> string \<Rightarrow> bool \<Rightarrow> reduction throws" where
  "begin_cleanup s reason exitAfter =
     (case session s of
        Some ses \<Rightarrow>
          (case resolveWorkerSnapshotPolicy BeforeCleanupCompleted (ses_kind ses) (ses_piAvailable ses) of
             Upload _ _ \<Rightarrow>
               throws_bind
                 (beginSnapshot (s\<lparr>phase := Cleaning reason exitAfter StagePublication\<rparr>)
                    CleanupSnapshot (sessionSnapshotSource ses))
                 (\<lambda>(s', outs). Inr (s', Protocol (CleanupStarted reason) # outs))
           | NoUpload \<Rightarrow>
               Inr (s\<lparr>phase := Cleaning reason exitAfter StageResources\<rparr>,
                    [Protocol (CleanupStarted reason), Command CmdCleanup]))
      | None \<Rightarrow>
          Inr (s\<lparr>phase := Cleaning reason exitAfter StageResources\<rparr>,
               [Protocol (CleanupStarted reason), Command CmdCleanup]))"

definition mayStartTurn :: "worker_state \<Rightarrow> bool" where
  "mayStartTurn s = (case phase s of Active _ _ st \<Rightarrow> st = TurnPending | _ \<Rightarrow> False)"

definition may_take_inputs :: "worker_state \<Rightarrow> bool" where
  "may_take_inputs s =
     ((case phase s of Active _ _ _ \<Rightarrow> True | WaitingForAcceptance _ _ \<Rightarrow> True | _ \<Rightarrow> False) \<and>
      deliveryHeadSequence (work s) = None \<and> \<not> hasActivePublication s)"

definition waits_as_llm :: "worker_state \<Rightarrow> bool" where
  "waits_as_llm s =
     (case phase s of
        WaitingForAcceptance _ _ \<Rightarrow>
          (case session s of None \<Rightarrow> False | Some ses \<Rightarrow> ses_kind ses = LlmSession)
      | _ \<Rightarrow> False)"

definition session_piAvailable :: "worker_state \<Rightarrow> bool" where
  "session_piAvailable s = (case session s of None \<Rightarrow> False | Some ses \<Rightarrow> ses_piAvailable ses)"

definition input_decision :: "worker_state \<Rightarrow> input_effect" where
  "input_decision s =
     decideWorkerInputEffect (inputQueue s) (sessionTainted s) (session_piAvailable s) (mayStartTurn s)"

definition skipped_tainted_diagnostic :: "worker_state \<Rightarrow> worker_output" where
  "skipped_tainted_diagnostic s =
     Diagnostic \<lparr>dg_level = LevelWarn, dg_code = ''input.skipped_session_tainted'',
       dg_message = ''Skipping queued inputs because the Pi session is tainted'',
       dg_turnRecordId = None, dg_turnId = None, dg_errorClass = None,
       dg_details = Some (JObj [(''skippedInputCount'', JNum (int (length (inputQueue s))))])\<rparr> None"

definition consume_ignored :: "worker_state \<Rightarrow> input_item list \<Rightarrow> worker_state" where
  "consume_ignored s items =
     s\<lparr>inputQueue := filter (\<lambda>item. in_inputId item \<notin> in_inputId ` set items) (inputQueue s),
       lastSequenceConsumed := fold max (map in_sequence items) (lastSequenceConsumed s)\<rparr>"

lemma decide_consume_ignored:
  assumes "decideWorkerInputEffect items tainted pi may = EffectConsumeIgnored ign"
  shows "\<exists>head rest. items = head # rest \<and> head \<in> set ign"
  using assms
  by (auto simp: decideWorkerInputEffect_def Let_def split: list.splits if_splits)

lemma consume_ignored_shrinks:
  assumes "input_decision s = EffectConsumeIgnored ign"
  shows "length (inputQueue (consume_ignored s ign)) < length (inputQueue s)"
proof -
  obtain head rest where q: "inputQueue s = head # rest" "head \<in> set ign"
    using decide_consume_ignored [OF assms [unfolded input_decision_def]] by blast
  have "inputQueue (consume_ignored s ign) =
      filter (\<lambda>item. in_inputId item \<notin> in_inputId ` set ign) rest"
    using q by (simp add: consume_ignored_def)
  then show ?thesis using q by (simp add: less_Suc_eq_le)
qed

lemma finishReadying_queue [simp]: "inputQueue (fst (finishReadying s)) = inputQueue s"
  by (simp add: finishReadying_def beginActivation_def armTimer_def
      split: worker_phase.split option.split)

function advance :: "worker_state \<Rightarrow> reduction throws" where
  "advance state =
     (let next = fst (finishReadying state); o1 = snd (finishReadying state) in
      if noActiveWork next then
        (case phase next of
           Draining reason exitAfter _ \<Rightarrow>
             throws_bind (begin_cleanup next reason exitAfter) (\<lambda>(s', outs). Inr (s', o1 @ outs))
         | _ \<Rightarrow> Inr (next, o1))
      else if \<not> may_take_inputs next then Inr (next, o1)
      else if waits_as_llm next then Inr (next, o1)
      else (case input_decision next of
          EffectBlocked \<Rightarrow> Inr (next, o1 @ [skipped_tainted_diagnostic next])
        | EffectConsumeIgnored items \<Rightarrow>
            throws_bind (advance (consume_ignored next items))
              (\<lambda>(s', outs). Inr (s', o1 @
                 map (\<lambda>item. inputConsumedFact (in_inputId item) (in_sequence item) ModeIgnored []) items @
                 outs))
        | EffectDeliver items \<Rightarrow>
            (let headSequence = in_sequence (hd items) in
             Inr (set_deliveryHead (Some headSequence) next,
                  o1 @ [Command (CmdDeliverInputs headSequence items (piTurnActive next))]))
        | EffectStartTurn items \<Rightarrow>
            (case (session next, phase next) of
               (Some ses, Active sid tid _) \<Rightarrow>
                 Inr (next\<lparr>phase := Active sid tid TurnExecuting\<rparr>,
                      o1 @ [Command (CmdExecuteTurn tid items ses)])
             | _ \<Rightarrow> Inr (next, o1))
        | EffectNone \<Rightarrow> Inr (next, o1)))"
  by pat_completeness auto
termination
  by (relation "measure (\<lambda>s. length (inputQueue s))")
    (auto dest: consume_ignored_shrinks)

declare advance.simps [simp del]

definition withReportedTransition ::
  "worker_state \<Rightarrow> worker_state \<Rightarrow> worker_event \<Rightarrow> worker_output list \<Rightarrow> reduction" where
  "withReportedTransition previous next event outs =
     (let from = deriveReportedWorkerState previous; to = deriveReportedWorkerState next in
      (next, outs @ (if from \<noteq> to \<and> phase next \<noteq> Exited
                     then [Protocol (WorkerStateChanged from to (event_kind event))] else [])))"

section \<open>Event handlers\<close>

text \<open>A handler that breaks out of the switch leaves the state and pushes nothing.\<close>

abbreviation unchanged :: "worker_state \<Rightarrow> reduction throws" where
  "unchanged s \<equiv> Inr (s, [])"

definition bootstrap_diagnostics :: "string list \<Rightarrow> worker_output list" where
  "bootstrap_diagnostics messages =
     map (\<lambda>m. Diagnostic \<lparr>dg_level = LevelWarn, dg_code = ''bootstrap.diagnostic'', dg_message = m,
       dg_turnRecordId = None, dg_turnId = None, dg_errorClass = None, dg_details = None\<rparr> None) messages"

definition credential_diagnostic :: "string \<Rightarrow> string \<Rightarrow> string option \<Rightarrow> worker_output" where
  "credential_diagnostic code message stderr =
     Diagnostic \<lparr>dg_level = LevelWarn, dg_code = code, dg_message = message,
       dg_turnRecordId = None, dg_turnId = None, dg_errorClass = None, dg_details = None\<rparr> stderr"

definition heartbeat_fact :: "worker_state \<Rightarrow> prepared_session \<Rightarrow> worker_output" where
  "heartbeat_fact s ses =
     Protocol (WorkerHeartbeat (deriveReportedWorkerState s) (lastSequenceConsumed s)
       (ses_selectedTurnId ses))"

definition connected_facts :: "worker_output list" where
  "connected_facts = [Protocol WorkerHello, Protocol (BootstrapProgress ''worker_connected'')]"

definition on_runtime_started :: "worker_state \<Rightarrow> reduction throws" where
  "on_runtime_started s =
     (if phase s \<noteq> Init then unchanged s
      else Inr (s\<lparr>phase := WaitingForStart\<rparr>, connected_facts))"

definition on_transport_connected :: "worker_state \<Rightarrow> reduction throws" where
  "on_transport_connected s =
     (let outs = connected_facts @
            (case session s of None \<Rightarrow> [] | Some ses \<Rightarrow> [heartbeat_fact s ses])
      in case publication (work s) of
           TerminalPendingAck terminal \<Rightarrow>
             (let (s', outs') = publishTerminalAndAwaitAcknowledgement s terminal
              in Inr (s', outs @ outs'))
         | _ \<Rightarrow> Inr (s, outs))"

definition draining_operation_of :: "worker_phase \<Rightarrow> draining_operation option" where
  "draining_operation_of p =
     (case p of
        Bootstrapping sid proposed \<Rightarrow> Some (DrainBootstrap sid proposed)
      | Activating sid tid \<Rightarrow> Some (DrainActivation sid tid)
      | Active sid tid st \<Rightarrow> if st = TurnExecuting then Some (DrainTurn tid) else None
      | _ \<Rightarrow> None)"

definition timer_names :: "timer_name list" where
  "timer_names = [Heartbeat, AcceptanceRetry, CredentialPoll, TerminalAck]"

definition on_stop_requested :: "string \<Rightarrow> bool \<Rightarrow> worker_state \<Rightarrow> reduction throws" where
  "on_stop_requested reason exitAfter s =
     (case phase s of
        Cleaning _ _ _ \<Rightarrow> unchanged s
      | Draining _ _ _ \<Rightarrow> unchanged s
      | p \<Rightarrow>
          Inr (s\<lparr>phase := Draining reason exitAfter (draining_operation_of p),
                 timers := (\<lambda>_. None), credential := None\<rparr>,
               map (\<lambda>name. Command (CmdCancelTimer name)) timer_names))"

definition on_session_tainted :: "string \<Rightarrow> worker_state \<Rightarrow> reduction throws" where
  "on_session_tainted reason s =
     (if sessionTainted s then unchanged s
      else Inr (s\<lparr>sessionTainted := True\<rparr>, [Extension (SessionTaintedFact reason)]))"

subsection \<open>Server messages\<close>

definition on_start :: "worker_start_payload \<Rightarrow> worker_state \<Rightarrow> reduction throws" where
  "on_start payload s =
     (if phase s \<noteq> WaitingForStart then unchanged s
      else Inr (s\<lparr>phase := Bootstrapping (sp_turnStartId payload) (sp_proposedTurnRecordId payload),
                  sessionTainted := False\<rparr>,
                [Protocol (BootstrapProgress ''preparing_workspace''),
                 Command (CmdBootstrap (sp_turnStartId payload) payload)]))"

definition fresh_inputs :: "worker_state \<Rightarrow> input_item list \<Rightarrow> input_item list" where
  "fresh_inputs s items = filter (\<lambda>item. lastSequenceConsumed s < in_sequence item) items"

definition on_input_batch :: "input_delivery list \<Rightarrow> worker_state \<Rightarrow> reduction throws" where
  "on_input_batch inputs s =
     (if phase s = WaitingForStart \<or> phase s = Init then unchanged s
      else Inr (s\<lparr>inputQueue := enqueueInputs (inputQueue s)
                    (fresh_inputs s (map inputDeliveryToItem inputs))\<rparr>, []))"

definition on_turn_start_accepted :: "string \<Rightarrow> string \<Rightarrow> worker_state \<Rightarrow> reduction throws" where
  "on_turn_start_accepted startRecordId turnRecordId s =
     (case phase s of
        Readying sid proposed acceptedId \<Rightarrow>
          if startRecordId = sid
          then Inr (s\<lparr>phase := Readying sid proposed (Some turnRecordId)\<rparr>, [])
          else unchanged s
      | WaitingForAcceptance sid proposed \<Rightarrow>
          if startRecordId = sid then Inr (beginActivation s startRecordId turnRecordId)
          else unchanged s
      | _ \<Rightarrow> unchanged s)"

definition on_turn_terminal_recorded :: "string \<Rightarrow> worker_state \<Rightarrow> reduction throws" where
  "on_turn_terminal_recorded turnRecordId s =
     (case publication (work s) of
        TerminalPendingAck terminal \<Rightarrow>
          if cor_turnRecordId (pt_correlation terminal) = turnRecordId
          then Inr ((set_publication PubNone s)\<lparr>timers := (timers s)(TerminalAck := None)\<rparr>,
                    [Command (CmdCancelTimer TerminalAck)])
          else unchanged s
      | _ \<Rightarrow> unchanged s)"

definition on_credential_update_accepted ::
  "string \<Rightarrow> bool \<Rightarrow> int option \<Rightarrow> string option \<Rightarrow> worker_state \<Rightarrow> reduction throws" where
  "on_credential_update_accepted providerId accepted currentRevision safeReason s =
     (case credential s of
        None \<Rightarrow> unchanged s
      | Some c \<Rightarrow>
          if \<not> cs_enabled c \<or> \<not> cs_updatePending c \<or> providerId \<noteq> cd_providerId (cs_descriptor c)
          then unchanged s
          else (case (accepted, currentRevision) of
              (True, Some revision) \<Rightarrow>
                Inr (s\<lparr>credential := Some (c\<lparr>cs_revision := revision,
                         cs_baselineFingerprint :=
                           (case cs_pendingFingerprint c of
                              Some f \<Rightarrow> Some f | None \<Rightarrow> cs_baselineFingerprint c),
                         cs_pendingFingerprint := None, cs_updatePending := False,
                         cs_sampling := True\<rparr>)\<rparr>,
                     [Command (CmdSampleCredentials (cs_descriptor c) False)])
            | _ \<Rightarrow>
                Inr (s\<lparr>credential := Some (c\<lparr>cs_enabled := False, cs_updatePending := False,
                         cs_pendingFingerprint := None\<rparr>)\<rparr>,
                     [credential_diagnostic ''credential.refresh_rejected''
                        (coalesce safeReason ''Credential refresh was rejected'') safeReason])))"

fun on_server_message :: "server_message \<Rightarrow> worker_state \<Rightarrow> reduction throws" where
  "on_server_message (MsgStart payload) s = on_start payload s"
| "on_server_message (MsgTurnStartAccepted sid tid) s = on_turn_start_accepted sid tid s"
| "on_server_message (MsgTurnTerminalRecorded tid) s = on_turn_terminal_recorded tid s"
| "on_server_message (MsgCredentialUpdateAccepted pid acc revision reason) s =
     on_credential_update_accepted pid acc revision reason s"
| "on_server_message (MsgInputBatch inputs) s = on_input_batch inputs s"
| "on_server_message (MsgStop reason) s = on_stop_requested reason True s"
| "on_server_message (MsgAbortTurn reason) s = unchanged s"
| "on_server_message MsgOther s = unchanged s"

subsection \<open>Bootstrap and activation\<close>

definition initial_credential :: "credential_descriptor \<Rightarrow> credential_state" where
  "initial_credential d =
     \<lparr>cs_descriptor = d, cs_baselineFingerprint = None, cs_pendingFingerprint = None,
      cs_revision = cd_revision d, cs_sampling = True, cs_updatePending = False, cs_enabled = True\<rparr>"

definition on_bootstrap_succeeded ::
  "string \<Rightarrow> bootstrap_completion \<Rightarrow> worker_state \<Rightarrow> reduction throws" where
  "on_bootstrap_succeeded startRecordId completion s =
     (if \<not> matchesBootstrap s startRecordId then unchanged s
      else
        let ses = bc_session completion;
            next = s\<lparr>phase := (case phase s of
                       Draining r x _ \<Rightarrow> Draining r x None
                     | _ \<Rightarrow> Readying startRecordId (ses_proposedTurnRecordId ses)
                              (ses_acceptedTurnRecordId ses)),
                     session := Some ses,
                     inputQueue := enqueueInputs (inputQueue s)
                       (fresh_inputs s (bc_pendingInputs completion)),
                     credential := (if isDraining s then None
                       else map_option initial_credential (bc_credentialRefresh completion))\<rparr>;
            outs = bootstrap_diagnostics (bc_diagnostics completion) @
              [Protocol (BootstrapProgress ''loading_resources''),
               Protocol (BootstrapProgress ''preparing_turn''),
               Protocol (WorkerReady (bc_readyPayload completion))]
        in if isDraining s then Inr (next, outs)
           else throws_bind
             (case resolveWorkerSnapshotPolicy AfterWorkerReady (ses_kind ses) (ses_piAvailable ses) of
                Upload _ _ \<Rightarrow> beginSnapshot next ReadySnapshot (sessionSnapshotSource ses)
              | NoUpload \<Rightarrow> Inr (next, []))
             (\<lambda>(s1, o1).
                let (s2, o2) = armTimer s1 Heartbeat (ses_heartbeatIntervalMs ses) startRecordId
                in Inr (s2, outs @ o1 @ o2 @
                     (case bc_credentialRefresh completion of
                        None \<Rightarrow> [] | Some d \<Rightarrow> [Command (CmdSampleCredentials d True)]))))"

definition on_bootstrap_failed ::
  "string \<Rightarrow> js_thrown \<Rightarrow> worker_start_payload \<Rightarrow> worker_state \<Rightarrow> reduction throws" where
  "on_bootstrap_failed startRecordId err payload s =
     (if \<not> matchesBootstrap s startRecordId then unchanged s
      else if isDraining s then Inr (finishDrainingOperation s, [])
      else failureOutputs s (BootstrapFailure err payload))"

definition activated_session :: "prepared_session \<Rightarrow> prepared_session" where
  "activated_session ses =
     (if ses_kind ses = LlmSession
      then ses\<lparr>ses_piAvailable := True,
               ses_activeModelProfileId :=
                 ps_selectedTurnModelProfileId (ses_processSnapshot ses)\<rparr>
      else ses)"

definition on_activation_succeeded ::
  "string \<Rightarrow> string \<Rightarrow> string list \<Rightarrow> worker_state \<Rightarrow> reduction throws" where
  "on_activation_succeeded startRecordId turnRecordId diagnostics s =
     (if \<not> matchesActivation s startRecordId turnRecordId then unchanged s
      else Inr (s\<lparr>phase := (case phase s of
                      Draining r x _ \<Rightarrow> Draining r x None
                    | _ \<Rightarrow> Active startRecordId turnRecordId TurnPending),
                  session := map_option activated_session (session s)\<rparr>,
                bootstrap_diagnostics diagnostics @
                (case session s of
                   Some ses \<Rightarrow>
                     if ses_kind ses = LlmSession \<and> \<not> isDraining s
                     then [Extension (HandleReady (ses_treeFile ses) (ses_workspaceRoot ses))] else []
                 | None \<Rightarrow> [])))"

text \<open>The branch that \<open>activation_failed\<close> and \<open>turn_defect\<close> share.\<close>

definition busy_failure :: "js_thrown \<Rightarrow> worker_state \<Rightarrow> reduction throws" where
  "busy_failure err s =
     (if isDraining s then Inr (finishDrainingOperation s, [])
      else failureOutputs s (DispatchFailure err NameBusy (failureContext s)))"

definition on_activation_failed :: "string \<Rightarrow> string \<Rightarrow> js_thrown \<Rightarrow> worker_state \<Rightarrow> reduction throws" where
  "on_activation_failed startRecordId turnRecordId err s =
     (if \<not> matchesActivation s startRecordId turnRecordId then unchanged s else busy_failure err s)"

definition on_turn_defect :: "string \<Rightarrow> js_thrown \<Rightarrow> worker_state \<Rightarrow> reduction throws" where
  "on_turn_defect turnRecordId err s =
     (if \<not> matchesTurn s turnRecordId then unchanged s else busy_failure err s)"

subsection \<open>Input delivery\<close>

definition on_inputs_delivered ::
  "int \<Rightarrow> delivered_input list \<Rightarrow> json_fields option \<Rightarrow> worker_state \<Rightarrow> reduction throws" where
  "on_inputs_delivered headSequence delivered meta s =
     (if deliveryHeadSequence (work s) \<noteq> Some headSequence \<or>
         map_option in_sequence (case inputQueue s of [] \<Rightarrow> None | i # _ \<Rightarrow> Some i) \<noteq> Some headSequence
      then unchanged s
      else Inr ((set_deliveryHead None s)\<lparr>
                  inputQueue := filter (\<lambda>item. in_inputId item \<notin> di_inputId ` set delivered) (inputQueue s),
                  lastSequenceConsumed := fold max (map di_sequence delivered) (lastSequenceConsumed s)\<rparr>,
                map (\<lambda>d. inputConsumedFact (di_inputId d) (di_sequence d) (di_deliveryMode d)
                           (coalesce meta [])) delivered))"

definition on_input_delivery_failed :: "int \<Rightarrow> js_thrown \<Rightarrow> worker_state \<Rightarrow> reduction throws" where
  "on_input_delivery_failed headSequence err s =
     (if deliveryHeadSequence (work s) \<noteq> Some headSequence then unchanged s
      else if isDraining s then Inr (set_deliveryHead None s, [])
      else failureOutputs (set_deliveryHead None s)
             (DispatchFailure err (currentStateName s) (failureContext s)))"

subsection \<open>Turn completion\<close>

definition failure_correlation :: "turn_execution_failure \<Rightarrow> turn_failure_correlation" where
  "failure_correlation xf =
     \<lparr>cor_turnRecordId = xf_turnRecordId xf, cor_turnId = xf_turnId xf,
      cor_turnType = Some (xf_turnType xf), cor_pathType = Some (xf_pathType xf),
      cor_forkPiEntryId = xf_forkPiEntryId xf, cor_resultPiEntryId = xf_resultPiEntryId xf\<rparr>"

definition outcome_terminal :: "string \<Rightarrow> string \<Rightarrow> json \<Rightarrow> turn_execution_meta \<Rightarrow> pending_terminal" where
  "outcome_terminal turnId outcome params m =
     \<lparr>pt_fact = OutcomeFact \<lparr>to_turnRecordId = tm_turnRecordId m, to_turnId = turnId,
        to_turnType = coalesce (tm_turnType m) LlmTurn, to_outcome = outcome, to_params = params,
        to_pathType = tm_pathType m, to_forkPiEntryId = tm_forkPiEntryId m,
        to_resultPiEntryId = tm_resultPiEntryId m, to_turnResultMarkdown = tm_turnResultMarkdown m,
        to_resultSummary = tm_resultSummary m, to_rootEntryId = tm_rootEntryId m\<rparr>,
      pt_park = None,
      pt_correlation = \<lparr>cor_turnRecordId = tm_turnRecordId m, cor_turnId = turnId,
        cor_turnType = tm_turnType m, cor_pathType = Some (tm_pathType m),
        cor_forkPiEntryId = tm_forkPiEntryId m, cor_resultPiEntryId = tm_resultPiEntryId m\<rparr>\<rparr>"

definition failed_terminal :: "worker_state \<Rightarrow> turn_execution_failure \<Rightarrow> pending_terminal throws" where
  "failed_terminal s xf =
     (case dp_terminal (normalizeWorkerFailure
             (TurnFailure (xf_failure xf) (failure_correlation xf) (failureContext s))) of
        TerminalTurnFailed payload park \<Rightarrow>
          Inr \<lparr>pt_fact = FailedFact payload, pt_park = Some park,
               pt_correlation = failure_correlation xf\<rparr>
      | _ \<Rightarrow> Inl ''Turn failure policy did not produce a turn failure'')"

definition mark_turn_completed :: "worker_state \<Rightarrow> worker_state \<Rightarrow> worker_state" where
  "mark_turn_completed s next =
     next\<lparr>phase := (case phase s of Active sid tid _ \<Rightarrow> Active sid tid TurnCompleted | _ \<Rightarrow> phase next)\<rparr>"

definition publish_result ::
  "worker_state \<Rightarrow> worker_state \<Rightarrow> string \<Rightarrow> snapshot_point \<Rightarrow> pending_terminal \<Rightarrow> reduction throws" where
  "publish_result s next turnRecordId point pending =
     (case session s of
        None \<Rightarrow> Inr (next, [])
      | Some ses \<Rightarrow>
          if ses_kind ses = AutomaticSession
          then Inr (publishTerminalAndAwaitAcknowledgement next pending)
          else (case resolveWorkerSnapshotPolicy point (ses_kind ses) (ses_piAvailable ses) of
              NoUpload \<Rightarrow> Inl ''LLM terminal snapshot policy unexpectedly skipped upload''
            | Upload _ _ \<Rightarrow>
                beginSnapshot next (TerminalSnapshot point turnRecordId pending)
                  (sessionSnapshotSource ses)))"

definition on_turn_completed :: "string \<Rightarrow> turn_execution_result \<Rightarrow> worker_state \<Rightarrow> reduction throws" where
  "on_turn_completed turnRecordId result s =
     (if \<not> matchesTurn s turnRecordId then unchanged s
      else
        let (next, outs) = removeAppliedTargeted (finishDrainingOperation s) (appliedTargetedInputs result);
            next = mark_turn_completed s next
        in case result of
             ResultParked reason _ \<Rightarrow>
               Inr (next, outs @ [Protocol (LifecycleParked
                 \<lparr>pk_selectedTurnId = map_option ses_selectedTurnId (session s),
                  pk_reason = reason, pk_errorClass = None\<rparr>)])
           | ResultOutcome turnId outcome params m _ \<Rightarrow>
               throws_bind (publish_result s next turnRecordId BeforeTurnOutcome
                              (outcome_terminal turnId outcome params m))
                 (\<lambda>(s', outs'). Inr (s', outs @ outs'))
           | ResultFailed xf _ \<Rightarrow>
               throws_bind (failed_terminal s xf)
                 (\<lambda>pending. throws_bind (publish_result s next turnRecordId BeforeTurnFailed pending)
                    (\<lambda>(s', outs'). Inr (s', outs @ outs'))))"

subsection \<open>Snapshot completion\<close>

definition snapshotMatches :: "publication_state \<Rightarrow> snapshot_point \<Rightarrow> string option \<Rightarrow> bool" where
  "snapshotMatches pub point turn =
     (case publication_snapshot pub of
        None \<Rightarrow> False | Some (point', turn', _) \<Rightarrow> point' = point \<and> turn' = turn)"

text \<open>The error argument is \<open>None\<close> for \<open>snapshot_succeeded\<close> and the error of \<open>snapshot_failed\<close>.\<close>

definition on_snapshot_completed ::
  "snapshot_point \<Rightarrow> string option \<Rightarrow> js_thrown option \<Rightarrow> worker_state \<Rightarrow> reduction throws" where
  "on_snapshot_completed point turn err s =
     (if \<not> snapshotMatches (publication (work s)) point turn then unchanged s
      else case publication (work s) of
        ReadySnapshot \<Rightarrow> Inr (set_publication PubNone s, [])
      | TerminalSnapshot _ _ terminal \<Rightarrow>
          (case err of
             None \<Rightarrow> Inr (publishTerminalAndAwaitAcknowledgement s terminal)
           | Some e \<Rightarrow>
               failureOutputs (set_publication PubNone s)
                 (MandatorySnapshotFailure e point (pt_correlation terminal) (failureContext s)))
      | CleanupSnapshot \<Rightarrow>
          (case phase s of
             Cleaning r x StagePublication \<Rightarrow>
               (case err of
                  None \<Rightarrow> Inr ((set_publication PubNone s)\<lparr>phase := Cleaning r x StageResources\<rparr>,
                               [Command CmdCleanup])
                | Some e \<Rightarrow> failureOutputs (set_publication PubNone s)
                              (CleanupFailure e (failureContext s)))
           | _ \<Rightarrow> Inl (if err = None then ''Cleanup snapshot completed outside cleanup publication''
                       else ''Cleanup snapshot failed outside cleanup publication''))
      | FatalSnapshot fatal AfterExit \<Rightarrow> Inr (finishFatal s fatal)
      | FatalSnapshot fatal AfterCleanup \<Rightarrow>
          (case phase s of
             Cleaning r x StagePublication \<Rightarrow>
               Inr ((set_publication (FatalPendingCleanup fatal) s)\<lparr>phase := Cleaning r x StageResources\<rparr>,
                    [Command CmdCleanup])
           | _ \<Rightarrow> Inl (if err = None then ''Fatal snapshot completed outside cleanup publication''
                       else ''Fatal snapshot failed outside cleanup publication''))
      | _ \<Rightarrow> unchanged s)"

subsection \<open>Timers and credentials\<close>

definition on_timer_fired :: "timer_name \<Rightarrow> string \<Rightarrow> worker_state \<Rightarrow> reduction throws" where
  "on_timer_fired name cor s =
     (if timers s name \<noteq> Some cor then unchanged s
      else
        let next = s\<lparr>timers := (timers s)(name := None)\<rparr> in
        case name of
          Heartbeat \<Rightarrow>
            (case session s of
               None \<Rightarrow> Inr (next, [])
             | Some ses \<Rightarrow>
                 (let (s', outs) = armTimer next Heartbeat (ses_heartbeatIntervalMs ses) cor
                  in Inr (s', heartbeat_fact s ses # outs)))
        | AcceptanceRetry \<Rightarrow>
            (case phase s of
               WaitingForAcceptance sid proposed \<Rightarrow>
                 (let (s', outs) = armTimer next AcceptanceRetry 1000 cor
                  in Inr (s', Protocol (TurnStarted sid proposed) # outs))
             | _ \<Rightarrow> Inr (next, []))
        | TerminalAck \<Rightarrow>
            (case publication (work s) of
               TerminalPendingAck terminal \<Rightarrow>
                 if cor_turnRecordId (pt_correlation terminal) = cor
                 then Inr (publishTerminalAndAwaitAcknowledgement next terminal)
                 else Inr (next, [])
             | _ \<Rightarrow> Inr (next, []))
        | CredentialPoll \<Rightarrow>
            (case credential s of
               Some c \<Rightarrow>
                 if cs_enabled c \<and> \<not> cs_sampling c \<and> \<not> cs_updatePending c
                 then Inr (next\<lparr>credential := Some (c\<lparr>cs_sampling := True\<rparr>)\<rparr>,
                           [Command (CmdSampleCredentials (cs_descriptor c) False)])
                 else Inr (next, [])
             | None \<Rightarrow> Inr (next, [])))"

definition on_credential_sampled ::
  "string \<Rightarrow> (string \<times> string) list \<Rightarrow> string \<Rightarrow> worker_state \<Rightarrow> reduction throws" where
  "on_credential_sampled providerId values fingerprint s =
     (case credential s of
        None \<Rightarrow> unchanged s
      | Some c \<Rightarrow>
          if \<not> cs_sampling c \<or> cd_providerId (cs_descriptor c) \<noteq> providerId then unchanged s
          else if cs_baselineFingerprint c = None \<or> cs_baselineFingerprint c = Some fingerprint
          then Inr (armTimer (s\<lparr>credential := Some (c\<lparr>cs_baselineFingerprint :=
                        Some (coalesce (cs_baselineFingerprint c) fingerprint), cs_sampling := False\<rparr>)\<rparr>)
                      CredentialPoll 500 providerId)
          else Inr (s\<lparr>credential := Some (c\<lparr>cs_sampling := False, cs_updatePending := True,
                        cs_pendingFingerprint := Some fingerprint\<rparr>)\<rparr>,
                    [Protocol (CredentialUpdate providerId (cs_revision c) values)]))"

fun thrown_message :: "js_thrown \<Rightarrow> string" where
  "thrown_message (ThrownPrim t) = t"
| "thrown_message (ThrownObj _ p _ _) =
     (if ep_isError p then coalesce (ep_message p) [] else ep_rendered p)"

definition on_credential_sample_failed :: "string \<Rightarrow> js_thrown \<Rightarrow> worker_state \<Rightarrow> reduction throws" where
  "on_credential_sample_failed providerId err s =
     (case credential s of
        None \<Rightarrow> unchanged s
      | Some c \<Rightarrow>
          if \<not> cs_sampling c \<or> cd_providerId (cs_descriptor c) \<noteq> providerId then unchanged s
          else (let (s', outs) = armTimer (s\<lparr>credential := Some (c\<lparr>cs_sampling := False\<rparr>)\<rparr>)
                        CredentialPoll 500 providerId
                in Inr (s', credential_diagnostic ''credential.refresh_failed'' (thrown_message err) None
                              # outs)))"

subsection \<open>Cleanup and defects\<close>

definition on_cleanup_succeeded :: "worker_state \<Rightarrow> reduction throws" where
  "on_cleanup_succeeded s =
     (case phase s of
        Cleaning r exitAfter StageResources \<Rightarrow>
          (case publication (work s) of
             FatalPendingCleanup fatal \<Rightarrow> Inr (finishFatal s fatal)
           | _ \<Rightarrow>
               Inr (s\<lparr>phase := Exited, session := None, inputQueue := []\<rparr>,
                    [Protocol (CleanupCompleted [] []), Command CmdCloseTransport] @
                    (if exitAfter then [Command (CmdExit 0)] else [])))
      | _ \<Rightarrow> unchanged s)"

definition on_cleanup_failed :: "js_thrown \<Rightarrow> worker_state \<Rightarrow> reduction throws" where
  "on_cleanup_failed err s =
     (case phase s of
        Cleaning _ _ StageResources \<Rightarrow> failureOutputs s (CleanupFailure err (failureContext s))
      | _ \<Rightarrow> unchanged s)"

definition on_invariant_failed :: "js_thrown \<Rightarrow> worker_state \<Rightarrow> reduction throws" where
  "on_invariant_failed err s =
     failureOutputs s (DispatchFailure err (currentStateName s) (failureContext s))"

section \<open>The reducer\<close>

fun handle_event :: "worker_event \<Rightarrow> worker_state \<Rightarrow> reduction throws" where
  "handle_event RuntimeStarted s = on_runtime_started s"
| "handle_event TransportConnected s = on_transport_connected s"
| "handle_event (TransportFailed e) s = failureOutputs s (TransportFailure e)"
| "handle_event (ServerMessage m) s = on_server_message m s"
| "handle_event (StopRequested reason x) s = on_stop_requested reason x s"
| "handle_event OperatorAbortObserved s = unchanged s"
| "handle_event PiTurnStarted s = Inr (s\<lparr>piTurnActive := True\<rparr>, [])"
| "handle_event PiTurnEnded s = Inr (s\<lparr>piTurnActive := False\<rparr>, [])"
| "handle_event (SessionTaintedEvent reason) s = on_session_tainted reason s"
| "handle_event (TimerFired name cor) s = on_timer_fired name cor s"
| "handle_event (BootstrapSucceeded sid c) s = on_bootstrap_succeeded sid c s"
| "handle_event (BootstrapFailed sid e p) s = on_bootstrap_failed sid e p s"
| "handle_event (ActivationSucceeded sid tid ds) s = on_activation_succeeded sid tid ds s"
| "handle_event (ActivationFailed sid tid e) s = on_activation_failed sid tid e s"
| "handle_event (InputsDelivered h ds meta) s = on_inputs_delivered h ds meta s"
| "handle_event (InputDeliveryFailed h e) s = on_input_delivery_failed h e s"
| "handle_event (TurnCompletedEvent tid r) s = on_turn_completed tid r s"
| "handle_event (TurnDefect tid e) s = on_turn_defect tid e s"
| "handle_event (SnapshotSucceeded point turn) s = on_snapshot_completed point turn None s"
| "handle_event (SnapshotFailed point turn e) s = on_snapshot_completed point turn (Some e) s"
| "handle_event (CredentialSampled pid vs f) s = on_credential_sampled pid vs f s"
| "handle_event (CredentialSampleFailed pid e) s = on_credential_sample_failed pid e s"
| "handle_event CleanupSucceeded s = on_cleanup_succeeded s"
| "handle_event (CleanupFailed e) s = on_cleanup_failed e s"
| "handle_event (InvariantFailed e) s = on_invariant_failed e s"

text \<open>
  A \<open>worker.stop\<close> message re-enters the reducer as the event \<open>stop_requested\<close>, whose kind is what
  a resulting \<open>worker.state\<close> fact reports.
\<close>

fun effective_event :: "worker_event \<Rightarrow> worker_event" where
  "effective_event (ServerMessage (MsgStop reason)) = StopRequested reason True"
| "effective_event e = e"

definition reduceWorkerRuntime :: "worker_state \<Rightarrow> worker_event \<Rightarrow> reduction throws" where
  "reduceWorkerRuntime state event =
     (if phase state = Exited \<and> event \<noteq> RuntimeStarted then Inr (state, [])
      else throws_bind (handle_event (effective_event event) state)
        (\<lambda>(next, outs). throws_bind (advance next)
           (\<lambda>(next', outs').
              Inr (withReportedTransition state next' (effective_event event) (outs @ outs')))))"

end
