(* ===== verification/Worker_Trace.thy ===== *)
theory Worker_Trace
  imports Worker_Lifecycle
begin

text \<open>
  Runs of the worker runtime. \<open>run_from\<close> reduces a list of events and collects the outputs in the
  order they are dispatched; the locale \<open>trace_invariant\<close> is the contract of a property of a
  state and of everything that was output before it: it asks for each step of the reducer that
  the step keeps the property, and gives it for whole reductions and whole runs.
\<close>

section \<open>Runs\<close>

fun run_from :: "worker_state \<Rightarrow> worker_output list \<Rightarrow> worker_event list \<Rightarrow> reduction throws" where
  "run_from s h [] = Inr (s, h)"
| "run_from s h (e # es) =
     throws_bind (reduceWorkerRuntime s e) (\<lambda>(s', outs). run_from s' (h @ outs) es)"

abbreviation run :: "worker_event list \<Rightarrow> reduction throws" where
  "run es \<equiv> run_from createInitialWorkerRuntimeState [] es"

text \<open>The events of a run, each admitted in the state in which it is reduced.\<close>

fun admitted :: "(worker_event \<Rightarrow> worker_state \<Rightarrow> bool) \<Rightarrow> worker_state \<Rightarrow> worker_event list \<Rightarrow> bool" where
  "admitted ok s [] = True"
| "admitted ok s (e # es) =
     (ok e s \<and> (case reduceWorkerRuntime s e of Inr (s', _) \<Rightarrow> admitted ok s' es | Inl _ \<Rightarrow> True))"

lemma admitted_always [simp]: "admitted (\<lambda>_ _. True) s es"
  by (induction es arbitrary: s) (auto split: sum.splits)

subsection \<open>A sample run\<close>

text \<open>
  The whole life of an automatic worker with one targeted and one ordinary input: start, bootstrap,
  acceptance, activation, turn, acknowledgement, stop, cleanup.
\<close>

definition sample_start :: worker_start_payload where
  "sample_start = \<lparr>sp_turnStartId = ''start'', sp_proposedTurnRecordId = ''rec'',
     sp_bootstrap = AutomaticBootstrap, sp_primaryTreeFile = ''tree'', sp_selectedTurnId = Some ''turn'',
     sp_repositoryCredentials = [], sp_dockerRegistryCredentials = [], sp_rest = JObj []\<rparr>"

definition sample_session :: prepared_session where
  "sample_session = \<lparr>ses_kind = AutomaticSession, ses_piAvailable = False,
     ses_activeModelProfileId = None,
     ses_processSnapshot = \<lparr>ps_lifecycleStatus = ActiveProcess, ps_selectedTurnModelProfileId = None,
       ps_rest = JObj []\<rparr>,
     ses_selectedTurnId = ''turn'', ses_startRecordId = ''start'', ses_proposedTurnRecordId = ''rec'',
     ses_acceptedTurnRecordId = None, ses_treeFile = ''tree'', ses_workspaceRoot = ''ws'',
     ses_heartbeatIntervalMs = 1000, ses_rest = JObj []\<rparr>"

definition sample_input :: "string \<Rightarrow> int \<Rightarrow> input_target option \<Rightarrow> input_item" where
  "sample_input i q t = \<lparr>in_inputId = i, in_sequence = q, in_source = ''user'', in_kind = ''text'',
     in_target = t, in_bodyMarkdown = ''hello''\<rparr>"

definition sample_completion :: bootstrap_completion where
  "sample_completion = \<lparr>bc_session = sample_session,
     bc_pendingInputs = [sample_input ''b'' 2 (Some (TargetProduct ''spec'')), sample_input ''a'' 1 None],
     bc_readyPayload = JObj [], bc_credentialRefresh = None, bc_diagnostics = []\<rparr>"

definition sample_meta :: turn_execution_meta where
  "sample_meta = \<lparr>tm_turnRecordId = ''rec'', tm_turnType = Some AutomaticTurn, tm_pathType = PrimaryPath,
     tm_forkPiEntryId = None, tm_resultPiEntryId = None, tm_turnResultMarkdown = None,
     tm_resultSummary = None, tm_rootEntryId = None\<rparr>"

definition sample_result :: turn_execution_result where
  "sample_result = ResultOutcome ''turn'' ''done'' (JObj []) sample_meta
     [\<lparr>at_inputId = ''b'', at_sequence = 2, at_meta = None\<rparr>]"

definition sample_turn :: "worker_event list" where
  "sample_turn =
     [RuntimeStarted, ServerMessage (MsgStart sample_start),
      BootstrapSucceeded ''start'' sample_completion,
      ServerMessage (MsgTurnStartAccepted ''start'' ''rec''),
      ActivationSucceeded ''start'' ''rec'' [],
      TurnCompletedEvent ''rec'' sample_result]"

definition sample_run :: "worker_event list" where
  "sample_run = sample_turn @
     [ServerMessage (MsgTurnTerminalRecorded ''rec''), ServerMessage (MsgStop ''done''), CleanupSucceeded]"

section \<open>What the helpers return\<close>

lemma run_from_append:
  "run_from s h (es @ es') = throws_bind (run_from s h es) (\<lambda>(s', h'). run_from s' h' es')"
  by (induction es arbitrary: s h) (auto simp: throws_bind_def split: sum.splits)

lemma advance_exited [simp]: "phase s = Exited \<Longrightarrow> advance s = Inr (s, [])"
  by (subst advance.simps)
    (simp add: finishReadying_def noActiveWork_def may_take_inputs_def)

lemma noActiveWork_draining: "noActiveWork s \<Longrightarrow> \<exists>r x. phase s = Draining r x None"
  by (auto simp: noActiveWork_def split: worker_phase.splits option.splits)

lemma mayStartTurn_pending: "mayStartTurn s \<Longrightarrow> \<exists>sid tid. phase s = Active sid tid TurnPending"
  by (simp add: mayStartTurn_def split: worker_phase.splits)

lemma finishReadying_idle: "(\<nexists>a b c. phase s = Readying a b c) \<Longrightarrow> finishReadying s = (s, [])"
  by (auto simp: finishReadying_def split: worker_phase.split)

fun ends_turn :: "worker_failure \<Rightarrow> bool" where
  "ends_turn (TurnFailure _ _ _) = True"
| "ends_turn (MandatorySnapshotFailure _ _ _ _) = True"
| "ends_turn _ = False"

lemma turn_failed_only_if_ends_turn:
  "dp_terminal (normalizeWorkerFailure f) = TerminalTurnFailed p q \<Longrightarrow> ends_turn f"
  by (cases f) (auto simp: Let_def worker_failed_disposition_def split: option.splits if_splits)

text \<open>
  A failure leaves the state alone, starts the snapshot that precedes a fatal report, or exits.
\<close>

lemma failureOutputs_cases:
  obtains (same) outs where "failureOutputs s f = Inr (s, outs)"
      "\<And>c. Command c \<notin> set outs"
      "\<And>p. Protocol p \<in> set outs \<Longrightarrow>
         (\<exists>q. p = LifecycleParked q) \<or> (\<exists>q. p = TurnFailed q \<and> ends_turn f)"
      "\<And>p q. Protocol (TurnFailed p) \<in> set outs \<Longrightarrow> Protocol (TurnFailed q) \<in> set outs \<Longrightarrow> p = q"
  | (snapshot) outs fatal after src where
      "failureOutputs s f = Inr (set_publication (FatalSnapshot fatal after) s,
         outs @ [Command (CmdUploadSnapshot BeforeWorkerFailed None False src)])"
      "publication (work s) = PubNone" "\<And>c. Command c \<notin> set outs" "\<And>p. Protocol p \<notin> set outs"
      "after = AfterCleanup \<longleftrightarrow> (\<exists>r x. phase s = Cleaning r x StagePublication)"
  | (exits) outs outs' where
      "failureOutputs s f = Inr ((set_publication PubNone s)\<lparr>phase := Exited\<rparr>, outs @ Command CmdCloseTransport # outs')"
      "\<And>c. Command c \<notin> set outs" "outs' = [] \<or> (\<exists>code. outs' = [Command (CmdExit code)])"
      "\<And>p. Protocol p \<in> set outs \<Longrightarrow> \<exists>q. p = WorkerFailed q"
proof -
  define d where "d = normalizeWorkerFailure f"
  define reports where "reports = (case dp_diagnostic d of None \<Rightarrow> [] | Some g \<Rightarrow> [Diagnostic g None]) @
      (if dp_stderrMessage d \<noteq> [] then [Stderr (dp_stderrMessage d)] else [])"
  have quiet: "Command c \<notin> set reports" "Protocol p \<notin> set reports" for c p
    by (auto simp: reports_def split: option.splits)
  note unfold = failureOutputs_def Let_def d_def [symmetric] reports_def [symmetric]
  show thesis
  proof (cases "dp_terminal d")
    case (TerminalTurnFailed p q)
    show thesis
      by (rule same [of "reports @ [Protocol (TurnFailed p), Protocol (LifecycleParked q)]"])
        (use TerminalTurnFailed turn_failed_only_if_ends_turn in \<open>auto simp: unfold quiet\<close>)
  next
    case (TerminalPark p)
    show thesis
      by (rule same [of "reports @ [Protocol (LifecycleParked p)]"])
        (auto simp: unfold TerminalPark quiet)
  next
    case TerminalTransportLost
    show thesis
      by (rule exits [of reports "[Command (CmdExit (coalesce (dp_exitCode d) 1))]"])
        (auto simp: unfold TerminalTransportLost quiet)
  next
    case (TerminalWorkerFailed p)
    define fatal where "fatal = \<lparr>pf_payload = p, pf_exitCode = dp_exitCode d\<rparr>"
    define after where "after =
      (case phase s of Cleaning _ _ StagePublication \<Rightarrow> AfterCleanup | _ \<Rightarrow> AfterExit)"
    have after: "after = AfterCleanup \<longleftrightarrow> (\<exists>r x. phase s = Cleaning r x StagePublication)"
      by (auto simp: after_def split: worker_phase.split cleaning_stage.split)
    show thesis
    proof (cases "dp_snapshot d \<noteq> None \<and> \<not> hasActivePublication s")
      case True
      then obtain src where "dp_snapshot d = Some src" by auto
      with True have "failureOutputs s f = Inr (set_publication (FatalSnapshot fatal after) s,
          reports @ [Command (CmdUploadSnapshot BeforeWorkerFailed None False src)])"
        by (simp add: unfold TerminalWorkerFailed fatal_def [symmetric] beginSnapshot_def
            after_def [symmetric])
      then show thesis
        by (rule snapshot) (use True quiet after in \<open>simp_all add: hasActivePublication_def\<close>)
    next
      case False
      let ?exit = "case dp_exitCode d of None \<Rightarrow> [] | Some code \<Rightarrow> [Command (CmdExit code)]"
      from False have "failureOutputs s f = Inr ((set_publication PubNone s)\<lparr>phase := Exited\<rparr>,
          (reports @ [Protocol (WorkerFailed p)]) @ Command CmdCloseTransport # ?exit)"
        by (cases "dp_snapshot d") (simp_all add: unfold TerminalWorkerFailed finishFatal_def)
      then show thesis
        by (rule exits) (auto simp: quiet split: option.splits)
    qed
  qed
qed

lemma failureOutputs_total: "\<exists>r. failureOutputs s f = Inr r"
  by (rule failureOutputs_cases [of s f]) auto

section \<open>The contract of a trace invariant\<close>

definition ignored_facts :: "input_item list \<Rightarrow> worker_output list" where
  "ignored_facts items =
     map (\<lambda>item. inputConsumedFact (in_inputId item) (in_sequence item) ModeIgnored []) items"

lemma start_effect_pending:
  assumes "input_decision s = EffectStartTurn items"
  shows "mayStartTurn s"
  using assms by (auto simp: input_decision_def decideWorkerInputEffect_def Let_def
      split: list.splits if_splits)

locale advance_invariant =
  fixes J :: "worker_state \<Rightarrow> worker_output list \<Rightarrow> bool"
  assumes J_ready: "J s h \<Longrightarrow> finishReadying s = (s', outs) \<Longrightarrow> J s' (h @ outs)"
    and J_cleanup: "J s h \<Longrightarrow> phase s = Draining r x None \<Longrightarrow> publication (work s) = PubNone \<Longrightarrow>
      begin_cleanup s r x = Inr (s', outs) \<Longrightarrow> J s' (h @ outs)"
    and J_ignore: "J s h \<Longrightarrow> input_decision s = EffectConsumeIgnored items \<Longrightarrow>
      J (consume_ignored s items) (h @ ignored_facts items)"
    and J_deliver: "J s h \<Longrightarrow> may_take_inputs s \<Longrightarrow> input_decision s = EffectDeliver items \<Longrightarrow>
      J (set_deliveryHead (Some sq) s) (h @ [Command (CmdDeliverInputs sq items b)])"
    and J_start: "J s h \<Longrightarrow> may_take_inputs s \<Longrightarrow> phase s = Active sid tid TurnPending \<Longrightarrow>
      session s = Some ses \<Longrightarrow>
      J (s\<lparr>phase := Active sid tid TurnExecuting\<rparr>) (h @ [Command (CmdExecuteTurn tid items ses)])"
    and J_diagnostic: "J s h \<Longrightarrow> J s (h @ [Diagnostic d m])"
begin

lemma advance_keeps:
  assumes "J s h" and "advance s = Inr (s', outs)"
  shows "J s' (h @ outs)"
  using assms
proof (induction s arbitrary: h s' outs rule: advance.induct)
  case (1 s)
  obtain n o1 where fr: "finishReadying s = (n, o1)" by fastforce
  have Jn: "J n (h @ o1)" using J_ready 1(2) fr by blast
  note adv = 1(3) [unfolded advance.simps [of s] Let_def fr fst_conv snd_conv]
  consider (clean) r x where "noActiveWork n" "phase n = Draining r x None"
    | (wait) "\<not> noActiveWork n" "\<not> may_take_inputs n \<or> waits_as_llm n"
    | (inputs) "\<not> noActiveWork n" "may_take_inputs n" "\<not> waits_as_llm n"
    using noActiveWork_draining [of n] by blast
  then show ?case
  proof cases
    case clean
    then have "publication (work n) = PubNone" by (simp add: noActiveWork_def)
    with clean adv J_cleanup [OF Jn] show ?thesis by (auto simp: throws_bind_Inr)
  next
    case wait
    with adv Jn show ?thesis by (auto split: if_splits)
  next
    case inputs
    show ?thesis
    proof (cases "input_decision n")
      case EffectNone
      with adv inputs Jn show ?thesis by simp
    next
      case EffectBlocked
      with adv inputs J_diagnostic [OF Jn] show ?thesis
        by (auto simp: skipped_tainted_diagnostic_def)
    next
      case (EffectDeliver items)
      with adv inputs J_deliver [OF Jn inputs(2) EffectDeliver] show ?thesis by auto
    next
      case (EffectConsumeIgnored items)
      note J' = J_ignore [OF Jn EffectConsumeIgnored]
      from adv inputs EffectConsumeIgnored obtain s2 o2 where
        rec: "advance (consume_ignored n items) = Inr (s2, o2)" and
        res: "s' = s2" "outs = o1 @ ignored_facts items @ o2"
        by (auto simp: throws_bind_Inr ignored_facts_def)
      have "J s2 ((h @ o1 @ ignored_facts items) @ o2)"
        using 1(1) [OF refl refl, unfolded fr fst_conv, OF inputs(1) _ inputs(3)
            EffectConsumeIgnored J' rec] inputs(2) by simp
      with res show ?thesis by simp
    next
      case (EffectStartTurn items)
      then obtain sid tid where ph: "phase n = Active sid tid TurnPending"
        using mayStartTurn_pending [OF start_effect_pending] by blast
      show ?thesis
      proof (cases "session n")
        case None
        with adv inputs EffectStartTurn Jn ph show ?thesis by simp
      next
        case (Some ses)
        with adv inputs EffectStartTurn ph J_start [OF Jn inputs(2) ph Some, of items] show ?thesis by auto
      qed
    qed
  qed
qed

end

text \<open>The contract of the whole reducer extends that of \<open>advance\<close> by the event handlers.\<close>

locale trace_invariant = advance_invariant J
  for J :: "worker_state \<Rightarrow> worker_output list \<Rightarrow> bool" +
  fixes ok :: "worker_event \<Rightarrow> worker_state \<Rightarrow> bool"
  assumes J_handler: "J s h \<Longrightarrow> ok e s \<Longrightarrow> phase s \<noteq> Exited \<Longrightarrow>
      handle_event (effective_event e) s = Inr (s', outs) \<Longrightarrow> J s' (h @ outs)"
    and J_reported: "J s h \<Longrightarrow> J s (h @ [Protocol (WorkerStateChanged from to cause)])"
begin

lemma reduce_keeps:
  assumes "J s h" "ok e s" and "reduceWorkerRuntime s e = Inr (s', outs)"
  shows "J s' (h @ outs)"
proof (cases "phase s = Exited")
  case True
  have "s' = s \<and> outs = []"
  proof (cases "e = RuntimeStarted")
    case True
    then show ?thesis using assms(3) \<open>phase s = Exited\<close>
      by (simp add: reduceWorkerRuntime_def on_runtime_started_def withReportedTransition_def)
  next
    case False
    then show ?thesis using assms(3) \<open>phase s = Exited\<close> by (simp add: reduceWorkerRuntime_def)
  qed
  with assms(1) show ?thesis by simp
next
  case False
  from assms(3) False obtain n o1 n' o2 where
    "handle_event (effective_event e) s = Inr (n, o1)" "advance n = Inr (n', o2)" and
    res: "(s', outs) = withReportedTransition s n' (effective_event e) (o1 @ o2)"
    by (auto simp: reduceWorkerRuntime_def throws_bind_Inr)
  then have "J n' ((h @ o1) @ o2)"
    using J_handler [OF assms(1,2) False] advance_keeps by blast
  then show ?thesis
    using res J_reported [of n' "h @ o1 @ o2"]
    by (auto simp: withReportedTransition_def Let_def split: if_splits)
qed

lemma run_keeps:
  assumes "J s h" "admitted ok s es" and "run_from s h es = Inr (s', h')"
  shows "J s' h'"
  using assms
proof (induction es arbitrary: s h)
  case (Cons e es)
  from Cons.prems(3) obtain t outs where
    step: "reduceWorkerRuntime s e = Inr (t, outs)" and rest: "run_from t (h @ outs) es = Inr (s', h')"
    by (auto simp: throws_bind_Inr)
  from Cons.prems(2) step have "ok e s" "admitted ok t es" by simp_all
  then show ?case using Cons.IH [OF reduce_keeps [OF Cons.prems(1) _ step] _ rest] by blast
qed simp

end

end
