(* ===== verification/Worker_Progress.thy ===== *)
theory Worker_Progress
  imports Worker_Trace
begin

text \<open>
  The worker's lifecycle only goes forward: a rank of the phases that no reduction lowers, and the
  commands that belong to it (bootstrap, activation, turn, cleanup, closing, exit), which every
  run issues at most once each and in this order.
\<close>

section \<open>Ranks and milestones\<close>

fun phase_rank :: "worker_phase \<Rightarrow> nat" where
  "phase_rank Init = 0"
| "phase_rank WaitingForStart = 1"
| "phase_rank (Bootstrapping _ _) = 2"
| "phase_rank (Readying _ _ _) = 3"
| "phase_rank (WaitingForAcceptance _ _) = 4"
| "phase_rank (Activating _ _) = 5"
| "phase_rank (Active _ _ TurnPending) = 6"
| "phase_rank (Active _ _ TurnExecuting) = 7"
| "phase_rank (Active _ _ TurnCompleted) = 8"
| "phase_rank (Draining _ _ (Some _)) = 9"
| "phase_rank (Draining _ _ None) = 10"
| "phase_rank (Cleaning _ _ StagePublication) = 11"
| "phase_rank (Cleaning _ _ StageResources) = 12"
| "phase_rank Exited = 14"

fun milestone :: "worker_output \<Rightarrow> nat option" where
  "milestone (Command (CmdBootstrap _ _)) = Some 2"
| "milestone (Command (CmdActivate _ _ _)) = Some 5"
| "milestone (Command (CmdExecuteTurn _ _ _)) = Some 7"
| "milestone (Command CmdCleanup) = Some 12"
| "milestone (Command CmdCloseTransport) = Some 13"
| "milestone (Command (CmdExit _)) = Some 14"
| "milestone _ = None"

definition milestones :: "worker_output list \<Rightarrow> nat list" where
  "milestones outs = List.map_filter milestone outs"

lemma milestones_simps [simp]:
  "milestones [] = []"
  "milestones (x # outs) = (case milestone x of None \<Rightarrow> [] | Some m \<Rightarrow> [m]) @ milestones outs"
  "milestones (outs @ outs') = milestones outs @ milestones outs'"
  by (auto simp: milestones_def List.map_filter_def split: option.split)

lemma milestone_no_command: "(\<And>c. x \<noteq> Command c) \<Longrightarrow> milestone x = None"
  by (cases x) auto

lemma milestones_no_commands [simp]: "(\<And>c. Command c \<notin> set outs) \<Longrightarrow> milestones outs = []"
proof (induction outs)
  case (Cons x outs)
  then have "milestone x = None" by (intro milestone_no_command) auto
  with Cons show ?case by auto
qed simp

text \<open>The phase that each milestone's command serves is reached with that command issued.\<close>

definition due :: "worker_phase \<Rightarrow> nat list" where
  "due p = (if phase_rank p \<in> {2, 5, 7, 12} then [phase_rank p]
            else if p = Exited then [13] else [])"

definition progress :: "worker_state \<Rightarrow> worker_output list \<Rightarrow> bool" where
  "progress s h \<longleftrightarrow>
     sorted_wrt (<) (milestones h) \<and> (\<forall>m \<in> set (milestones h). m \<le> phase_rank (phase s)) \<and>
     set (due (phase s)) \<subseteq> set (milestones h)"

lemma progress_forward:
  assumes "progress s h" "phase_rank (phase s) \<le> phase_rank (phase s')"
    and "sorted_wrt (<) (milestones outs)"
    and "\<forall>m \<in> set (milestones outs). phase_rank (phase s) < m \<and> m \<le> phase_rank (phase s')"
    and "phase s' = phase s \<or> set (due (phase s')) \<subseteq> set (milestones outs)"
  shows "progress s' (h @ outs)"
  using assms unfolding progress_def
  by (fastforce simp: sorted_wrt_append)

lemma progress_quiet:
  "progress s h \<Longrightarrow> phase s' = phase s \<Longrightarrow> milestones outs = [] \<Longrightarrow> progress s' (h @ outs)"
  by (simp add: progress_def)

lemma rank_draining: "phase_rank (Draining r x d) = (if d = None then 10 else 9)"
  by (cases d) auto

lemma due_draining [simp]: "due (Draining r x d) = []"
  by (simp add: due_def rank_draining)

lemma rank_cleaning: "phase_rank (Cleaning r x st) = (if st = StagePublication then 11 else 12)"
  by (cases st) auto

lemma rank_active [simp]: "phase_rank (Active sid tid st) < 9"
  by (cases st) auto

lemma rank_exited [simp]: "phase_rank p = 14 \<longleftrightarrow> p = Exited"
  by (cases p rule: phase_rank.cases) auto

lemma progress_same:
  assumes "progress s h" "phase_rank (phase s') = phase_rank (phase s)"
  shows "progress s' h"
proof -
  have "phase s' = Exited \<longleftrightarrow> phase s = Exited" using assms(2) rank_exited by metis
  then have "due (phase s') = due (phase s)" using assms(2) by (simp add: due_def)
  with assms show ?thesis by (simp add: progress_def)
qed

lemma progress_failure:
  assumes "progress s h" "phase s \<noteq> Exited" "failureOutputs s f = Inr (s', outs)"
  shows "progress s' (h @ outs)"
proof -
  have "phase_rank (phase s) \<le> 12" using assms(2) by (cases "phase s" rule: phase_rank.cases) auto
  then show ?thesis using assms
    by (cases rule: failureOutputs_cases [of s f])
      (auto simp: due_def intro!: progress_forward)
qed

section \<open>Every step of the reducer keeps the order\<close>

lemma milestones_map [simp]: "(\<And>x. milestone (f x) = None) \<Longrightarrow> milestones (map f xs) = []"
  by (induction xs) auto

lemma quiet_outputs [simp]:
  "milestone (inputConsumedFact i q k m) = None" "milestone (heartbeat_fact s ses) = None"
  "milestones connected_facts = []" "milestones (bootstrap_diagnostics ds) = []"
  "milestones (ignored_facts items) = []"
  by (simp_all add: connected_facts_def bootstrap_diagnostics_def ignored_facts_def heartbeat_fact_def
      inputConsumedFact_def)

lemma progress_server_message:
  assumes "progress s h" "phase s \<noteq> Exited" "on_server_message m s = Inr (s', outs)"
    "\<nexists>r. m = MsgStop r"
  shows "progress s' (h @ outs)"
  using assms
  by (cases m)
    (auto simp: on_start_def on_turn_start_accepted_def beginActivation_def due_def
      on_turn_terminal_recorded_def on_credential_update_accepted_def credential_diagnostic_def
      on_input_batch_def
      intro!: progress_forward intro: progress_same
      split: if_splits worker_phase.splits publication_state.splits option.splits bool.splits)

lemma progress_terminal:
  assumes "progress s h" "publishTerminalAndAwaitAcknowledgement t p = (s', outs)" "phase t = phase s"
    "milestones pre = []"
  shows "progress s' (h @ pre @ outs)"
  using assms
  by (auto simp: publishTerminalAndAwaitAcknowledgement_def armTimer_def split: option.splits
      intro!: progress_forward) 

lemma progress_fatal:
  assumes "progress s h" "phase s \<noteq> Exited" "finishFatal s f = (s', outs)"
  shows "progress s' (h @ outs)"
proof -
  have "phase_rank (phase s) \<le> 12" using assms(2) by (cases "phase s" rule: phase_rank.cases) auto
  with assms show ?thesis
    by (auto simp: finishFatal_def due_def split: option.splits intro!: progress_forward)
qed

lemma progress_stop:
  assumes "progress s h" "phase s \<noteq> Exited" "on_stop_requested r x s = Inr (s', outs)"
  shows "progress s' (h @ outs)"
proof (cases "phase_rank (phase s) < 9")
  case True
  then have "s' = s\<lparr>phase := Draining r x (draining_operation_of (phase s)), timers := (\<lambda>_. None),
      credential := None\<rparr>" "milestones outs = []"
    using assms(3) by (auto simp: on_stop_requested_def rank_draining rank_cleaning
        split: worker_phase.splits if_splits)
  then show ?thesis using assms(1) True by (intro progress_forward) (auto simp: rank_draining)
next
  case False
  then have "(s', outs) = (s, [])"
    using assms(2,3) by (simp add: on_stop_requested_def split: worker_phase.splits)
  then show ?thesis using assms(1) by simp
qed

lemma progress_drained:
  assumes "progress s h" "isDraining s"
  shows "progress (finishDrainingOperation s) h"
proof -
  from assms(2) obtain r x d where "phase s = Draining r x d"
    by (auto simp: isDraining_def split: worker_phase.splits)
  with assms(1) have "progress (finishDrainingOperation s) (h @ [])"
    by (intro progress_forward) (cases d; simp add: finishDrainingOperation_def due_def)+
  then show ?thesis by simp
qed

lemma progress_session_events:
  assumes "progress s h" "phase s \<noteq> Exited"
  shows "on_runtime_started s = Inr (s', outs) \<Longrightarrow> progress s' (h @ outs)"
    and "on_session_tainted r s = Inr (s', outs) \<Longrightarrow> progress s' (h @ outs)"
    and "on_credential_sampled pid vs f s = Inr (s', outs) \<Longrightarrow> progress s' (h @ outs)"
    and "on_credential_sample_failed pid err s = Inr (s', outs) \<Longrightarrow> progress s' (h @ outs)"
  using assms
  by (auto simp: on_runtime_started_def on_session_tainted_def on_credential_sampled_def
      on_credential_sample_failed_def armTimer_def credential_diagnostic_def due_def
      intro!: progress_forward intro: progress_same split: if_splits option.splits)

lemma progress_connected:
  assumes "progress s h" "on_transport_connected s = Inr (s', outs)"
  shows "progress s' (h @ outs)"
proof -
  let ?facts = "connected_facts @ (case session s of None \<Rightarrow> [] | Some ses \<Rightarrow> [heartbeat_fact s ses])"
  have quiet: "milestones ?facts = []" by (simp split: option.split)
  show ?thesis
  proof (cases "\<exists>t. publication (work s) = TerminalPendingAck t")
    case True
    then show ?thesis using assms progress_terminal [OF assms(1) _ refl quiet]
      by (auto simp: on_transport_connected_def Let_def split: prod.splits)
  next
    case False
    then have "s' = s" "outs = ?facts" using assms(2)
      by (auto simp: on_transport_connected_def Let_def split: publication_state.splits)
    then show ?thesis using progress_quiet [OF assms(1) _ quiet] by simp
  qed
qed

lemma progress_timer:
  assumes "progress s h" "phase s \<noteq> Exited" "on_timer_fired name cor s = Inr (s', outs)"
  shows "progress s' (h @ outs)"
  using assms
  by (cases name)
    (auto simp: on_timer_fired_def Let_def armTimer_def publishTerminalAndAwaitAcknowledgement_def
      intro!: progress_forward intro: progress_same
      split: if_splits option.splits worker_phase.splits publication_state.splits)

lemma progress_bootstrap:
  assumes "progress s h" "phase s \<noteq> Exited" "on_bootstrap_succeeded sid c s = Inr (s', outs)"
  shows "progress s' (h @ outs)"
proof (cases "matchesBootstrap s sid")
  case False
  with assms show ?thesis by (simp add: on_bootstrap_succeeded_def)
next
  case True
  have quiet: "milestones outs = []"
    using assms(3) True
    by (auto simp: on_bootstrap_succeeded_def Let_def beginSnapshot_def armTimer_def throws_bind_Inr
        split: if_splits option.splits snapshot_policy.splits)
  from True consider sid' p where "phase s = Bootstrapping sid' p"
    | r x d where "phase s = Draining r x (Some d)"
    by (auto simp: matchesBootstrap_def split: worker_phase.splits option.splits)
  then have "phase_rank (phase s) < phase_rank (phase s') \<and> due (phase s') = []"
    using assms(3) True
    by cases (auto simp: on_bootstrap_succeeded_def isDraining_def Let_def beginSnapshot_def
        armTimer_def throws_bind_Inr due_def
        split: if_splits option.splits snapshot_policy.splits)
  with assms(1) quiet show ?thesis by (intro progress_forward) auto
qed

lemma progress_activated:
  assumes "progress s h" "on_activation_succeeded sid tid ds s = Inr (s', outs)"
  shows "progress s' (h @ outs)"
  using assms
  by (auto simp: on_activation_succeeded_def matchesActivation_def due_def
      intro!: progress_forward split: if_splits worker_phase.splits option.splits)

lemma progress_failed_operations:
  assumes "progress s h" "phase s \<noteq> Exited"
  shows "on_bootstrap_failed sid err p s = Inr (s', outs) \<Longrightarrow> progress s' (h @ outs)"
    and "on_activation_failed sid tid err s = Inr (s', outs) \<Longrightarrow> progress s' (h @ outs)"
    and "on_turn_defect tid err s = Inr (s', outs) \<Longrightarrow> progress s' (h @ outs)"
    and "on_cleanup_failed err s = Inr (s', outs) \<Longrightarrow> progress s' (h @ outs)"
    and "on_invariant_failed err s = Inr (s', outs) \<Longrightarrow> progress s' (h @ outs)"
  using assms
  by (auto simp: on_bootstrap_failed_def on_activation_failed_def on_turn_defect_def busy_failure_def
      on_cleanup_failed_def on_invariant_failed_def
      intro: progress_failure progress_drained
      split: if_splits worker_phase.splits cleaning_stage.splits)

lemma progress_inputs:
  assumes "progress s h" "phase s \<noteq> Exited"
  shows "on_inputs_delivered hs ds m s = Inr (s', outs) \<Longrightarrow> progress s' (h @ outs)"
    and "on_input_delivery_failed hs err s = Inr (s', outs) \<Longrightarrow> progress s' (h @ outs)"
proof -
  assume "on_inputs_delivered hs ds m s = Inr (s', outs)"
  then show "progress s' (h @ outs)" using assms(1)
    by (auto simp: on_inputs_delivered_def intro!: progress_quiet split: if_splits)
next
  have "progress (set_deliveryHead None s) h" using assms(1) by (rule progress_same) simp
  moreover assume "on_input_delivery_failed hs err s = Inr (s', outs)"
  ultimately show "progress s' (h @ outs)" using assms
    by (auto simp: on_input_delivery_failed_def intro: progress_failure split: if_splits)
qed

lemma milestones_applied [simp]:
  "milestones (snd (snd (remove_applied items queue lst))) = []"
  by (induction items queue lst rule: remove_applied.induct) (auto simp: Let_def split: prod.splits)

lemma progress_publish:
  assumes "publish_result s next tid point p = Inr (s', outs)"
  shows "phase s' = phase next \<and> milestones outs = []"
  using assms
  by (auto simp: publish_result_def publishTerminalAndAwaitAcknowledgement_def armTimer_def
      beginSnapshot_def split: if_splits option.splits snapshot_policy.splits)

lemma progress_completed:
  assumes "progress s h" "on_turn_completed tid res s = Inr (s', outs)"
  shows "progress s' (h @ outs)"
proof (cases "matchesTurn s tid")
  case False
  with assms show ?thesis by (simp add: on_turn_completed_def)
next
  case True
  define next1 where "next1 = mark_turn_completed s
    (fst (removeAppliedTargeted (finishDrainingOperation s) (appliedTargetedInputs res)))"
  have quiet: "milestones (snd (removeAppliedTargeted (finishDrainingOperation s)
      (appliedTargetedInputs res))) = []"
    by (simp add: removeAppliedTargeted_def split: prod.splits) (metis milestones_applied snd_conv)
  have res: "phase s' = phase next1 \<and> milestones outs = []"
    using assms(2) True quiet
    by (auto simp: on_turn_completed_def next1_def split_beta Let_def throws_bind_Inr
        dest!: progress_publish split: turn_execution_result.splits)
  have "phase_rank (phase s) < phase_rank (phase next1) \<and> due (phase next1) = []"
    using True
    by (auto simp: next1_def mark_turn_completed_def removeAppliedTargeted_def split_beta Let_def
        finishDrainingOperation_def matchesTurn_def due_def
        split: worker_phase.splits option.splits draining_operation.splits)
  with assms(1) res show ?thesis by (intro progress_forward) auto
qed

lemma progress_snapshot:
  assumes "progress s h" "phase s \<noteq> Exited" "on_snapshot_completed point turn err s = Inr (s', outs)"
  shows "progress s' (h @ outs)"
proof -
  have cleared: "progress (set_publication PubNone s) h" using assms(1) by (rule progress_same) simp
  note fails = progress_failure [OF cleared]
  show ?thesis
  proof (cases "publication (work s)")
    case (TerminalSnapshot p t terminal)
    with assms fails progress_terminal [OF assms(1) _ refl, where pre = "[]"] show ?thesis
      by (auto simp: on_snapshot_completed_def split: if_splits option.splits)
  next
    case CleanupSnapshot
    with assms fails show ?thesis
      by (auto simp: on_snapshot_completed_def due_def intro!: progress_forward
          split: if_splits option.splits worker_phase.splits cleaning_stage.splits)
  next
    case (FatalSnapshot fatal after)
    with assms progress_fatal [OF assms(1,2)] show ?thesis
      by (auto simp: on_snapshot_completed_def due_def intro!: progress_forward
          split: if_splits after_snapshot.splits worker_phase.splits cleaning_stage.splits)
  qed (use assms cleared in \<open>auto simp: on_snapshot_completed_def split: if_splits\<close>)
qed

lemma progress_cleaned:
  assumes "progress s h" "on_cleanup_succeeded s = Inr (s', outs)"
  shows "progress s' (h @ outs)"
  using assms progress_fatal [OF assms(1)]
  by (auto simp: on_cleanup_succeeded_def due_def intro!: progress_forward
      split: worker_phase.splits cleaning_stage.splits publication_state.splits if_splits)

lemma progress_handler:
  assumes "progress s h" "phase s \<noteq> Exited" "handle_event (effective_event e) s = Inr (s', outs)"
  shows "progress s' (h @ outs)"
proof (cases "effective_event e")
  case (ServerMessage m)
  then have "\<nexists>r. m = MsgStop r" by (cases e rule: effective_event.cases) auto
  with assms ServerMessage progress_server_message show ?thesis by simp
qed (use assms in \<open>auto intro: progress_failure progress_stop progress_session_events progress_connected
      progress_timer progress_bootstrap progress_activated progress_failed_operations progress_inputs
      progress_completed progress_snapshot progress_cleaned progress_same\<close>)

interpretation progress: trace_invariant progress "\<lambda>_ _. True"
proof
  fix s h e s' outs
  assume "progress s h" "phase s \<noteq> Exited" "handle_event (effective_event e) s = Inr (s', outs)"
  then show "progress s' (h @ outs)" by (rule progress_handler)
next
  fix s h s' outs
  assume "progress s h" "finishReadying s = (s', outs)"
  then show "progress s' (h @ outs)"
    by (auto simp: finishReadying_def beginActivation_def armTimer_def due_def
        intro!: progress_forward split: worker_phase.splits if_splits option.splits)
next
  fix s h r x s' outs
  assume "progress s h" "phase s = Draining r x None" "begin_cleanup s r x = Inr (s', outs)"
  then show "progress s' (h @ outs)"
    by (auto simp: begin_cleanup_def beginSnapshot_def throws_bind_Inr due_def
        intro!: progress_forward split: option.splits if_splits snapshot_policy.splits)
next
  fix s h items
  assume "progress s h"
  then show "progress (consume_ignored s items) (h @ ignored_facts items)"
    by (rule progress_quiet) (simp_all add: consume_ignored_def)
next
  fix s h sid tid ses items
  assume "progress s h" "phase s = Active sid tid TurnPending"
  then show "progress (s\<lparr>phase := Active sid tid TurnExecuting\<rparr>)
      (h @ [Command (CmdExecuteTurn tid items ses)])"
    by (intro progress_forward) (auto simp: due_def)
qed (auto intro: progress_quiet)

lemma progress_init: "progress createInitialWorkerRuntimeState []"
  by (simp add: progress_def createInitialWorkerRuntimeState_def due_def)

section \<open>Properties\<close>

lemma milestone_close: "milestone x = Some 13 \<longleftrightarrow> x = Command CmdCloseTransport"
  by (cases x rule: milestone.cases) auto

lemma close_iff_milestone: "Command CmdCloseTransport \<in> set h \<longleftrightarrow> 13 \<in> set (milestones h)"
proof (induction h)
  case (Cons x h)
  then show ?case using milestone_close [of x] by (auto split: option.split)
qed simp

lemma rank_gap: "phase_rank p \<ge> 13 \<Longrightarrow> p = Exited"
  by (cases p rule: phase_rank.cases) auto

lemma run_progress: "run es = Inr (s, h) \<Longrightarrow> progress s h"
  using progress.run_keeps [OF progress_init] by simp

lemma sample_run_ends:
  "\<exists>s h. run sample_run = Inr (s, h) \<and> phase s = Exited \<and> milestones h = [2, 5, 7, 12, 13, 14]"
proof -
  have "case run sample_run of Inr (s, h) \<Rightarrow> phase s = Exited \<and> milestones h = [2, 5, 7, 12, 13, 14]
      | Inl _ \<Rightarrow> False"
    by code_simp
  then show ?thesis by (simp split: sum.splits prod.splits)
qed

text \<open>
  C5. In every run of the runtime, whatever events arrive, the lifecycle commands (bootstrap,
  activate, execute turn, cleanup, close transport, exit) are issued in exactly this order and
  each at most once, none of them ahead of the phase it belongs to, and the phases that wait for
  an operation (bootstrapping, activating, executing, cleaning resources) are only entered with
  that operation's command issued.
\<close>

theorem lifecycle_commands_in_order:
  assumes "run es = Inr (s, h)"
  shows "sorted_wrt (<) (milestones h) \<and>
    (\<forall>m \<in> set (milestones h). m \<le> phase_rank (phase s)) \<and>
    (phase_rank (phase s) \<in> {2, 5, 7, 12} \<longrightarrow> phase_rank (phase s) \<in> set (milestones h))"
  using run_progress [OF assms] by (auto simp: progress_def due_def split: if_splits)

theorem lifecycle_commands_in_order_witness:
  "\<exists>s h. run sample_run = Inr (s, h) \<and> milestones h = [2, 5, 7, 12, 13, 14] \<and>
     (\<forall>m \<in> set (milestones h). m \<le> phase_rank (phase s))"
  using sample_run_ends lifecycle_commands_in_order [of sample_run] by blast

text \<open>
  The transport is closed exactly when the worker has exited: a run contains the command
  that closes the transport if and only if it ends in the phase \<open>exited\<close>.
\<close>

lemma transport_closed_iff_exited:
  assumes "run es = Inr (s, h)"
  shows "Command CmdCloseTransport \<in> set h \<longleftrightarrow> phase s = Exited"
  using run_progress [OF assms] close_iff_milestone [of h] rank_gap [of "phase s"]
  by (fastforce simp: progress_def due_def)

text \<open>
  The phase \<open>exited\<close> is final and silent: no event whatsoever changes the state of an exited
  worker or makes it output anything.
\<close>

lemma exited_is_final:
  assumes "phase s = Exited"
  shows "run_from s h es = Inr (s, h)"
proof -
  have "reduceWorkerRuntime s e = Inr (s, [])" for e
    using assms by (cases "e = RuntimeStarted")
      (simp_all add: reduceWorkerRuntime_def on_runtime_started_def withReportedTransition_def)
  then show ?thesis by (induction es) simp_all
qed

end
