(* ===== verification/Worker_Inputs.thy ===== *)
theory Worker_Inputs
  imports Worker_Trace
begin

text \<open>
  The worker's input queue: \<open>enqueueInputs\<close> as a map update kept in sequence order, the FIFO policy
  \<open>decideWorkerInputEffect\<close> as a partition of the queue into homogeneous blocks, and the
  exactly-once reporting of consumed inputs over whole runs.
\<close>

section \<open>The queue as a map\<close>

definition input_ids :: "input_item list \<Rightarrow> string set" where
  "input_ids q = in_inputId ` set q"

definition by_id :: "input_item list \<Rightarrow> string \<Rightarrow> input_item option" where
  "by_id q = map_of (map (\<lambda>i. (in_inputId i, i)) q)"

definition queue_ok :: "input_item list \<Rightarrow> bool" where
  "queue_ok q \<longleftrightarrow> sorted (map in_sequence q) \<and> distinct (map in_inputId q)"

definition keyed :: "(string \<times> input_item) list \<Rightarrow> bool" where
  "keyed m \<longleftrightarrow> distinct (map fst m) \<and> (\<forall>(k, i) \<in> set m. k = in_inputId i)"

lemma keyed_set: "keyed m \<Longrightarrow> keyed (jsmap_set (in_inputId i) i m)"
  using set_jsmap_set [of "in_inputId i" i m] by (auto simp: keyed_def)

lemma keyed_fold: "keyed m \<Longrightarrow> keyed (inputs_by_id items m)"
  unfolding inputs_by_id_def by (induction items arbitrary: m) (simp_all add: keyed_set)

lemma keyed_ids: "keyed m \<Longrightarrow> map fst m = map in_inputId (map snd m)"
  by (auto simp: keyed_def)

lemma map_of_inputs_by_id:
  "map_of (inputs_by_id items m) = map_of m ++ map_of (rev (map (\<lambda>i. (in_inputId i, i)) items))"
  unfolding inputs_by_id_def
  by (induction items arbitrary: m) (auto simp: map_add_def split: option.split)

lemma set_inputs_by_id: "snd ` set (inputs_by_id items m) \<subseteq> snd ` set m \<union> set items"
  unfolding inputs_by_id_def
proof (induction items arbitrary: m)
  case (Cons i items)
  have "snd ` set (jsmap_set (in_inputId i) i m) \<subseteq> insert i (snd ` set m)"
    using image_mono [OF set_jsmap_set [of "in_inputId i" i m], of snd] by simp
  with Cons [of "jsmap_set (in_inputId i) i m"] show ?case by (simp add: subset_iff) blast
qed simp

lemma distinct_map_sort_key: "distinct (map f (sort_key g xs)) \<longleftrightarrow> distinct (map f xs)"
  by (simp add: distinct_map)

lemma by_id_sort:
  assumes "distinct (map in_inputId q)"
  shows "by_id (sort_key in_sequence q) = by_id q"
proof -
  have "distinct (map in_inputId (sort_key in_sequence q))"
    using assms by (simp add: distinct_map_sort_key)
  then show ?thesis using assms unfolding by_id_def
    by (subst map_of_inject_set) (simp_all add: comp_def)
qed

lemma by_id_snd: "keyed m \<Longrightarrow> by_id (map snd m) = map_of m"
  unfolding by_id_def keyed_def
  by (simp add: map_of_inject_set comp_def) (rule arg_cong [of _ _ map_of], rule map_idI, fastforce)

lemma enqueue_keyed: "keyed (inputs_by_id incoming (inputs_by_id current []))"
  by (intro keyed_fold) (simp add: keyed_def)

lemma enqueue_distinct:
  "distinct (map in_inputId (map snd (inputs_by_id incoming (inputs_by_id current []))))"
  using enqueue_keyed keyed_ids keyed_def by metis

lemma enqueueInputs_ok: "queue_ok (enqueueInputs current incoming)"
  using enqueue_distinct [of incoming current]
  unfolding queue_ok_def enqueueInputs_def distinct_map_sort_key by simp

lemma enqueueInputs_by_id:
  "by_id (enqueueInputs current incoming) =
     map_of (rev (map (\<lambda>i. (in_inputId i, i)) (current @ incoming)))"
proof -
  have "by_id (enqueueInputs current incoming) = map_of (inputs_by_id incoming (inputs_by_id current []))"
    unfolding enqueueInputs_def by_id_sort [OF enqueue_distinct]
    by (rule by_id_snd [OF enqueue_keyed])
  then show ?thesis by (simp add: map_of_inputs_by_id)
qed

lemma enqueueInputs_set: "set (enqueueInputs current incoming) \<subseteq> set current \<union> set incoming"
  using set_inputs_by_id [of incoming "inputs_by_id current []"] set_inputs_by_id [of current "[]"]
  by (simp add: enqueueInputs_def) blast

section \<open>The FIFO policy\<close>

text \<open>A longest block of inputs of one class at the front of the queue.\<close>

definition front_block :: "(input_item \<Rightarrow> bool) \<Rightarrow> input_item list \<Rightarrow> input_item list \<Rightarrow> bool" where
  "front_block P xs q \<longleftrightarrow>
     (\<exists>rest. q = xs @ rest \<and> (\<forall>x \<in> set xs. P x) \<and> (rest = [] \<or> \<not> P (hd rest)))"

abbreviation targeted :: "input_item \<Rightarrow> bool" where
  "targeted i \<equiv> in_target i \<noteq> None"

abbreviation ordinary :: "input_item \<Rightarrow> bool" where
  "ordinary i \<equiv> in_target i = None"

lemma hd_dropWhile_iff: "dropWhile P q = [] \<or> \<not> P (hd (dropWhile P q))"
  using hd_dropWhile by blast

lemma front_block_takeWhile: "front_block P (takeWhile P q) q"
  unfolding front_block_def
  by (rule exI [of _ "dropWhile P q"]) (use hd_dropWhile_iff [of P q] in \<open>auto dest: set_takeWhileD\<close>)

lemma decide_Nil:
  "decideWorkerInputEffect [] tainted pi may =
     (if may \<and> \<not> tainted then EffectStartTurn [] else EffectNone)"
  by (simp add: decideWorkerInputEffect_def)

lemma decide_Cons:
  "decideWorkerInputEffect (x # q) tainted pi may =
     (if tainted then EffectBlocked
      else if ordinary x then
        (if pi then EffectDeliver (takeWhile ordinary (x # q))
         else EffectConsumeIgnored (takeWhile ordinary (x # q)))
      else if may then EffectStartTurn (takeWhile targeted (x # q)) else EffectNone)"
  by (simp add: decideWorkerInputEffect_def)

lemma decide_deliver:
  "decideWorkerInputEffect q tainted pi may = EffectDeliver xs \<Longrightarrow>
     \<not> tainted \<and> pi \<and> xs \<noteq> [] \<and> front_block ordinary xs q"
  using front_block_takeWhile [of ordinary q]
  by (cases q) (auto simp: decide_Nil decide_Cons split: if_splits)

lemma decide_ignored:
  "decideWorkerInputEffect q tainted pi may = EffectConsumeIgnored xs \<Longrightarrow>
     \<not> tainted \<and> \<not> pi \<and> xs \<noteq> [] \<and> front_block ordinary xs q"
  using front_block_takeWhile [of ordinary q]
  by (cases q) (auto simp: decide_Nil decide_Cons split: if_splits)

lemma decide_start:
  "decideWorkerInputEffect q tainted pi may = EffectStartTurn xs \<Longrightarrow>
     \<not> tainted \<and> may \<and> (xs = [] \<longleftrightarrow> q = []) \<and> front_block targeted xs q"
  using front_block_takeWhile [of targeted q]
  by (cases q) (auto simp: decide_Nil decide_Cons split: if_splits)

text \<open>
  The FIFO input policy takes exactly the longest block of inputs of one kind at the front of
  the queue and never reaches across it: ordinary inputs are delivered when Pi is available and
  consumed as ignored when it is not, targeted inputs only ever start a turn, and only when one may
  start; a tainted session takes nothing.
\<close>

lemma input_policy_is_fifo:
  "case decideWorkerInputEffect q tainted pi may of
     EffectNone \<Rightarrow> \<not> may \<or> tainted \<and> q = []
   | EffectBlocked \<Rightarrow> tainted \<and> q \<noteq> []
   | EffectDeliver xs \<Rightarrow> \<not> tainted \<and> pi \<and> xs \<noteq> [] \<and> front_block ordinary xs q
   | EffectConsumeIgnored xs \<Rightarrow> \<not> tainted \<and> \<not> pi \<and> xs \<noteq> [] \<and> front_block ordinary xs q
   | EffectStartTurn xs \<Rightarrow> \<not> tainted \<and> may \<and> (xs = [] \<longleftrightarrow> q = []) \<and> front_block targeted xs q"
proof (cases "decideWorkerInputEffect q tainted pi may")
  case EffectNone
  then show ?thesis by (cases q) (auto simp: decide_Nil decide_Cons split: if_splits)
next
  case EffectBlocked
  then show ?thesis by (cases q) (auto simp: decide_Nil decide_Cons split: if_splits)
next
  case (EffectDeliver xs)
  with decide_deliver [OF this] show ?thesis by simp
next
  case (EffectConsumeIgnored xs)
  with decide_ignored [OF this] show ?thesis by simp
next
  case (EffectStartTurn xs)
  with decide_start [OF this] show ?thesis by simp
qed

text \<open>
  Queueing a batch is a map update kept in sequence order: the queue holds at most one entry
  per input id, in ascending sequence order, and the entry of every id is the one received last,
  whether it was queued before or comes with the batch.
\<close>

lemma enqueue_keeps_latest_in_order:
  "sorted (map in_sequence (enqueueInputs current incoming)) \<and>
   distinct (map in_inputId (enqueueInputs current incoming)) \<and>
   by_id (enqueueInputs current incoming) =
     map_of (rev (map (\<lambda>i. (in_inputId i, i)) (current @ incoming)))"
  using enqueueInputs_ok enqueueInputs_by_id by (simp add: queue_ok_def)

section \<open>Consumed inputs over a run\<close>

fun consumption :: "worker_output \<Rightarrow> (string \<times> int) option" where
  "consumption (Protocol (InputConsumed i q _ _)) = Some (i, q)"
| "consumption _ = None"

definition consumed :: "worker_output list \<Rightarrow> (string \<times> int) list" where
  "consumed outs = List.map_filter consumption outs"

lemma consumed_simps [simp]:
  "consumed [] = []"
  "consumed (x # outs) = (case consumption x of None \<Rightarrow> [] | Some c \<Rightarrow> [c]) @ consumed outs"
  "consumed (outs @ outs') = consumed outs @ consumed outs'"
  by (auto simp: consumed_def List.map_filter_def split: option.split)

lemma consumed_map [simp]:
  "(\<And>x. consumption (f x) = None) \<Longrightarrow> consumed (map f xs) = []"
  by (induction xs) auto

lemma consumption_fact [simp]: "consumption (inputConsumedFact i q k m) = Some (i, q)"
  by (simp add: inputConsumedFact_def)

lemma consumed_map_facts:
  "consumed (map (\<lambda>x. inputConsumedFact (f x) (g x) (k x) (m x)) xs) = map (\<lambda>x. (f x, g x)) xs"
  by (induction xs) auto

lemma consumed_quiet [simp]:
  "consumption (heartbeat_fact s ses) = None" "consumed connected_facts = []"
  "consumed (bootstrap_diagnostics ds) = []"
  "consumption (credential_diagnostic c m e) = None"
  by (simp_all add: heartbeat_fact_def connected_facts_def bootstrap_diagnostics_def
      credential_diagnostic_def)

text \<open>
  The server numbers its inputs: \<open>\<sigma>\<close> is the sequence of an input id. Every queued input carries its
  number, and an input reported as consumed is at or below the mark and is not queued.
\<close>

definition inputs_once :: "(string \<Rightarrow> int) \<Rightarrow> worker_state \<Rightarrow> worker_output list \<Rightarrow> bool" where
  "inputs_once \<sigma> s h \<longleftrightarrow>
     queue_ok (inputQueue s) \<and>
     (\<forall>i \<in> set (inputQueue s). in_sequence i = \<sigma> (in_inputId i)) \<and>
     distinct (map fst (consumed h)) \<and>
     (\<forall>(i, q) \<in> set (consumed h).
        q = \<sigma> i \<and> q \<le> lastSequenceConsumed s \<and> i \<notin> input_ids (inputQueue s))"

fun numbered :: "(string \<Rightarrow> int) \<Rightarrow> worker_event \<Rightarrow> worker_state \<Rightarrow> bool" where
  "numbered \<sigma> (ServerMessage (MsgInputBatch ds)) s = (\<forall>d \<in> set ds. dl_sequence d = \<sigma> (dl_inputId d))"
| "numbered \<sigma> (BootstrapSucceeded _ c) s =
     (\<forall>i \<in> set (bc_pendingInputs c). in_sequence i = \<sigma> (in_inputId i))"
| "numbered \<sigma> (InputsDelivered _ ds _) s =
     (distinct (map di_inputId ds) \<and>
      (\<forall>d \<in> set ds. (di_inputId d, di_sequence d) \<in> (\<lambda>i. (in_inputId i, in_sequence i)) ` set (inputQueue s)))"
| "numbered \<sigma> _ s = True"

lemma inputs_frame:
  assumes "inputs_once \<sigma> s h" "inputQueue s' = inputQueue s \<or> inputQueue s' = []"
    "lastSequenceConsumed s' = lastSequenceConsumed s" "consumed outs = []"
  shows "inputs_once \<sigma> s' (h @ outs)"
  using assms by (auto simp: inputs_once_def queue_ok_def input_ids_def)

lemma inputs_enqueue:
  assumes "inputs_once \<sigma> s h" "\<forall>i \<in> set items. in_sequence i = \<sigma> (in_inputId i)"
    "inputQueue s' = enqueueInputs (inputQueue s) (fresh_inputs s items)"
    "lastSequenceConsumed s' = lastSequenceConsumed s" "consumed outs = []"
  shows "inputs_once \<sigma> s' (h @ outs)"
proof -
  have members: "i \<in> set (inputQueue s) \<or> i \<in> set items \<and> lastSequenceConsumed s < in_sequence i"
    if "i \<in> set (inputQueue s')" for i
    using that enqueueInputs_set [of "inputQueue s" "fresh_inputs s items"]
    unfolding assms(3) fresh_inputs_def by fastforce
  have "i \<notin> input_ids (inputQueue s')" if "(i, q) \<in> set (consumed h)" for i q
    using that members assms(1,2) unfolding inputs_once_def input_ids_def by fastforce
  moreover have "\<forall>i \<in> set (inputQueue s'). in_sequence i = \<sigma> (in_inputId i)"
    using members assms(1,2) unfolding inputs_once_def by blast
  ultimately show ?thesis
    using assms enqueueInputs_ok unfolding inputs_once_def by fastforce
qed

lemma fold_max_ge: "(x::int) \<le> fold max xs x"
proof (induction xs arbitrary: x)
  case (Cons a xs)
  have "x \<le> max a x" by simp
  also have "\<dots> \<le> fold max xs (max a x)" by (rule Cons)
  finally show ?case by simp
qed simp

lemma fold_max_bound: "q \<in> set qs \<Longrightarrow> q \<le> fold max qs (x::int)"
proof (induction qs arbitrary: x)
  case (Cons a qs)
  then show ?case using fold_max_ge [of "max a x" qs] by auto
qed simp

text \<open>Inputs that leave the queue by id, each reported once, with the mark raised to them.\<close>

lemma inputs_consume:
  assumes "inputs_once \<sigma> s h"
    and "distinct (map fst cs)"
    and "set cs \<subseteq> (\<lambda>i. (in_inputId i, in_sequence i)) ` set (inputQueue s)"
    and "inputQueue s' = filter (\<lambda>i. in_inputId i \<notin> fst ` set cs) (inputQueue s)"
    and "lastSequenceConsumed s' = fold max (map snd cs) (lastSequenceConsumed s)"
    and "consumed outs = cs"
  shows "inputs_once \<sigma> s' (h @ outs)"
proof -
  have mark: "q \<le> lastSequenceConsumed s'" if "(i, q) \<in> set cs \<or> (i, q) \<in> set (consumed h)" for i q
  proof -
    have "q \<le> lastSequenceConsumed s \<or> q \<in> set (map snd cs)"
      using that assms(1) unfolding inputs_once_def by force
    then show ?thesis
      using fold_max_ge [of "lastSequenceConsumed s" "map snd cs"] fold_max_bound [of q "map snd cs"]
      unfolding assms(5) by fastforce
  qed
  have fresh: "i \<notin> fst ` set cs" if "(i, q) \<in> set (consumed h)" for i q
    using that assms(1,3) unfolding inputs_once_def input_ids_def by fastforce
  have nums: "q = \<sigma> i" if "(i, q) \<in> set cs \<or> (i, q) \<in> set (consumed h)" for i q
    using that assms(1,3) unfolding inputs_once_def by fastforce
  have gone: "i \<notin> input_ids (inputQueue s')" if "(i, q) \<in> set cs \<or> (i, q) \<in> set (consumed h)" for i q
  proof -
    have "i \<in> fst ` set cs \<or> i \<notin> input_ids (inputQueue s)"
      using that assms(1) unfolding inputs_once_def by force
    then show ?thesis unfolding assms(4) input_ids_def by auto
  qed
  have "queue_ok (inputQueue s')"
    using assms(1,4) by (simp add: inputs_once_def queue_ok_def distinct_map_filter sorted_filter)
  moreover have "\<forall>i \<in> set (inputQueue s'). in_sequence i = \<sigma> (in_inputId i)"
    using assms(1,4) by (simp add: inputs_once_def)
  moreover have "fst ` set (consumed h) \<inter> fst ` set cs = {}" using fresh by force
  then have "distinct (map fst (consumed (h @ outs)))"
    using assms(1,2,6) by (simp add: inputs_once_def)
  moreover have "\<forall>(i, q) \<in> set (consumed (h @ outs)).
      q = \<sigma> i \<and> q \<le> lastSequenceConsumed s' \<and> i \<notin> input_ids (inputQueue s')"
    using mark nums gone unfolding consumed_simps(3) assms(6) set_append by blast
  ultimately show ?thesis by (simp add: inputs_once_def)
qed

lemma filter_front:
  assumes "distinct (map in_inputId (xs @ rest))"
  shows "filter (\<lambda>i. in_inputId i \<notin> in_inputId ` set xs) (xs @ rest) = rest"
  using assms by (auto simp: filter_id_conv filter_empty_conv)

lemma remove_applied_consumes:
  assumes "remove_applied items queue lst = (queue', lst', outs)"
  shows "\<exists>xs. queue = xs @ queue' \<and> consumed outs = map (\<lambda>i. (in_inputId i, in_sequence i)) xs \<and>
    lst' = fold max (map in_sequence xs) lst"
  using assms
proof (induction items queue lst arbitrary: queue' lst' outs rule: remove_applied.induct)
  case (3 item rest head queue lst)
  show ?case
  proof (cases "in_inputId head \<noteq> at_inputId item \<or> in_sequence head \<noteq> at_sequence item \<or> in_target head = None")
    case True
    with 3(2) show ?thesis by (simp only: remove_applied.simps if_True) (intro exI [of _ "[]"], simp)
  next
    case False
    obtain q l os where r: "remove_applied rest queue (max lst (at_sequence item)) = (q, l, os)"
      by (cases "remove_applied rest queue (max lst (at_sequence item))") auto
    obtain xs where xs: "queue = xs @ q" "consumed os = map (\<lambda>i. (in_inputId i, in_sequence i)) xs"
      "l = fold max (map in_sequence xs) (max lst (at_sequence item))"
      using 3(1) [OF False r] by blast
    from False 3(2) r xs show ?thesis
      by (intro exI [of _ "head # xs"]) (auto simp: max.commute)
  qed
qed simp_all

lemma inputs_applied:
  assumes "inputs_once \<sigma> s h" "removeAppliedTargeted s applied = (s', outs)"
  shows "inputs_once \<sigma> s' (h @ outs)"
proof -
  obtain q l where r: "remove_applied applied (inputQueue s) (lastSequenceConsumed s) = (q, l, outs)"
    and s': "s' = s\<lparr>inputQueue := q, lastSequenceConsumed := l\<rparr>"
    using assms(2) by (auto simp: removeAppliedTargeted_def split: prod.splits)
  from remove_applied_consumes [OF r] obtain xs where xs: "inputQueue s = xs @ q"
    "consumed outs = map (\<lambda>i. (in_inputId i, in_sequence i)) xs"
    "l = fold max (map in_sequence xs) (lastSequenceConsumed s)" by blast
  have dist: "distinct (map in_inputId (xs @ q))"
    using assms(1) xs(1) by (simp add: inputs_once_def queue_ok_def)
  show ?thesis
    by (rule inputs_consume [OF assms(1), where cs = "map (\<lambda>i. (in_inputId i, in_sequence i)) xs"])
      (use dist filter_front [OF dist] xs in \<open>auto simp: s' comp_def image_image\<close>)
qed

section \<open>Exactly-once reporting\<close>

text \<open>What a step that consumes nothing leaves of the queue.\<close>

definition no_consumption :: "worker_state \<Rightarrow> reduction \<Rightarrow> bool" where
  "no_consumption s r \<longleftrightarrow>
     (inputQueue (fst r) = inputQueue s \<or> inputQueue (fst r) = []) \<and>
     lastSequenceConsumed (fst r) = lastSequenceConsumed s \<and> consumed (snd r) = []"

lemma consumed_none: "(\<And>i q k m. Protocol (InputConsumed i q k m) \<notin> set outs) \<Longrightarrow> consumed outs = []"
proof (induction outs)
  case (Cons x outs)
  then have "consumption x = None" by (cases x rule: consumption.cases) auto
  with Cons show ?case by auto
qed simp

lemma failure_quiet:
  assumes "failureOutputs t f = Inr r" "inputQueue t = inputQueue s"
    "lastSequenceConsumed t = lastSequenceConsumed s"
  shows "no_consumption s r"
proof (cases rule: failureOutputs_cases [of t f])
  case (same outs)
  with assms consumed_none [of outs] show ?thesis by (fastforce simp: no_consumption_def)
next
  case (snapshot outs fatal after src)
  with assms consumed_none [of outs] show ?thesis by (auto simp: no_consumption_def)
next
  case (exits outs outs')
  with assms consumed_none [of outs] show ?thesis by (fastforce simp: no_consumption_def)
qed

lemma terminal_publication_inputs [simp]:
  "inputQueue (fst (publishTerminalAndAwaitAcknowledgement t p)) = inputQueue t"
  "lastSequenceConsumed (fst (publishTerminalAndAwaitAcknowledgement t p)) = lastSequenceConsumed t"
  "consumed (snd (publishTerminalAndAwaitAcknowledgement t p)) = []"
  by (cases "pt_fact p"; simp add: publishTerminalAndAwaitAcknowledgement_def armTimer_def
      split: option.split)+

lemma terminal_quiet:
  "inputQueue t = inputQueue s \<Longrightarrow> lastSequenceConsumed t = lastSequenceConsumed s \<Longrightarrow>
   no_consumption s (publishTerminalAndAwaitAcknowledgement t p)"
  by (simp add: no_consumption_def)

lemma fatal_quiet: "no_consumption s (finishFatal s f)"
  by (auto simp: no_consumption_def finishFatal_def split: option.split)

lemma inputs_quiet:
  "inputs_once \<sigma> s h \<Longrightarrow> no_consumption s (s', outs) \<Longrightarrow> inputs_once \<sigma> s' (h @ outs)"
  unfolding no_consumption_def using inputs_frame by simp

fun moves_inputs :: "worker_event \<Rightarrow> bool" where
  "moves_inputs (ServerMessage (MsgInputBatch _)) = True"
| "moves_inputs (BootstrapSucceeded _ _) = True"
| "moves_inputs (InputsDelivered _ _ _) = True"
| "moves_inputs (TurnCompletedEvent _ _) = True"
| "moves_inputs _ = False"

lemma server_message_quiet:
  assumes "on_server_message m s = Inr r" "\<nexists>ds. m = MsgInputBatch ds"
  shows "no_consumption s r"
  using assms
  by (cases m)
    (auto simp: no_consumption_def on_start_def on_turn_start_accepted_def beginActivation_def
      on_turn_terminal_recorded_def on_credential_update_accepted_def on_stop_requested_def
      split: if_splits worker_phase.splits publication_state.splits option.splits bool.splits)

lemma no_consumption_pair [simp]:
  "no_consumption s (s', outs) \<longleftrightarrow>
     (inputQueue s' = inputQueue s \<or> inputQueue s' = []) \<and>
     lastSequenceConsumed s' = lastSequenceConsumed s \<and> consumed outs = []"
  by (simp add: no_consumption_def)

lemma timer_quiet: "on_timer_fired name cor s = Inr r \<Longrightarrow> no_consumption s r"
  by (cases name)
    (auto simp: on_timer_fired_def Let_def armTimer_def intro: terminal_quiet
      split: if_splits option.splits worker_phase.splits publication_state.splits)

lemma connected_quiet:
  assumes "on_transport_connected s = Inr r"
  shows "no_consumption s r"
  using assms
  by (auto simp: on_transport_connected_def no_consumption_def split_beta Let_def
      split: publication_state.splits option.splits)

lemma snapshot_quiet:
  assumes "on_snapshot_completed point turn err s = Inr r"
  shows "no_consumption s r"
proof (cases "publication (work s)")
  case (TerminalSnapshot p t terminal)
  with assms show ?thesis
    by (auto simp: on_snapshot_completed_def intro: failure_quiet terminal_quiet
        split: if_splits option.splits)
next
  case CleanupSnapshot
  with assms show ?thesis
    by (auto simp: on_snapshot_completed_def intro: failure_quiet
        split: if_splits option.splits worker_phase.splits cleaning_stage.splits)
next
  case (FatalSnapshot fatal after)
  with assms show ?thesis
    by (auto simp: on_snapshot_completed_def intro: fatal_quiet
        split: if_splits after_snapshot.splits worker_phase.splits cleaning_stage.splits)
qed (use assms in \<open>auto simp: on_snapshot_completed_def split: if_splits\<close>)

lemma operations_quiet:
  "on_bootstrap_failed sid err p s = Inr r \<Longrightarrow> no_consumption s r"
  "on_activation_succeeded sid tid ds s = Inr r \<Longrightarrow> no_consumption s r"
  "on_activation_failed sid tid err s = Inr r \<Longrightarrow> no_consumption s r"
  "on_turn_defect tid err s = Inr r \<Longrightarrow> no_consumption s r"
  "on_input_delivery_failed hs err s = Inr r \<Longrightarrow> no_consumption s r"
  "on_cleanup_succeeded s = Inr r \<Longrightarrow> no_consumption s r"
  "on_cleanup_failed err s = Inr r \<Longrightarrow> no_consumption s r"
  "on_invariant_failed err s = Inr r \<Longrightarrow> no_consumption s r"
  by (auto simp: on_bootstrap_failed_def on_activation_succeeded_def on_activation_failed_def
      on_turn_defect_def busy_failure_def on_input_delivery_failed_def on_cleanup_succeeded_def
      on_cleanup_failed_def on_invariant_failed_def finishDrainingOperation_def
      intro: failure_quiet fatal_quiet
      split: if_splits worker_phase.splits option.splits cleaning_stage.splits publication_state.splits)

lemma session_events_quiet:
  "on_runtime_started s = Inr r \<Longrightarrow> no_consumption s r"
  "on_session_tainted reason s = Inr r \<Longrightarrow> no_consumption s r"
  "on_stop_requested reason x s = Inr r \<Longrightarrow> no_consumption s r"
  "on_credential_sampled pid vs f s = Inr r \<Longrightarrow> no_consumption s r"
  "on_credential_sample_failed pid err s = Inr r \<Longrightarrow> no_consumption s r"
  by (auto simp: on_runtime_started_def on_session_tainted_def on_stop_requested_def
      on_credential_sampled_def on_credential_sample_failed_def armTimer_def
      split: if_splits worker_phase.splits option.splits)

lemma handler_quiet:
  assumes "handle_event e s = Inr r" "\<not> moves_inputs e"
  shows "no_consumption s r"
proof (cases e)
  case (ServerMessage m)
  with assms(2) have "\<nexists>ds. m = MsgInputBatch ds" by auto
  with assms(1) ServerMessage server_message_quiet show ?thesis by simp
qed (use assms in \<open>auto intro: failure_quiet timer_quiet connected_quiet snapshot_quiet
      operations_quiet session_events_quiet\<close>)

lemma inputs_bootstrap:
  assumes "inputs_once \<sigma> s h" "numbered \<sigma> (BootstrapSucceeded sid c) s"
    "on_bootstrap_succeeded sid c s = Inr (s', outs)"
  shows "inputs_once \<sigma> s' (h @ outs)"
proof (cases "matchesBootstrap s sid")
  case False
  with assms show ?thesis by (simp add: on_bootstrap_succeeded_def)
next
  case True
  with assms(3) have "inputQueue s' = enqueueInputs (inputQueue s) (fresh_inputs s (bc_pendingInputs c))"
    "lastSequenceConsumed s' = lastSequenceConsumed s" "consumed outs = []"
    by (auto simp: on_bootstrap_succeeded_def Let_def beginSnapshot_def armTimer_def throws_bind_Inr
        split: if_splits option.splits snapshot_policy.splits)
  with assms(1,2) show ?thesis by (intro inputs_enqueue) auto
qed

lemma inputs_delivered:
  assumes "inputs_once \<sigma> s h" "numbered \<sigma> (InputsDelivered hs ds m) s"
    "on_inputs_delivered hs ds m s = Inr (s', outs)"
  shows "inputs_once \<sigma> s' (h @ outs)"
proof (cases "(s', outs) = (s, [])")
  case True
  with assms(1) show ?thesis by simp
next
  case False
  let ?cs = "map (\<lambda>d. (di_inputId d, di_sequence d)) ds"
  from False assms(3) have r:
    "inputQueue s' = filter (\<lambda>i. in_inputId i \<notin> di_inputId ` set ds) (inputQueue s)"
    "lastSequenceConsumed s' = fold max (map di_sequence ds) (lastSequenceConsumed s)"
    "consumed outs = ?cs"
    by (auto simp: on_inputs_delivered_def consumed_map_facts split: if_splits)
  show ?thesis
    by (rule inputs_consume [OF assms(1), where cs = ?cs])
      (use assms(2) r in \<open>auto simp: comp_def image_image\<close>)
qed

lemma inputs_completed:
  assumes "inputs_once \<sigma> s h" "on_turn_completed tid res s = Inr (s', outs)"
  shows "inputs_once \<sigma> s' (h @ outs)"
proof (cases "matchesTurn s tid")
  case False
  with assms show ?thesis by (simp add: on_turn_completed_def)
next
  case True
  obtain n o1 where n: "removeAppliedTargeted (finishDrainingOperation s) (appliedTargetedInputs res) = (n, o1)"
    by fastforce
  have "inputs_once \<sigma> (finishDrainingOperation s) (h @ [])"
    using assms(1) by (rule inputs_frame)
      (auto simp: finishDrainingOperation_def split: worker_phase.splits)
  then have n1: "inputs_once \<sigma> n (h @ o1)" using inputs_applied n by simp
  have published: "no_consumption n r"
    if "publish_result s (mark_turn_completed s n) tid point p = Inr r" for point p r
    using that terminal_quiet [of "mark_turn_completed s n" n p]
    by (auto simp: publish_result_def beginSnapshot_def mark_turn_completed_def
        split: if_splits option.splits snapshot_policy.splits)
  have "\<exists>outs'. outs = o1 @ outs' \<and> no_consumption n (s', outs')"
  proof (cases res)
    case (ResultParked reason a)
    with assms(2) True n show ?thesis
      by (auto simp: on_turn_completed_def mark_turn_completed_def)
  next
    case (ResultOutcome t out p m a)
    with assms(2) True n show ?thesis
      by (auto simp: on_turn_completed_def throws_bind_Inr dest: published)
  next
    case (ResultFailed xf a)
    with assms(2) True n show ?thesis
      by (auto simp: on_turn_completed_def throws_bind_Inr dest: published)
  qed
  then obtain outs' where "outs = o1 @ outs'" "no_consumption n (s', outs')" by blast
  with inputs_quiet [OF n1] show ?thesis by simp
qed

lemma inputs_handler:
  assumes "inputs_once \<sigma> s h" "numbered \<sigma> e s" "handle_event (effective_event e) s = Inr (s', outs)"
  shows "inputs_once \<sigma> s' (h @ outs)"
proof (cases "moves_inputs (effective_event e)")
  case False
  with assms handler_quiet inputs_quiet show ?thesis by blast
next
  case True
  then have e: "effective_event e = e" by (cases e rule: effective_event.cases) auto
  with True consider (batch) ds where "e = ServerMessage (MsgInputBatch ds)"
    | (boot) sid c where "e = BootstrapSucceeded sid c"
    | (delivered) hs ds m where "e = InputsDelivered hs ds m"
    | (completed) tid r where "e = TurnCompletedEvent tid r"
    by (cases e rule: moves_inputs.cases) auto
  then show ?thesis
  proof cases
    case batch
    with assms e show ?thesis
      by (auto simp: on_input_batch_def inputDeliveryToItem_def intro: inputs_enqueue
          inputs_enqueue [where items = "map inputDeliveryToItem ds" and outs = "[]", simplified]
          split: if_splits)
  next
    case boot
    with assms e show ?thesis using inputs_bootstrap by simp
  next
    case delivered
    with assms e show ?thesis using inputs_delivered by simp
  next
    case completed
    with assms e show ?thesis using inputs_completed by simp
  qed
qed

interpretation input_numbering: trace_invariant "inputs_once \<sigma>" "numbered \<sigma>" for \<sigma>
proof
  fix s h e s' outs
  assume "inputs_once \<sigma> s h" "numbered \<sigma> e s" "handle_event (effective_event e) s = Inr (s', outs)"
  then show "inputs_once \<sigma> s' (h @ outs)" by (rule inputs_handler)
next
  fix s h s' outs
  assume "inputs_once \<sigma> s h" "finishReadying s = (s', outs)"
  then show "inputs_once \<sigma> s' (h @ outs)"
    by (auto simp: finishReadying_def beginActivation_def armTimer_def
        intro!: inputs_frame split: worker_phase.splits if_splits option.splits)
next
  fix s h r x s' outs
  assume "inputs_once \<sigma> s h" "begin_cleanup s r x = Inr (s', outs)"
  then show "inputs_once \<sigma> s' (h @ outs)"
    by (auto simp: begin_cleanup_def beginSnapshot_def throws_bind_Inr
        intro!: inputs_frame split: option.splits if_splits snapshot_policy.splits)
next
  fix s h items
  assume J: "inputs_once \<sigma> s h" and "input_decision s = EffectConsumeIgnored items"
  then obtain rest where "inputQueue s = items @ rest"
    using decide_ignored unfolding input_decision_def front_block_def by blast
  moreover have "distinct (map in_inputId (inputQueue s))"
    using J by (simp add: inputs_once_def queue_ok_def)
  ultimately show "inputs_once \<sigma> (consume_ignored s items) (h @ ignored_facts items)"
    using J
    by (intro inputs_consume [where cs = "map (\<lambda>i. (in_inputId i, in_sequence i)) items"])
      (auto simp: ignored_facts_def consumed_map_facts consume_ignored_def comp_def image_image)
qed (auto intro: inputs_frame)

lemma inputs_once_init: "inputs_once \<sigma> createInitialWorkerRuntimeState []"
  by (simp add: inputs_once_def createInitialWorkerRuntimeState_def queue_ok_def)

text \<open>
  C2. Over a whole run, no input is reported as consumed twice, every report carries the number
  the server gave that input, the consumption mark of the heartbeats covers every report, and an
  input that was reported is no longer queued, provided that the server numbers each input id once
  and that a delivery reports inputs of the queue. The queue itself stays sorted and free of
  duplicates.
\<close>

theorem inputs_consumed_exactly_once:
  assumes "run es = Inr (s, h)" "admitted (numbered \<sigma>) createInitialWorkerRuntimeState es"
  shows "distinct (map fst (consumed h)) \<and>
    (\<forall>(i, q) \<in> set (consumed h).
       q = \<sigma> i \<and> q \<le> lastSequenceConsumed s \<and> i \<notin> input_ids (inputQueue s)) \<and>
    queue_ok (inputQueue s)"
  using input_numbering.run_keeps [OF inputs_once_init assms(2,1)] by (simp add: inputs_once_def)

theorem inputs_consumed_exactly_once_witness:
  "\<exists>s h. run sample_turn = Inr (s, h) \<and> consumed h = [(''a'', 1), (''b'', 2)] \<and>
     distinct (map fst (consumed h)) \<and> (2::int) \<le> lastSequenceConsumed s"
proof -
  let ?\<sigma> = "\<lambda>i. if i = ''a'' then 1 else 2 :: int"
  have "case run sample_turn of Inr (s, h) \<Rightarrow> consumed h = [(''a'', 1), (''b'', 2)] | Inl _ \<Rightarrow> False"
    by code_simp
  then obtain s h where r: "run sample_turn = Inr (s, h)" "consumed h = [(''a'', 1), (''b'', 2)]"
    by (auto split: sum.splits prod.splits)
  have "admitted (numbered ?\<sigma>) createInitialWorkerRuntimeState sample_turn" by code_simp
  from inputs_consumed_exactly_once [OF r(1) this] r show ?thesis by auto
qed

end
