(* ===== verification/Worker_Terminal.thy ===== *)
theory Worker_Terminal
  imports Worker_Trace
begin

text \<open>
  The end of a turn: its terminal fact (\<open>worker.turn_outcome\<close> or \<open>worker.turn_failed\<close>) is the same
  whenever it is sent, an LLM turn's outcome follows its snapshot, and a fact that waits for the
  server's acknowledgement is kept and sent again until it is acknowledged.
\<close>

section \<open>Terminal facts of a run\<close>

definition sample_terminal :: pending_terminal where
  "sample_terminal = outcome_terminal ''turn'' ''done'' (JObj []) sample_meta"

definition sample_llm_state :: worker_state where
  "sample_llm_state = createInitialWorkerRuntimeState\<lparr>phase := Active ''start'' ''rec'' TurnCompleted,
     session := Some (sample_session\<lparr>ses_kind := LlmSession\<rparr>),
     work := \<lparr>deliveryHeadSequence = None,
       publication = TerminalSnapshot BeforeTurnOutcome ''rec'' sample_terminal\<rparr>\<rparr>"

fun terminal_of :: "worker_output \<Rightarrow> terminal_fact option" where
  "terminal_of (Protocol (TurnOutcome p)) = Some (OutcomeFact p)"
| "terminal_of (Protocol (TurnFailed p)) = Some (FailedFact p)"
| "terminal_of _ = None"

definition terminals :: "worker_output list \<Rightarrow> terminal_fact list" where
  "terminals outs = List.map_filter terminal_of outs"

lemma terminals_simps [simp]:
  "terminals [] = []"
  "terminals (x # outs) = (case terminal_of x of None \<Rightarrow> [] | Some f \<Rightarrow> [f]) @ terminals outs"
  "terminals (outs @ outs') = terminals outs @ terminals outs'"
  by (auto simp: terminals_def List.map_filter_def split: option.split)

lemma terminals_map [simp]: "(\<And>x. terminal_of (f x) = None) \<Longrightarrow> terminals (map f xs) = []"
  by (induction xs) auto

lemma terminal_of_protocol [simp]: "terminal_of (Protocol (terminal_protocol f)) = Some f"
  by (cases f) auto

lemma in_terminals: "f \<in> set (terminals h) \<longleftrightarrow> Protocol (terminal_protocol f) \<in> set h"
proof (induction h)
  case (Cons x h)
  have "terminal_of x = Some f \<longleftrightarrow> x = Protocol (terminal_protocol f)"
    by (cases x rule: terminal_of.cases; cases f) auto
  with Cons show ?case by (auto split: option.split)
qed simp

lemma terminals_none: "(\<And>p. Protocol p \<in> set outs \<Longrightarrow> (\<exists>q. p = LifecycleParked q) \<or> (\<exists>q. p = WorkerFailed q)) \<Longrightarrow>
   terminals outs = []"
proof (induction outs)
  case (Cons x outs)
  then have "terminal_of x = None" by (cases x rule: terminal_of.cases) auto
  with Cons show ?case by auto
qed simp

lemma terminals_quiet [simp]:
  "terminal_of (heartbeat_fact s ses) = None" "terminal_of (inputConsumedFact i q k m) = None"
  "terminals connected_facts = []" "terminals (bootstrap_diagnostics ds) = []"
  "terminals (ignored_facts items) = []"
  "terminal_of (credential_diagnostic c msg e) = None"
  by (simp_all add: heartbeat_fact_def connected_facts_def bootstrap_diagnostics_def ignored_facts_def
      inputConsumedFact_def credential_diagnostic_def)

lemma terminals_applied [simp]: "terminals (snd (removeAppliedTargeted s a)) = []"
proof -
  have "terminals (snd (snd (remove_applied a q l))) = []" for q l
    by (induction a q l rule: remove_applied.induct) (auto simp: Let_def split: prod.splits)
  then show ?thesis by (simp add: removeAppliedTargeted_def split_beta)
qed

text \<open>Phases in which the turn of the worker can still end.\<close>

fun turn_open :: "worker_phase \<Rightarrow> bool" where
  "turn_open (Active _ _ TurnCompleted) = False"
| "turn_open (Draining _ _ None) = False"
| "turn_open (Cleaning _ _ _) = False"
| "turn_open Exited = False"
| "turn_open _ = True"

text \<open>What may have been sent by the time a publication is reached.\<close>

fun sendable :: "publication_state \<Rightarrow> terminal_fact set" where
  "sendable (TerminalSnapshot _ _ _) = {}"
| "sendable (TerminalPendingAck t) = {pt_fact t}"
| "sendable _ = UNIV"

lemma sendable_other: "\<not> terminal_publication p \<Longrightarrow> sendable p = UNIV"
  by (cases p) auto

definition one_terminal :: "worker_state \<Rightarrow> worker_output list \<Rightarrow> bool" where
  "one_terminal s h \<longleftrightarrow>
     (\<forall>x \<in> set (terminals h). \<forall>y \<in> set (terminals h). x = y) \<and>
     (turn_open (phase s) \<longrightarrow> terminals h = [] \<and> \<not> terminal_publication (publication (work s))) \<and>
     set (terminals h) \<subseteq> sendable (publication (work s))"

lemma one_terminal_frame:
  assumes "one_terminal s h" "terminals outs = []"
    "publication (work s') = publication (work s) \<or> \<not> terminal_publication (publication (work s'))"
    "turn_open (phase s') \<Longrightarrow> turn_open (phase s)"
  shows "one_terminal s' (h @ outs)"
proof (cases "terminal_publication (publication (work s'))")
  case True
  with assms(3) have "publication (work s') = publication (work s)" by blast
  with assms(1,2,4) show ?thesis unfolding one_terminal_def by auto
next
  case False
  with assms(1,2,4) show ?thesis unfolding one_terminal_def sendable_other [OF False] by auto
qed

lemma one_terminal_same:
  assumes "one_terminal s h"
    "publication (work s') = publication (work s) \<or> \<not> terminal_publication (publication (work s'))"
    "turn_open (phase s') \<Longrightarrow> turn_open (phase s)"
  shows "one_terminal s' h"
  using one_terminal_frame [OF assms(1), of "[]" s'] assms by simp

text \<open>A failure that does not end the turn sends no terminal fact.\<close>

lemma one_terminal_failure:
  assumes "one_terminal s h" "failureOutputs s f = Inr (s', outs)" "\<not> ends_turn f"
  shows "one_terminal s' (h @ outs)"
proof (cases rule: failureOutputs_cases [of s f])
  case (same os)
  then have "terminals os = []" using assms(3) by (intro terminals_none) blast
  with same assms show ?thesis by (intro one_terminal_frame [OF assms(1)]) auto
next
  case (snapshot os fatal after src)
  then have "terminals os = []" by (intro terminals_none) blast
  with snapshot(1) assms(2) show ?thesis by (intro one_terminal_frame [OF assms(1)]) auto
next
  case (exits os os')
  then have "terminals os = []" "terminals os' = []" by (intro terminals_none; auto)+
  with exits(1) assms(2) show ?thesis by (intro one_terminal_frame [OF assms(1)]) auto
qed

text \<open>A failure that ends the turn sends one, in a state whose turn has ended with none sent.\<close>

lemma one_terminal_turn_failure:
  assumes "terminals h = []" "\<not> turn_open (phase s)" "publication (work s) = PubNone"
    "failureOutputs s f = Inr (s', outs)"
  shows "one_terminal s' (h @ outs)"
proof -
  have empty: "one_terminal s h" using assms by (simp add: one_terminal_def)
  show ?thesis
  proof (cases rule: failureOutputs_cases [of s f])
    case (same os)
    have failed: "\<exists>p. x = FailedFact p \<and> Protocol (TurnFailed p) \<in> set os" if "x \<in> set (terminals os)" for x
      using same(3) [of "terminal_protocol x"] that unfolding in_terminals by (cases x) auto
    have "x = y" if "x \<in> set (terminals os)" "y \<in> set (terminals os)" for x y
      using failed [OF that(1)] failed [OF that(2)] same(4) by blast
    with same(1) assms show ?thesis by (simp add: one_terminal_def)
  next
    case (snapshot os fatal after src)
    then have "terminals os = []" by (intro terminals_none) blast
    with snapshot(1) assms(4) show ?thesis by (intro one_terminal_frame [OF empty]) auto
  next
    case (exits os os')
    then have "terminals os = []" "terminals os' = []" by (intro terminals_none; auto)+
    with exits(1) assms(4) show ?thesis by (intro one_terminal_frame [OF empty]) auto
  qed
qed

lemma one_terminal_publish:
  assumes "one_terminal s h" "set (terminals h) \<subseteq> {pt_fact t}" "\<not> turn_open (phase n)"
    "terminals pre = []" "publishTerminalAndAwaitAcknowledgement n t = (s', outs)"
  shows "one_terminal s' (h @ pre @ outs)"
proof -
  have "terminals outs = [pt_fact t]" "publication (work s') = TerminalPendingAck t" "phase s' = phase n"
    using assms(5) by (auto simp: publishTerminalAndAwaitAcknowledgement_def armTimer_def
        split: option.splits)
  with assms(2-4) show ?thesis unfolding one_terminal_def by auto
qed

section \<open>The handlers\<close>

lemma one_terminal_server_message:
  assumes "one_terminal s h" "phase s \<noteq> Exited" "on_server_message m s = Inr (s', outs)"
    "\<nexists>r. m = MsgStop r"
  shows "one_terminal s' (h @ outs)"
  using assms
  by (cases m)
    (auto simp: on_start_def on_turn_start_accepted_def beginActivation_def
      on_turn_terminal_recorded_def on_credential_update_accepted_def on_input_batch_def
      intro!: one_terminal_frame intro: one_terminal_same
      split: if_splits worker_phase.splits publication_state.splits option.splits bool.splits)

lemma one_terminal_session_events:
  assumes "one_terminal s h" "phase s \<noteq> Exited"
  shows "on_runtime_started s = Inr (s', outs) \<Longrightarrow> one_terminal s' (h @ outs)"
    and "on_session_tainted r s = Inr (s', outs) \<Longrightarrow> one_terminal s' (h @ outs)"
    and "on_credential_sampled pid vs f s = Inr (s', outs) \<Longrightarrow> one_terminal s' (h @ outs)"
    and "on_credential_sample_failed pid err s = Inr (s', outs) \<Longrightarrow> one_terminal s' (h @ outs)"
  using assms
  by (auto simp: on_runtime_started_def on_session_tainted_def on_credential_sampled_def
      on_credential_sample_failed_def armTimer_def
      intro!: one_terminal_frame intro: one_terminal_same split: if_splits option.splits)

lemma one_terminal_stop:
  assumes "one_terminal s h" "phase s \<noteq> Exited" "on_stop_requested r x s = Inr (s', outs)"
  shows "one_terminal s' (h @ outs)"
proof (cases "(s', outs) = (s, [])")
  case False
  then have r: "s' = s\<lparr>phase := Draining r x (draining_operation_of (phase s)), timers := (\<lambda>_. None),
      credential := None\<rparr>" "terminals outs = []"
    using assms(3) by (auto simp: on_stop_requested_def split: worker_phase.splits)
  have "turn_open (phase s)" if "draining_operation_of (phase s) \<noteq> None"
    using that by (cases "phase s") (auto simp: draining_operation_of_def split: if_splits)
  with r assms(1) show ?thesis
    by (intro one_terminal_frame) (auto elim: turn_open.elims(2))
qed (use assms in simp)

lemma one_terminal_connected:
  assumes "one_terminal s h" "on_transport_connected s = Inr (s', outs)"
  shows "one_terminal s' (h @ outs)"
proof -
  let ?facts = "connected_facts @ (case session s of None \<Rightarrow> [] | Some ses \<Rightarrow> [heartbeat_fact s ses])"
  have quiet: "terminals ?facts = []" by (simp split: option.split)
  show ?thesis
  proof (cases "\<exists>t. publication (work s) = TerminalPendingAck t")
    case True
    then obtain t where t: "publication (work s) = TerminalPendingAck t" by blast
    then have "set (terminals h) \<subseteq> {pt_fact t}" "\<not> turn_open (phase s)"
      using assms(1) by (auto simp: one_terminal_def)
    from one_terminal_publish [OF assms(1) this quiet] show ?thesis
      using assms(2) t by (auto simp: on_transport_connected_def Let_def split: prod.splits)
  next
    case False
    then have "s' = s" "outs = ?facts" using assms(2)
      by (auto simp: on_transport_connected_def Let_def split: publication_state.splits)
    then show ?thesis using one_terminal_frame [OF assms(1) quiet] by simp
  qed
qed

lemma one_terminal_timer:
  assumes "one_terminal s h" "on_timer_fired name cor s = Inr (s', outs)"
  shows "one_terminal s' (h @ outs)"
proof (cases "\<exists>t. publication (work s) = TerminalPendingAck t \<and> name = TerminalAck")
  case True
  then obtain t where t: "publication (work s) = TerminalPendingAck t" "name = TerminalAck" by blast
  then have sent: "set (terminals h) \<subseteq> {pt_fact t}" "\<not> turn_open (phase s)"
    using assms(1) by (auto simp: one_terminal_def)
  from one_terminal_publish [OF assms(1) sent(1), where pre = "[]" and
      n = "s\<lparr>timers := (timers s)(TerminalAck := None)\<rparr>"] show ?thesis
    using assms t sent(2) by (auto simp: on_timer_fired_def Let_def intro: one_terminal_same split: if_splits)
next
  case False
  with assms show ?thesis
    by (cases name)
      (auto simp: on_timer_fired_def Let_def armTimer_def
        intro!: one_terminal_frame intro: one_terminal_same
        split: if_splits option.splits worker_phase.splits publication_state.splits)
qed

lemma one_terminal_bootstrap:
  assumes "one_terminal s h" "on_bootstrap_succeeded sid c s = Inr (s', outs)"
  shows "one_terminal s' (h @ outs)"
proof (cases "matchesBootstrap s sid")
  case True
  then have "turn_open (phase s)"
    by (auto simp: matchesBootstrap_def split: worker_phase.splits option.splits)
  moreover have "terminals outs = []"
    "publication (work s') = publication (work s) \<or> publication (work s') = ReadySnapshot"
    using assms(2) True
    by (auto simp: on_bootstrap_succeeded_def Let_def beginSnapshot_def armTimer_def throws_bind_Inr
        split: if_splits option.splits snapshot_policy.splits)
  ultimately show ?thesis using assms(1) by (intro one_terminal_frame) auto
qed (use assms in \<open>simp add: on_bootstrap_succeeded_def\<close>)

lemma finishDraining_open: "turn_open (phase (finishDrainingOperation s)) \<Longrightarrow> turn_open (phase s)"
  by (auto simp: finishDrainingOperation_def split: worker_phase.splits)

lemma finishDraining_work [simp]: "work (finishDrainingOperation s) = work s"
  by (simp add: finishDrainingOperation_def split: worker_phase.split)

lemma one_terminal_operations:
  assumes "one_terminal s h"
  shows "on_bootstrap_failed sid err p s = Inr (s', outs) \<Longrightarrow> one_terminal s' (h @ outs)"
    and "on_activation_failed sid tid err s = Inr (s', outs) \<Longrightarrow> one_terminal s' (h @ outs)"
    and "on_turn_defect tid err s = Inr (s', outs) \<Longrightarrow> one_terminal s' (h @ outs)"
    and "on_cleanup_failed err s = Inr (s', outs) \<Longrightarrow> one_terminal s' (h @ outs)"
    and "on_invariant_failed err s = Inr (s', outs) \<Longrightarrow> one_terminal s' (h @ outs)"
  using assms
  by (auto simp: on_bootstrap_failed_def on_activation_failed_def on_turn_defect_def busy_failure_def
      on_cleanup_failed_def on_invariant_failed_def
      intro: one_terminal_failure one_terminal_same finishDraining_open
      split: if_splits worker_phase.splits cleaning_stage.splits option.splits)

lemma one_terminal_activated:
  assumes "one_terminal s h" "on_activation_succeeded sid tid ds s = Inr (s', outs)"
  shows "one_terminal s' (h @ outs)"
  using assms
  by (auto simp: on_activation_succeeded_def matchesActivation_def intro!: one_terminal_frame
      split: if_splits worker_phase.splits option.splits)

lemma one_terminal_inputs:
  assumes "one_terminal s h"
  shows "on_inputs_delivered hs ds m s = Inr (s', outs) \<Longrightarrow> one_terminal s' (h @ outs)"
    and "on_input_delivery_failed hs err s = Inr (s', outs) \<Longrightarrow> one_terminal s' (h @ outs)"
proof -
  assume "on_inputs_delivered hs ds m s = Inr (s', outs)"
  then show "one_terminal s' (h @ outs)" using assms(1)
    by (auto simp: on_inputs_delivered_def intro!: one_terminal_frame split: if_splits)
next
  have "one_terminal (set_deliveryHead None s) h" using assms(1) by (rule one_terminal_same) simp_all
  moreover assume "on_input_delivery_failed hs err s = Inr (s', outs)"
  ultimately show "one_terminal s' (h @ outs)" using assms
    by (auto simp: on_input_delivery_failed_def intro: one_terminal_failure split: if_splits)
qed

lemma one_terminal_fatal:
  assumes "one_terminal s h" "finishFatal s f = (s', outs)"
  shows "one_terminal s' (h @ outs)"
  using assms by (auto simp: finishFatal_def intro!: one_terminal_frame split: option.splits)

lemma one_terminal_completed:
  assumes "one_terminal s h" "on_turn_completed tid res s = Inr (s', outs)"
  shows "one_terminal s' (h @ outs)"
proof (cases "matchesTurn s tid")
  case True
  obtain n o1 where n: "removeAppliedTargeted (finishDrainingOperation s) (appliedTargetedInputs res) = (n, o1)"
    by fastforce
  let ?n = "mark_turn_completed s n"
  have quiet: "terminals o1 = []"
    using terminals_applied [of "finishDrainingOperation s" "appliedTargetedInputs res"] n by simp
  have ph: "phase n = phase (finishDrainingOperation s)" "work n = work s"
    using n by (auto simp: removeAppliedTargeted_def split_beta Let_def)
  have "turn_open (phase s)" and closed: "\<not> turn_open (phase ?n)"
    using True ph by (auto simp: matchesTurn_def mark_turn_completed_def finishDrainingOperation_def
        split: worker_phase.splits option.splits draining_operation.splits)
  then have none: "terminals h = []" "\<not> terminal_publication (publication (work s))"
    using assms(1) by (auto simp: one_terminal_def)
  have J: "one_terminal ?n (h @ o1)"
    using assms(1) quiet closed ph by (intro one_terminal_frame) (auto simp: mark_turn_completed_def)
  have published: "one_terminal t (h @ o1 @ os)"
    if "publish_result s ?n tid point p = Inr (t, os)" for point p t os
  proof (cases "publishTerminalAndAwaitAcknowledgement ?n p = (t, os)")
    case True
    then show ?thesis using one_terminal_publish [OF J _ closed, of p "[]"] none quiet by simp
  next
    case False
    with that have "terminals os = [] \<and> (t = ?n \<or> t = set_publication (TerminalSnapshot point tid p) ?n)"
      by (auto simp: publish_result_def beginSnapshot_def
          split: if_splits option.splits snapshot_policy.splits)
    then show ?thesis using J none quiet closed by (auto simp: one_terminal_def)
  qed
  show ?thesis
  proof (cases res)
    case (ResultParked reason a)
    with assms(2) True n one_terminal_frame [OF J] show ?thesis
      by (auto simp: on_turn_completed_def)
  qed (use assms(2) True n in \<open>auto simp: on_turn_completed_def throws_bind_Inr dest: published\<close>)
qed (use assms in \<open>simp add: on_turn_completed_def\<close>)

lemma one_terminal_snapshot:
  assumes "one_terminal s h" "on_snapshot_completed point turn err s = Inr (s', outs)"
  shows "one_terminal s' (h @ outs)"
proof -
  have cleared: "one_terminal (set_publication PubNone s) h"
    using assms(1) by (rule one_terminal_same) simp_all
  show ?thesis
  proof (cases "publication (work s)")
    case (TerminalSnapshot p t terminal)
    then have none: "terminals h = []" "\<not> turn_open (phase s)"
      using assms(1) by (auto simp: one_terminal_def)
    with assms TerminalSnapshot one_terminal_publish [OF assms(1) _ none(2), of terminal "[]"]
      one_terminal_turn_failure [OF none(1), of "set_publication PubNone s"] show ?thesis
      by (auto simp: on_snapshot_completed_def split: if_splits option.splits)
  next
    case CleanupSnapshot
    with assms one_terminal_failure [OF cleared] show ?thesis
      by (auto simp: on_snapshot_completed_def intro!: one_terminal_frame
          split: if_splits option.splits worker_phase.splits cleaning_stage.splits)
  next
    case (FatalSnapshot fatal after)
    with assms one_terminal_fatal [OF assms(1)] show ?thesis
      by (auto simp: on_snapshot_completed_def intro!: one_terminal_frame
          split: if_splits after_snapshot.splits worker_phase.splits cleaning_stage.splits)
  qed (use assms cleared in \<open>auto simp: on_snapshot_completed_def split: if_splits\<close>)
qed

lemma one_terminal_cleaned:
  assumes "one_terminal s h" "on_cleanup_succeeded s = Inr (s', outs)"
  shows "one_terminal s' (h @ outs)"
  using assms one_terminal_fatal [OF assms(1)]
  by (auto simp: on_cleanup_succeeded_def intro!: one_terminal_frame
      split: worker_phase.splits cleaning_stage.splits publication_state.splits if_splits)

lemma one_terminal_handler:
  assumes "one_terminal s h" "phase s \<noteq> Exited" "handle_event (effective_event e) s = Inr (s', outs)"
  shows "one_terminal s' (h @ outs)"
proof (cases "effective_event e")
  case (ServerMessage m)
  then have "\<nexists>r. m = MsgStop r" by (cases e rule: effective_event.cases) auto
  with assms ServerMessage one_terminal_server_message show ?thesis by simp
next
  case PiTurnStarted
  with assms show ?thesis by (auto intro: one_terminal_same)
next
  case PiTurnEnded
  with assms show ?thesis by (auto intro: one_terminal_same)
qed (use assms one_terminal_stop [OF assms(1,2)] one_terminal_session_events [OF assms(1,2)]
      one_terminal_failure [OF assms(1)] one_terminal_connected [OF assms(1)]
      one_terminal_timer [OF assms(1)] one_terminal_bootstrap [OF assms(1)]
      one_terminal_activated [OF assms(1)] one_terminal_operations [OF assms(1)]
      one_terminal_inputs [OF assms(1)] one_terminal_completed [OF assms(1)]
      one_terminal_snapshot [OF assms(1)] one_terminal_cleaned [OF assms(1)] in simp_all)

interpretation terminal_facts: trace_invariant one_terminal "\<lambda>_ _. True"
proof
  fix s h e s' outs
  assume "one_terminal s h" "phase s \<noteq> Exited" "handle_event (effective_event e) s = Inr (s', outs)"
  then show "one_terminal s' (h @ outs)" by (rule one_terminal_handler)
next
  fix s h s' outs
  assume "one_terminal s h" "finishReadying s = (s', outs)"
  then show "one_terminal s' (h @ outs)"
    by (auto simp: finishReadying_def beginActivation_def armTimer_def
        intro!: one_terminal_frame split: worker_phase.splits if_splits option.splits)
next
  fix s h r x s' outs
  assume "one_terminal s h" "begin_cleanup s r x = Inr (s', outs)"
  then show "one_terminal s' (h @ outs)"
    by (auto simp: begin_cleanup_def beginSnapshot_def throws_bind_Inr
        intro!: one_terminal_frame split: option.splits if_splits snapshot_policy.splits)
next
  fix s h items
  assume "one_terminal s h"
  then show "one_terminal (consume_ignored s items) (h @ ignored_facts items)"
    by (rule one_terminal_frame) (simp_all add: consume_ignored_def)
next
  fix s h sid tid ses items
  assume "one_terminal s h" "phase s = Active sid tid TurnPending"
  then show "one_terminal (s\<lparr>phase := Active sid tid TurnExecuting\<rparr>)
      (h @ [Command (CmdExecuteTurn tid items ses)])"
    by (intro one_terminal_frame) auto
qed (auto intro: one_terminal_frame)

lemma run_one_terminal: "run es = Inr (s, h) \<Longrightarrow> one_terminal s h"
proof -
  have "one_terminal createInitialWorkerRuntimeState []"
    by (simp add: one_terminal_def createInitialWorkerRuntimeState_def)
  then show "run es = Inr (s, h) \<Longrightarrow> one_terminal s h" using terminal_facts.run_keeps by simp
qed

section \<open>Pending acknowledgements\<close>

definition awaits :: "pending_terminal \<Rightarrow> worker_state \<Rightarrow> bool" where
  "awaits t s \<longleftrightarrow> \<not> turn_open (phase s) \<and> (phase s = Exited \<or> publication (work s) = TerminalPendingAck t)"

lemma awaits_failure:
  assumes "publication (work s) = TerminalPendingAck t" "\<not> turn_open (phase s)"
    "failureOutputs s f = Inr (s', outs)"
  shows "awaits t s'"
  by (cases rule: failureOutputs_cases [of s f]) (use assms in \<open>auto simp: awaits_def\<close>)

lemma awaits_handler:
  assumes "awaits t s" "phase s \<noteq> Exited"
    "e \<noteq> ServerMessage (MsgTurnTerminalRecorded (cor_turnRecordId (pt_correlation t)))"
    "handle_event (effective_event e) s = Inr (s', outs)"
  shows "awaits t s'"
proof -
  from assms(1,2) have pub: "publication (work s) = TerminalPendingAck t" and closed: "\<not> turn_open (phase s)"
    by (auto simp: awaits_def)
  note fails = awaits_failure [OF pub closed] awaits_failure [of "set_deliveryHead None s" t]
  have nomatch: "\<not> matchesBootstrap s sid" "\<not> matchesActivation s sid tid" "\<not> matchesTurn s tid" for sid tid
    using closed by (auto simp: matchesBootstrap_def matchesActivation_def matchesTurn_def
        split: worker_phase.splits option.splits draining_operation.splits)
  show ?thesis
  proof (cases "effective_event e")
    case (ServerMessage m)
    then have e: "e = ServerMessage m" by (cases e rule: effective_event.cases) auto
    show ?thesis
      using assms(3,4) pub closed unfolding ServerMessage e
      by (cases m)
        (auto simp: awaits_def on_start_def on_turn_start_accepted_def on_turn_terminal_recorded_def
          on_credential_update_accepted_def on_input_batch_def on_stop_requested_def
          draining_operation_of_def
          split: if_splits worker_phase.splits option.splits bool.splits elim: turn_open.elims)
  next
    case (StopRequested r x)
    with assms(4) pub closed show ?thesis
      by (cases "phase s") (auto simp: awaits_def on_stop_requested_def draining_operation_of_def
          elim: turn_open.elims)
  next
    case (TimerFired name cor)
    with assms(4) pub closed show ?thesis
      by (cases name) (auto simp: awaits_def on_timer_fired_def Let_def armTimer_def
          publishTerminalAndAwaitAcknowledgement_def
          split: if_splits option.splits worker_phase.splits)
  next
    case CleanupSucceeded
    with assms(4) pub closed show ?thesis
      by (auto simp: awaits_def on_cleanup_succeeded_def split: worker_phase.splits cleaning_stage.splits)
  next
    case (CleanupFailed err)
    with assms(4) pub closed fails show ?thesis
      by (auto simp: awaits_def on_cleanup_failed_def split: worker_phase.splits cleaning_stage.splits)
  qed (use assms(4) pub closed fails nomatch in \<open>auto simp: awaits_def on_runtime_started_def
        on_transport_connected_def publishTerminalAndAwaitAcknowledgement_def armTimer_def Let_def
        on_session_tainted_def on_bootstrap_succeeded_def on_bootstrap_failed_def
        on_activation_succeeded_def on_activation_failed_def on_turn_defect_def on_turn_completed_def
        on_inputs_delivered_def on_input_delivery_failed_def on_snapshot_completed_def snapshotMatches_def
        on_credential_sampled_def on_credential_sample_failed_def on_invariant_failed_def
        split: if_splits option.splits\<close>)
qed

interpretation pending_ack: trace_invariant "\<lambda>s h. awaits t s"
    "\<lambda>e s. e \<noteq> ServerMessage (MsgTurnTerminalRecorded (cor_turnRecordId (pt_correlation t)))" for t
proof
  fix s s' e and outs :: "worker_output list"
  assume "awaits t s" "phase s \<noteq> Exited"
    "e \<noteq> ServerMessage (MsgTurnTerminalRecorded (cor_turnRecordId (pt_correlation t)))"
    "handle_event (effective_event e) s = Inr (s', outs)"
  then show "awaits t s'" by (rule awaits_handler)
next
  fix s s' and outs :: "worker_output list"
  assume "awaits t s" "finishReadying s = (s', outs)"
  then show "awaits t s'"
    by (auto simp: awaits_def finishReadying_def split: worker_phase.splits)
next
  fix s s' r x and outs :: "worker_output list"
  assume "awaits t s" "phase s = Draining r x None" "publication (work s) = PubNone"
  then show "awaits t s'" by (simp add: awaits_def)
qed (auto simp: awaits_def consume_ignored_def)

lemma admitted_events: "e \<notin> set es \<Longrightarrow> admitted (\<lambda>e' _. e' \<noteq> e) s es"
  by (induction es arbitrary: s) (auto split: sum.splits)

lemma publish_sends:
  "{Protocol (terminal_protocol (pt_fact t)),
     Command (CmdArmTimer TerminalAck TERMINAL_ACK_RETRY_MS (cor_turnRecordId (pt_correlation t)))}
   \<subseteq> set (snd (publishTerminalAndAwaitAcknowledgement s t))"
  by (simp add: publishTerminalAndAwaitAcknowledgement_def armTimer_def split: option.split)

lemma reduce_outputs:
  assumes "reduceWorkerRuntime s e = Inr (s', outs)" "phase s \<noteq> Exited"
    "handle_event (effective_event e) s = Inr (n, o1)"
  shows "set o1 \<subseteq> set outs"
  using assms
  by (auto simp: reduceWorkerRuntime_def throws_bind_Inr withReportedTransition_def Let_def)

section \<open>Where outcomes come from\<close>

abbreviation reports_outcome :: "turn_outcome_payload \<Rightarrow> worker_output list \<Rightarrow> bool" where
  "reports_outcome p outs \<equiv> Protocol (TurnOutcome p) \<in> set outs"

text \<open>Only handlers report outcomes: nothing that \<open>advance\<close> does afterwards.\<close>

interpretation outcome_source: trace_invariant "\<lambda>s h. \<not> reports_outcome p h"
    "\<lambda>e s. \<forall>n outs. handle_event (effective_event e) s = Inr (n, outs) \<longrightarrow> \<not> reports_outcome p outs" for p
  by unfold_locales
    (auto simp: finishReadying_def beginActivation_def armTimer_def begin_cleanup_def beginSnapshot_def
      throws_bind_Inr ignored_facts_def inputConsumedFact_def
      split: worker_phase.splits if_splits option.splits snapshot_policy.splits)

lemma outcome_from_handler:
  assumes "reduceWorkerRuntime s e = Inr (s', outs)" "reports_outcome p outs"
  shows "\<exists>n o1. handle_event (effective_event e) s = Inr (n, o1) \<and> reports_outcome p o1"
  using outcome_source.reduce_keeps [of p "[]" e s s' outs] assms by auto

lemma failure_no_outcome:
  "failureOutputs s f = Inr (n, outs) \<Longrightarrow> \<not> reports_outcome p outs"
  by (cases rule: failureOutputs_cases [of s f]) fastforce+

lemma publish_outcome:
  "publishTerminalAndAwaitAcknowledgement s t = (n, outs) \<Longrightarrow> reports_outcome p outs \<Longrightarrow>
   pt_fact t = OutcomeFact p"
  by (cases "pt_fact t")
    (auto simp: publishTerminalAndAwaitAcknowledgement_def armTimer_def split: option.splits)

lemma applied_no_outcome: "removeAppliedTargeted s a = (n, outs) \<Longrightarrow> \<not> reports_outcome p outs"
  using terminals_applied [of s a] in_terminals [of "OutcomeFact p" outs] by simp

lemma connected_outcome:
  assumes "on_transport_connected s = Inr (n, outs)" "reports_outcome p outs"
  shows "\<exists>t. publication (work s) = TerminalPendingAck t \<and> pt_fact t = OutcomeFact p"
  using assms publish_outcome
  by (fastforce simp: on_transport_connected_def connected_facts_def heartbeat_fact_def Let_def
      split: publication_state.splits option.splits prod.splits)

lemma timer_outcome:
  assumes "on_timer_fired name cor s = Inr (n, outs)" "reports_outcome p outs"
  shows "\<exists>t. publication (work s) = TerminalPendingAck t \<and> pt_fact t = OutcomeFact p"
  using assms
  by (cases name)
    (auto simp: on_timer_fired_def Let_def armTimer_def heartbeat_fact_def dest: publish_outcome
      split: if_splits option.splits worker_phase.splits publication_state.splits)

lemma completed_outcome:
  assumes "on_turn_completed tid res s = Inr (n, outs)" "session s = Some ses" "ses_kind ses = LlmSession"
  shows "\<not> reports_outcome p outs"
proof -
  have "\<not> reports_outcome p os" if "publish_result s n' tid point q = Inr (n'', os)" for n' point q n'' os
    using that assms(2,3)
    by (auto simp: publish_result_def beginSnapshot_def split: if_splits snapshot_policy.splits)
  then show ?thesis using assms(1) applied_no_outcome
    by (auto simp: on_turn_completed_def throws_bind_Inr Let_def
        split: if_splits turn_execution_result.splits prod.splits)
qed

lemma snapshot_outcome:
  assumes "on_snapshot_completed point turn err s = Inr (n, outs)" "reports_outcome p outs"
  shows "err = None \<and> (\<exists>tid t. turn = Some tid \<and> publication (work s) = TerminalSnapshot point tid t \<and>
    pt_fact t = OutcomeFact p)"
proof (cases "publication (work s)")
  case (TerminalSnapshot point' tid t)
  with assms show ?thesis using failure_no_outcome publish_outcome
    by (auto simp: on_snapshot_completed_def snapshotMatches_def split: if_splits option.splits)
qed (use assms failure_no_outcome in \<open>auto simp: on_snapshot_completed_def finishFatal_def
      split: if_splits option.splits after_snapshot.splits worker_phase.splits cleaning_stage.splits\<close>)

lemma handler_outcome:
  assumes "handle_event e s = Inr (n, outs)" "reports_outcome p outs"
    "session s = Some ses" "ses_kind ses = LlmSession"
  shows "(\<exists>t. publication (work s) = TerminalPendingAck t \<and> pt_fact t = OutcomeFact p) \<or>
    (\<exists>point turn t. e = SnapshotSucceeded point (Some turn) \<and>
       publication (work s) = TerminalSnapshot point turn t \<and> pt_fact t = OutcomeFact p)"
proof (cases e)
  case TransportConnected
  with assms connected_outcome show ?thesis by simp
next
  case (TimerFired name cor)
  with assms timer_outcome show ?thesis by simp
next
  case (TurnCompletedEvent tid r)
  with assms completed_outcome show ?thesis by simp
next
  case (SnapshotSucceeded point turn)
  with assms snapshot_outcome [of point turn None] show ?thesis by auto
next
  case (SnapshotFailed point turn err)
  with assms snapshot_outcome [of point turn "Some err" s n outs p] show ?thesis by simp
next
  case (ServerMessage m)
  with assms show ?thesis
    by (cases m)
      (auto simp: on_start_def on_turn_start_accepted_def beginActivation_def on_input_batch_def
        on_turn_terminal_recorded_def on_credential_update_accepted_def credential_diagnostic_def
        on_stop_requested_def
        split: if_splits worker_phase.splits publication_state.splits option.splits bool.splits)
next
  case (BootstrapSucceeded sid c)
  with assms show ?thesis
    by (auto simp: on_bootstrap_succeeded_def Let_def beginSnapshot_def armTimer_def throws_bind_Inr
        bootstrap_diagnostics_def split: if_splits option.splits snapshot_policy.splits)
next
  case CleanupSucceeded
  with assms show ?thesis
    by (auto simp: on_cleanup_succeeded_def finishFatal_def
        split: worker_phase.splits cleaning_stage.splits publication_state.splits if_splits option.splits)
qed (use assms in \<open>auto simp: on_runtime_started_def connected_facts_def on_stop_requested_def
      on_session_tainted_def on_bootstrap_failed_def on_activation_succeeded_def bootstrap_diagnostics_def
      on_activation_failed_def on_turn_defect_def busy_failure_def on_inputs_delivered_def
      inputConsumedFact_def on_input_delivery_failed_def on_credential_sampled_def armTimer_def
      on_credential_sample_failed_def credential_diagnostic_def on_cleanup_failed_def
      on_invariant_failed_def dest!: failure_no_outcome [where p = p]
      split: if_splits worker_phase.splits option.splits cleaning_stage.splits\<close>)

section \<open>Properties\<close>

text \<open>
  C1. A worker never contradicts itself about its turn: all terminal facts a run sends, however
  often they are sent again, are the same fact, so that a run never reports two different
  outcomes, two different failures, or an outcome and a failure. While the turn can still end,
  none has been sent.
\<close>

theorem terminal_facts_agree:
  assumes "run es = Inr (s, h)"
    and "Protocol (terminal_protocol f) \<in> set h" "Protocol (terminal_protocol g) \<in> set h"
  shows "f = g \<and> \<not> turn_open (phase s)"
  using run_one_terminal [OF assms(1)] assms(2,3)
  by (auto simp: one_terminal_def in_terminals [symmetric])

lemma sample_turn_awaits:
  "\<exists>s h. run sample_turn = Inr (s, h) \<and> publication (work s) = TerminalPendingAck sample_terminal \<and>
     phase s = Active ''start'' ''rec'' TurnCompleted \<and>
     Protocol (terminal_protocol (pt_fact sample_terminal)) \<in> set h"
proof -
  have "case run sample_turn of
      Inr (s, h) \<Rightarrow> publication (work s) = TerminalPendingAck sample_terminal \<and>
        phase s = Active ''start'' ''rec'' TurnCompleted \<and>
        Protocol (terminal_protocol (pt_fact sample_terminal)) \<in> set h
    | Inl _ \<Rightarrow> False"
    by code_simp
  then show ?thesis by (simp split: sum.splits prod.splits)
qed

theorem terminal_facts_agree_witness:
  "\<exists>s h. run sample_turn = Inr (s, h) \<and> Protocol (terminal_protocol (pt_fact sample_terminal)) \<in> set h \<and>
     \<not> turn_open (phase s)"
  using sample_turn_awaits terminal_facts_agree [of sample_turn] by blast

text \<open>
  C3. A terminal fact that waits for the server's acknowledgement is never lost: from a reachable
  state that awaits it, any further events short of that acknowledgement (reconnects, timers,
  stop requests, completions, failures) leave it pending unless the worker exits.
\<close>

theorem pending_terminal_is_kept:
  assumes "run es = Inr (s, h)" "publication (work s) = TerminalPendingAck t"
    and "ServerMessage (MsgTurnTerminalRecorded (cor_turnRecordId (pt_correlation t))) \<notin> set es'"
    and "run_from s h es' = Inr (s', h')"
  shows "phase s' = Exited \<or> publication (work s') = TerminalPendingAck t"
proof -
  have "awaits t s"
    using run_one_terminal [OF assms(1)] assms(2) by (auto simp: awaits_def one_terminal_def)
  moreover have "admitted (\<lambda>e s. e \<noteq> ServerMessage (MsgTurnTerminalRecorded
      (cor_turnRecordId (pt_correlation t)))) s es'"
    using assms(3) by (rule admitted_events)
  ultimately have "awaits t s'" using pending_ack.run_keeps assms(4) by blast
  then show ?thesis by (simp add: awaits_def)
qed

theorem pending_terminal_is_kept_witness:
  "\<exists>s h s' h'. run sample_turn = Inr (s, h) \<and>
     run_from s h [TransportConnected, ServerMessage (MsgStop ''bye'')] = Inr (s', h') \<and>
     publication (work s') = TerminalPendingAck sample_terminal"
proof -
  let ?es = "[TransportConnected, ServerMessage (MsgStop ''bye'')]"
  obtain s h where r: "run sample_turn = Inr (s, h)" "publication (work s) = TerminalPendingAck sample_terminal"
    using sample_turn_awaits by blast
  have "case run (sample_turn @ ?es) of Inr (s, h) \<Rightarrow> phase s \<noteq> Exited | Inl _ \<Rightarrow> False"
    by code_simp
  then have "\<exists>s' h'. run_from s h ?es = Inr (s', h') \<and> phase s' \<noteq> Exited"
    using r(1) by (simp add: run_from_append split: sum.splits prod.splits)
  then obtain s' h' where r': "run_from s h ?es = Inr (s', h')" "phase s' \<noteq> Exited" by blast
  from pending_terminal_is_kept [OF r _ r'(1)] r' r(1) show ?thesis by auto
qed

text \<open>
  A pending terminal fact is sent again on every reconnect and whenever its retry timer fires,
  and the retry timer is armed again each time.
\<close>

lemma pending_terminal_is_resent:
  assumes "publication (work s) = TerminalPendingAck t"
    and "e = TransportConnected \<or>
      (e = TimerFired TerminalAck (cor_turnRecordId (pt_correlation t)) \<and>
       timers s TerminalAck = Some (cor_turnRecordId (pt_correlation t)))"
    and "phase s \<noteq> Exited" "reduceWorkerRuntime s e = Inr (s', outs)"
  shows "Protocol (terminal_protocol (pt_fact t)) \<in> set outs \<and>
    Command (CmdArmTimer TerminalAck TERMINAL_ACK_RETRY_MS (cor_turnRecordId (pt_correlation t))) \<in> set outs"
proof -
  from assms(2) have "\<exists>n n' pre. handle_event (effective_event e) s =
      Inr (n', pre @ snd (publishTerminalAndAwaitAcknowledgement n t))"
  proof
    assume "e = TransportConnected"
    then show ?thesis using assms(1)
      by (simp add: on_transport_connected_def Let_def split_beta) (metis append_assoc)
  next
    let ?n = "s\<lparr>timers := (timers s)(TerminalAck := None)\<rparr>"
    assume "e = TimerFired TerminalAck (cor_turnRecordId (pt_correlation t)) \<and>
       timers s TerminalAck = Some (cor_turnRecordId (pt_correlation t))"
    then have "handle_event (effective_event e) s = Inr (fst (publishTerminalAndAwaitAcknowledgement ?n t),
        [] @ snd (publishTerminalAndAwaitAcknowledgement ?n t))"
      using assms(1) by (simp add: on_timer_fired_def Let_def)
    then show ?thesis by blast
  qed
  then obtain n n' pre where handled: "handle_event (effective_event e) s =
      Inr (n', pre @ snd (publishTerminalAndAwaitAcknowledgement n t))" by blast
  show ?thesis using reduce_outputs [OF assms(4,3) handled] publish_sends [of t n] by auto
qed



end
