(* ===== verification/Worker_Safety.thy ===== *)
theory Worker_Safety
  imports Worker_Trace
begin

text \<open>
  When the reducer throws. Its throws guard the publication slot (a snapshot started while another
  publication is active, a snapshot that completes in the wrong phase) and two policies; the
  invariant \<open>slot_ok\<close> ties the slot to the phase and rules all of them out.
\<close>

section \<open>Throws that cannot happen in any state\<close>

lemma begin_cleanup_total:
  "publication (work s) = PubNone \<Longrightarrow> \<exists>r. begin_cleanup s reason x = Inr r"
  by (auto simp: begin_cleanup_def beginSnapshot_def hasActivePublication_def throws_bind_Inr
      split: option.splits snapshot_policy.splits)

lemma advance_total: "\<exists>r. advance s = Inr r"
proof (induction s rule: advance.induct)
  case (1 s)
  let ?n = "fst (finishReadying s)"
  show ?case
  proof (cases "noActiveWork ?n")
    case True
    then obtain r x where "phase ?n = Draining r x None" "publication (work ?n) = PubNone"
      using noActiveWork_draining [of ?n] by (auto simp: noActiveWork_def)
    with True begin_cleanup_total [of ?n r x] show ?thesis
      by (subst advance.simps) (auto simp: Let_def throws_bind_Inr)
  next
    case False
    show ?thesis
    proof (cases "may_take_inputs ?n \<and> \<not> waits_as_llm ?n")
      case True
      with False 1 [OF refl refl False] show ?thesis
        by (subst advance.simps)
          (auto simp: Let_def throws_bind_Inr split: input_effect.split option.split worker_phase.split)
    next
      case False
      with \<open>\<not> noActiveWork ?n\<close> show ?thesis by (subst advance.simps) (auto simp: Let_def)
    qed
  qed
qed

text \<open>The policies that the turn-completion branch double-checks always agree with it.\<close>

lemma llm_turn_snapshot_required:
  "point = BeforeTurnOutcome \<or> point = BeforeTurnFailed \<Longrightarrow>
     resolveWorkerSnapshotPolicy point LlmSession pi = Upload True True"
  by (auto simp: resolveWorkerSnapshotPolicy_def)

lemma failed_terminal_total: "\<exists>p. failed_terminal s xf = Inr p"
  by (simp add: failed_terminal_def Let_def)

section \<open>The publication slot and the phase\<close>

definition slot_free_phase :: "worker_phase \<Rightarrow> bool" where
  "slot_free_phase p =
     (case p of
        Init \<Rightarrow> True | WaitingForStart \<Rightarrow> True
      | WaitingForAcceptance _ _ \<Rightarrow> True
      | Activating _ _ \<Rightarrow> True
      | Active _ _ st \<Rightarrow> st \<noteq> TurnCompleted
      | Draining _ _ (Some (DrainActivation _ _)) \<Rightarrow> True
      | Draining _ _ (Some (DrainTurn _)) \<Rightarrow> True
      | _ \<Rightarrow> False)"

definition slot_ok :: "worker_state \<Rightarrow> bool" where
  "slot_ok s \<longleftrightarrow>
     (slot_free_phase (phase s) \<longrightarrow> publication (work s) = PubNone) \<and>
     (publication (work s) = CleanupSnapshot \<longrightarrow> (\<exists>r x. phase s = Cleaning r x StagePublication)) \<and>
     (\<forall>f. publication (work s) = FatalSnapshot f AfterCleanup \<longrightarrow>
        (\<exists>r x. phase s = Cleaning r x StagePublication)) \<and>
     (\<forall>ses. session s = Some ses \<longrightarrow> ps_lifecycleStatus (ses_processSnapshot ses) \<noteq> ErrorProcess)"

text \<open>
  The events the rest of the worker produces: a bootstrap completes once, so that no publication is
  active when it succeeds, for a process that is not in error; and there is no invariant failure,
  which only a throw raises.
\<close>

fun orderly :: "worker_event \<Rightarrow> worker_state \<Rightarrow> bool" where
  "orderly (BootstrapSucceeded sid c) s =
     ((matchesBootstrap s sid \<longrightarrow> publication (work s) = PubNone) \<and>
      ps_lifecycleStatus (ses_processSnapshot (bc_session c)) \<noteq> ErrorProcess)"
| "orderly (InvariantFailed _) s = False"
| "orderly _ s = True"

lemma slot_ok_same:
  assumes "slot_ok s" "phase s' = phase s" "work s' = work s" "session s' = session s"
  shows "slot_ok s'"
  using assms by (simp add: slot_ok_def)

lemma slot_ok_clear:
  assumes "slot_ok s" "publication (work s') = PubNone" "session s' = session s \<or> session s' = None"
  shows "slot_ok s'"
  using assms by (auto simp: slot_ok_def)

lemma slot_ok_failure:
  assumes "slot_ok s" "failureOutputs s f = Inr (s', outs)" "\<not> slot_free_phase (phase s)"
  shows "slot_ok s'"
proof (cases rule: failureOutputs_cases [of s f])
  case (snapshot os fatal after src)
  then have "s' = set_publication (FatalSnapshot fatal after) s" using assms(2) by simp
  then show ?thesis using assms(1,3) snapshot(5) by (cases after) (auto simp: slot_ok_def)
qed (use assms in \<open>auto intro: slot_ok_clear\<close>)

text \<open>A dispatch failure parks a process that is not in error, and exits without a session.\<close>

lemma dispatch_disposition:
  assumes "ctx = None \<or> (\<exists>c. ctx = Some c \<and> fs_lifecycleStatus c \<noteq> ErrorProcess)"
  shows "dp_snapshot (normalizeWorkerFailure (DispatchFailure err n ctx)) = None"
  using assms by (auto simp: Let_def worker_failed_disposition_def)

lemma failure_without_snapshot:
  assumes "dp_snapshot (normalizeWorkerFailure f) = None" "failureOutputs s f = Inr (s', outs)"
  shows "s' = s \<or> s' = (set_publication PubNone s)\<lparr>phase := Exited\<rparr>"
  using assms
  by (auto simp: failureOutputs_def Let_def finishFatal_def split: failure_terminal.splits)

lemma slot_ok_dispatch:
  assumes "slot_ok s" "failureOutputs t (DispatchFailure err n (failureContext s)) = Inr (s', outs)"
    "slot_ok t" "session t = session s"
  shows "slot_ok s'"
proof -
  have "dp_snapshot (normalizeWorkerFailure (DispatchFailure err n (failureContext s))) = None"
    by (rule dispatch_disposition, cases "session s")
      (use assms(1) in \<open>simp_all add: failureContext_def slot_ok_def\<close>)
  from failure_without_snapshot [OF this assms(2)] show ?thesis
    using assms(3) by (auto intro: slot_ok_clear)
qed

lemma slot_ok_phase:
  assumes "slot_ok s" "publication (work s') = publication (work s)" "session s' = session s"
    "slot_free_phase (phase s') \<Longrightarrow> slot_free_phase (phase s)"
    "\<nexists>r x. phase s = Cleaning r x StagePublication"
  shows "slot_ok s'"
  using assms by (auto simp: slot_ok_def)

section \<open>Handlers keep the slot\<close>

lemma slot_ok_server_message:
  assumes "slot_ok s" "on_server_message m s = Inr (s', outs)" "\<nexists>r. m = MsgStop r"
  shows "slot_ok s'"
proof (cases m)
  case (MsgStart p)
  then have "publication (work s') = PubNone" "session s' = session s" if "s' \<noteq> s"
    using that assms(1,2) by (auto simp: on_start_def slot_ok_def slot_free_phase_def split: if_splits)
  then show ?thesis using assms(1) slot_ok_clear by (cases "s' = s") auto
next
  case (MsgTurnStartAccepted sid tid)
  consider "s' = s" | a b c where "phase s = Readying a b c" "s' = s\<lparr>phase := Readying a b (Some tid)\<rparr>"
    | a b where "phase s = WaitingForAcceptance a b" "publication (work s') = publication (work s)"
        "session s' = session s"
    using assms(2) MsgTurnStartAccepted
    by (auto simp: on_turn_start_accepted_def beginActivation_def
        split: if_splits worker_phase.splits option.splits)
  then show ?thesis
  proof cases
    case 2
    then show ?thesis using assms(1) by (intro slot_ok_phase [OF assms(1)]) (auto simp: slot_free_phase_def)
  next
    case 3
    then have "publication (work s) = PubNone" using assms(1) by (auto simp: slot_ok_def slot_free_phase_def)
    with 3 show ?thesis by (intro slot_ok_clear [OF assms(1)]) auto
  qed (use assms(1) in simp)
next
  case (MsgTurnTerminalRecorded tid)
  with assms show ?thesis
    by (auto simp: on_turn_terminal_recorded_def intro: slot_ok_clear
        split: publication_state.splits if_splits)
next
  case (MsgCredentialUpdateAccepted a b c d)
  with assms(2) have "phase s' = phase s" "work s' = work s" "session s' = session s"
    by (auto simp: on_credential_update_accepted_def split: option.splits if_splits bool.splits)
  with assms(1) show ?thesis by (rule slot_ok_same)
next
  case (MsgInputBatch ds)
  with assms(2) have "phase s' = phase s" "work s' = work s" "session s' = session s"
    by (auto simp: on_input_batch_def split: if_splits)
  with assms(1) show ?thesis by (rule slot_ok_same)
qed (use assms in auto)

lemma slot_ok_stop:
  assumes "slot_ok s" "on_stop_requested r x s = Inr (s', outs)" "phase s \<noteq> Exited"
  shows "slot_ok s'"
proof (cases "s' = s")
  case False
  then have s': "s' = s\<lparr>phase := Draining r x (draining_operation_of (phase s)), timers := (\<lambda>_. None),
      credential := None\<rparr>" and "\<nexists>a b c. phase s = Cleaning a b c"
    using assms(2) by (auto simp: on_stop_requested_def split: worker_phase.splits)
  moreover have "slot_free_phase (phase s') \<Longrightarrow> slot_free_phase (phase s)"
    unfolding s' by (cases "phase s") (auto simp: slot_free_phase_def draining_operation_of_def split: if_splits)
  ultimately show ?thesis using assms(1) by (intro slot_ok_phase [OF assms(1)]) auto
qed (use assms in simp)

lemma slot_ok_published:
  assumes "slot_ok s" "publishTerminalAndAwaitAcknowledgement t p = (s', outs)" "session t = session s"
    "\<not> slot_free_phase (phase t)"
  shows "slot_ok s'"
  using assms
  by (auto simp: publishTerminalAndAwaitAcknowledgement_def armTimer_def slot_ok_def split: option.splits)

lemma slot_ok_connected:
  assumes "slot_ok s" "on_transport_connected s = Inr (s', outs)"
  shows "slot_ok s'"
proof (cases "\<exists>t. publication (work s) = TerminalPendingAck t")
  case True
  then have "\<not> slot_free_phase (phase s)" using assms(1) by (auto simp: slot_ok_def)
  with True assms slot_ok_published [OF assms(1) _ refl] show ?thesis
    by (auto simp: on_transport_connected_def Let_def split: prod.splits)
next
  case False
  with assms show ?thesis
    by (auto simp: on_transport_connected_def Let_def split: publication_state.splits)
qed

lemma slot_ok_timer:
  assumes "slot_ok s" "on_timer_fired name cor s = Inr (s', outs)"
  shows "slot_ok s'"
proof (cases "s' = s \<or> work s' = work s \<and> phase s' = phase s \<and> session s' = session s")
  case True
  with assms(1) show ?thesis by (auto intro: slot_ok_same)
next
  case False
  then obtain t where t: "publication (work s) = TerminalPendingAck t"
    "publishTerminalAndAwaitAcknowledgement (s\<lparr>timers := (timers s)(name := None)\<rparr>) t = (s', outs)"
    using assms(2) by (cases name) (auto simp: on_timer_fired_def Let_def armTimer_def
        split: if_splits option.splits worker_phase.splits publication_state.splits)
  then have "\<not> slot_free_phase (phase s)" using assms(1) by (auto simp: slot_ok_def)
  then show ?thesis using slot_ok_published [OF assms(1) t(2)] by simp
qed

lemma slot_ok_bootstrap:
  assumes "slot_ok s" "orderly (BootstrapSucceeded sid c) s"
    "on_bootstrap_succeeded sid c s = Inr (s', outs)"
  shows "slot_ok s'"
proof (cases "matchesBootstrap s sid")
  case True
  then have "\<not> slot_free_phase (phase s')"
    "publication (work s') = PubNone \<or> publication (work s') = ReadySnapshot" "session s' = Some (bc_session c)"
    using assms(2,3) True
    by (auto simp: on_bootstrap_succeeded_def Let_def beginSnapshot_def armTimer_def throws_bind_Inr
        isDraining_def matchesBootstrap_def slot_free_phase_def
        split: if_splits option.splits snapshot_policy.splits worker_phase.splits)
  with assms(2) show ?thesis by (auto simp: slot_ok_def)
qed (use assms in \<open>simp add: on_bootstrap_succeeded_def\<close>)

lemma activated_lifecycle [simp]:
  "ses_processSnapshot (activated_session ses) = ses_processSnapshot ses"
  by (simp add: activated_session_def)

lemma slot_ok_activated:
  assumes "slot_ok s" "on_activation_succeeded sid tid ds s = Inr (s', outs)"
  shows "slot_ok s'"
proof (cases "matchesActivation s sid tid")
  case True
  then have "slot_free_phase (phase s)"
    by (auto simp: matchesActivation_def slot_free_phase_def
        split: worker_phase.splits option.splits draining_operation.splits)
  then have "publication (work s) = PubNone" using assms(1) by (simp add: slot_ok_def)
  then have "publication (work s') = PubNone" "session s' = map_option activated_session (session s)"
    using assms(2) True by (auto simp: on_activation_succeeded_def)
  with assms(1) show ?thesis by (auto simp: slot_ok_def)
qed (use assms in \<open>simp add: on_activation_succeeded_def\<close>)

lemma slot_ok_drained:
  assumes "slot_ok s" "isDraining s"
  shows "slot_ok (finishDrainingOperation s)"
proof -
  from assms(2) obtain r x d where "phase s = Draining r x d"
    by (auto simp: isDraining_def split: worker_phase.splits)
  then show ?thesis
    by (intro slot_ok_phase [OF assms(1)]) (auto simp: finishDrainingOperation_def slot_free_phase_def)
qed

lemma slot_ok_operations:
  assumes "slot_ok s"
  shows "on_bootstrap_failed sid err p s = Inr (s', outs) \<Longrightarrow> slot_ok s'"
    and "on_activation_failed sid tid err s = Inr (s', outs) \<Longrightarrow> slot_ok s'"
    and "on_turn_defect tid err s = Inr (s', outs) \<Longrightarrow> slot_ok s'"
    and "on_cleanup_failed err s = Inr (s', outs) \<Longrightarrow> slot_ok s'"
    and "on_input_delivery_failed hs err s = Inr (s', outs) \<Longrightarrow> slot_ok s'"
    and "on_inputs_delivered hs ds m s = Inr (s', outs) \<Longrightarrow> slot_ok s'"
proof -
  have "\<not> slot_free_phase (phase s)" if "matchesBootstrap s sid" "\<not> isDraining s"
    using that by (auto simp: matchesBootstrap_def isDraining_def slot_free_phase_def split: worker_phase.splits)
  then show "on_bootstrap_failed sid err p s = Inr (s', outs) \<Longrightarrow> slot_ok s'"
    using slot_ok_failure [OF assms] slot_ok_drained [OF assms] assms
    by (auto simp: on_bootstrap_failed_def split: if_splits)
  have busy: "busy_failure err s = Inr (s', outs) \<Longrightarrow> slot_ok s'"
    using slot_ok_dispatch [OF assms _ assms refl] slot_ok_drained [OF assms]
    by (auto simp: busy_failure_def split: if_splits)
  show "on_activation_failed sid tid err s = Inr (s', outs) \<Longrightarrow> slot_ok s'"
    using busy assms by (auto simp: on_activation_failed_def split: if_splits)
  show "on_turn_defect tid err s = Inr (s', outs) \<Longrightarrow> slot_ok s'"
    using busy assms by (auto simp: on_turn_defect_def split: if_splits)
  show "on_cleanup_failed err s = Inr (s', outs) \<Longrightarrow> slot_ok s'"
    using slot_ok_failure [OF assms] assms
    by (auto simp: on_cleanup_failed_def slot_free_phase_def split: worker_phase.splits cleaning_stage.splits)
  have head: "slot_ok (set_deliveryHead None s)"
    using assms by (simp add: slot_ok_def)
  show "on_input_delivery_failed hs err s = Inr (s', outs) \<Longrightarrow> slot_ok s'"
    using slot_ok_dispatch [OF assms _ head] head assms
    by (auto simp: on_input_delivery_failed_def split: if_splits)
  show "on_inputs_delivered hs ds m s = Inr (s', outs) \<Longrightarrow> slot_ok s'"
    using assms by (auto simp: on_inputs_delivered_def slot_ok_def split: if_splits)
qed

lemma slot_ok_session_events:
  assumes "slot_ok s"
  shows "on_runtime_started s = Inr (s', outs) \<Longrightarrow> slot_ok s'"
    and "on_session_tainted r s = Inr (s', outs) \<Longrightarrow> slot_ok s'"
    and "on_credential_sampled pid vs f s = Inr (s', outs) \<Longrightarrow> slot_ok s'"
    and "on_credential_sample_failed pid err s = Inr (s', outs) \<Longrightarrow> slot_ok s'"
  using assms
  by (auto simp: on_runtime_started_def on_session_tainted_def on_credential_sampled_def
      on_credential_sample_failed_def armTimer_def slot_free_phase_def
      intro: slot_ok_same slot_ok_phase split: if_splits option.splits)

lemma slot_ok_snapshot:
  assumes "slot_ok s" "on_snapshot_completed point turn err s = Inr (s', outs)"
  shows "slot_ok s'"
proof -
  have cleared: "slot_ok (set_publication PubNone s)" using assms(1) by (rule slot_ok_clear) simp_all
  have busy: "\<not> slot_free_phase (phase s)" if "publication (work s) \<noteq> PubNone"
    using that assms(1) by (auto simp: slot_ok_def)
  show ?thesis
  proof (cases "publication (work s)")
    case (TerminalSnapshot p t terminal)
    with assms busy slot_ok_published [OF assms(1) _ refl, of terminal] slot_ok_failure [OF cleared] show ?thesis
      by (auto simp: on_snapshot_completed_def split: if_splits option.splits)
  next
    case CleanupSnapshot
    with assms busy slot_ok_failure [OF cleared] show ?thesis
      by (auto simp: on_snapshot_completed_def intro: slot_ok_clear
          split: if_splits option.splits worker_phase.splits cleaning_stage.splits)
  next
    case (FatalSnapshot fatal after)
    have "slot_ok s'" if "finishFatal s fatal = (s', outs)"
      using that assms(1) by (auto simp: finishFatal_def intro: slot_ok_clear)
    with assms FatalSnapshot show ?thesis
      by (auto simp: on_snapshot_completed_def slot_ok_def slot_free_phase_def
          split: if_splits after_snapshot.splits worker_phase.splits cleaning_stage.splits)
  qed (use assms cleared in \<open>auto simp: on_snapshot_completed_def split: if_splits\<close>)
qed

lemma slot_ok_completed:
  assumes "slot_ok s" "on_turn_completed tid res s = Inr (s', outs)"
  shows "slot_ok s'"
proof (cases "matchesTurn s tid")
  case True
  obtain n o1 where n: "removeAppliedTargeted (finishDrainingOperation s) (appliedTargetedInputs res) = (n, o1)"
    by fastforce
  let ?n = "mark_turn_completed s n"
  have ph: "phase n = phase (finishDrainingOperation s)" "work ?n = work s" "session ?n = session s"
    using n by (auto simp: removeAppliedTargeted_def split_beta Let_def mark_turn_completed_def
        finishDrainingOperation_def split: worker_phase.splits)
  have "slot_free_phase (phase s)" and used: "\<not> slot_free_phase (phase ?n)"
    using True ph by (auto simp: matchesTurn_def mark_turn_completed_def finishDrainingOperation_def
        slot_free_phase_def split: worker_phase.splits option.splits draining_operation.splits)
  then have free: "publication (work s) = PubNone" using assms(1) by (simp add: slot_ok_def)
  have J: "slot_ok ?n" using assms(1) ph free by (intro slot_ok_clear [OF assms(1)]) auto
  have published: "slot_ok t" if "publish_result s ?n tid point p = Inr (t, os)" for point p t os
  proof (cases "publishTerminalAndAwaitAcknowledgement ?n p = (t, os)")
    case True
    then show ?thesis using slot_ok_published [OF J _ refl used] by blast
  next
    case False
    with that have "t = ?n \<or> t = set_publication (TerminalSnapshot point tid p) ?n"
      by (auto simp: publish_result_def beginSnapshot_def
          split: if_splits option.splits snapshot_policy.splits)
    then show ?thesis using J used by (auto simp: slot_ok_def)
  qed
  show ?thesis
    by (cases res) (use assms(2) True n J in \<open>auto simp: on_turn_completed_def throws_bind_Inr dest: published\<close>)
qed (use assms in \<open>simp add: on_turn_completed_def\<close>)

lemma slot_ok_cleaned:
  assumes "slot_ok s" "on_cleanup_succeeded s = Inr (s', outs)"
  shows "slot_ok s'"
proof (cases "s' = s")
  case False
  then have "phase s' = Exited" "session s' = session s \<or> session s' = None"
    "publication (work s') = PubNone \<or>
       publication (work s') = publication (work s) \<and> (\<exists>r x. phase s = Cleaning r x StageResources)"
    using assms(2) by (auto simp: on_cleanup_succeeded_def finishFatal_def
        split: worker_phase.splits cleaning_stage.splits publication_state.splits)
  with assms(1) show ?thesis by (auto simp: slot_ok_def slot_free_phase_def dest: sym)
qed (use assms in simp)

lemma slot_ok_handler:
  assumes "slot_ok s" "orderly e s" "phase s \<noteq> Exited" "handle_event (effective_event e) s = Inr (s', outs)"
  shows "slot_ok s'"
proof (cases "effective_event e")
  case (ServerMessage m)
  then have "\<nexists>r. m = MsgStop r" by (cases e rule: effective_event.cases) auto
  with assms ServerMessage slot_ok_server_message show ?thesis by simp
next
  case (BootstrapSucceeded sid c)
  then have "e = BootstrapSucceeded sid c" by (cases e rule: effective_event.cases) auto
  with assms BootstrapSucceeded slot_ok_bootstrap show ?thesis by simp
next
  case (InvariantFailed err)
  then have "e = InvariantFailed err" by (cases e rule: effective_event.cases) auto
  with assms(2) show ?thesis by simp
next
  case PiTurnStarted
  with assms show ?thesis by (auto intro: slot_ok_same)
next
  case PiTurnEnded
  with assms show ?thesis by (auto intro: slot_ok_same)
next
  case (TransportFailed err)
  have "dp_snapshot (normalizeWorkerFailure (TransportFailure err)) = None" by simp
  note failure_without_snapshot [OF this, of s s' outs]
  with assms(4) TransportFailed have "s' = s \<or> s' = (set_publication PubNone s)\<lparr>phase := Exited\<rparr>"
    by simp
  then show ?thesis using assms(1) by (auto intro: slot_ok_clear)
qed (use assms slot_ok_stop [OF assms(1) _ assms(3)] slot_ok_session_events [OF assms(1)]
      slot_ok_connected [OF assms(1)] slot_ok_timer [OF assms(1)] slot_ok_activated [OF assms(1)]
      slot_ok_operations [OF assms(1)] slot_ok_completed [OF assms(1)]
      slot_ok_snapshot [OF assms(1)] slot_ok_cleaned [OF assms(1)] in simp_all)

interpretation slot: trace_invariant "\<lambda>s h. slot_ok s" orderly
proof
  fix s s' e and outs :: "worker_output list"
  assume "slot_ok s" "orderly e s" "phase s \<noteq> Exited" "handle_event (effective_event e) s = Inr (s', outs)"
  then show "slot_ok s'" by (rule slot_ok_handler)
next
  fix s s' and outs :: "worker_output list"
  assume J: "slot_ok s" and r: "finishReadying s = (s', outs)"
  have "s' = s \<or> publication (work s') = PubNone \<and> session s' = session s"
    using r by (auto simp: finishReadying_def beginActivation_def armTimer_def hasActivePublication_def
        split: worker_phase.splits if_splits option.splits)
  with J slot_ok_clear show "slot_ok s'" by auto
next
  fix s s' r x and outs :: "worker_output list"
  assume J: "slot_ok s" and free: "publication (work s) = PubNone"
    and "begin_cleanup s r x = Inr (s', outs)"
  then have "session s' = session s" "publication (work s') = PubNone \<or>
      publication (work s') = CleanupSnapshot \<and> phase s' = Cleaning r x StagePublication"
    by (auto simp: begin_cleanup_def beginSnapshot_def throws_bind_Inr
        split: option.splits if_splits snapshot_policy.splits)
  with J show "slot_ok s'" by (auto simp: slot_ok_def slot_free_phase_def)
next
  fix s sid tid
  assume J: "slot_ok s" and "phase s = Active sid tid TurnPending"
  then show "slot_ok (s\<lparr>phase := Active sid tid TurnExecuting\<rparr>)"
    by (intro slot_ok_phase [OF J]) (auto simp: slot_free_phase_def)
qed (auto simp: slot_ok_def consume_ignored_def)

section \<open>No throw\<close>

lemma snapshot_total:
  assumes "slot_ok s"
  shows "\<exists>r. on_snapshot_completed point turn err s = Inr r"
proof (cases "publication (work s)")
  case (TerminalSnapshot p t terminal)
  then show ?thesis using failureOutputs_total
    by (cases err) (simp_all add: on_snapshot_completed_def)
next
  case CleanupSnapshot
  then obtain r x where "phase s = Cleaning r x StagePublication" using assms by (auto simp: slot_ok_def)
  with CleanupSnapshot show ?thesis using failureOutputs_total
    by (cases err) (simp_all add: on_snapshot_completed_def)
next
  case (FatalSnapshot fatal after)
  then have "after = AfterExit \<or> (\<exists>r x. phase s = Cleaning r x StagePublication)"
    using assms by (cases after) (auto simp: slot_ok_def)
  with FatalSnapshot show ?thesis by (cases after) (auto simp: on_snapshot_completed_def)
qed (auto simp: on_snapshot_completed_def)

lemma completed_total:
  assumes "slot_ok s"
  shows "\<exists>r. on_turn_completed tid res s = Inr r"
proof (cases "matchesTurn s tid")
  case True
  then have "slot_free_phase (phase s)"
    by (auto simp: matchesTurn_def slot_free_phase_def
        split: worker_phase.splits option.splits draining_operation.splits)
  then have free: "publication (work s) = PubNone" using assms by (simp add: slot_ok_def)
  obtain n o1 where n: "removeAppliedTargeted (finishDrainingOperation s) (appliedTargetedInputs res) = (n, o1)"
    by fastforce
  let ?n = "mark_turn_completed s n"
  have "work ?n = work s"
    using n by (auto simp: removeAppliedTargeted_def split_beta Let_def mark_turn_completed_def
        finishDrainingOperation_def split: worker_phase.splits)
  then have published: "\<exists>t os. publish_result s ?n tid point p = Inr (t, os)"
    if "point = BeforeTurnOutcome \<or> point = BeforeTurnFailed" for point p
    using free llm_turn_snapshot_required [OF that]
    by (cases "session s"; cases "ses_kind (the (session s))")
      (auto simp: publish_result_def beginSnapshot_def hasActivePublication_def
        intro: prod.exhaust)
  show ?thesis
  proof (cases res)
    case (ResultOutcome a b c d e)
    then show ?thesis using True n published [of BeforeTurnOutcome "outcome_terminal a b c d"]
      by (auto simp: on_turn_completed_def throws_bind_Inr)
  next
    case (ResultFailed xf a)
    obtain p where "failed_terminal s xf = Inr p" using failed_terminal_total by blast
    with ResultFailed show ?thesis using True n published [of BeforeTurnFailed p]
      by (auto simp: on_turn_completed_def throws_bind_Inr)
  qed (use True n in \<open>auto simp: on_turn_completed_def\<close>)
qed (simp add: on_turn_completed_def)

lemma bootstrap_total:
  assumes "matchesBootstrap s sid \<Longrightarrow> publication (work s) = PubNone"
  shows "\<exists>r. on_bootstrap_succeeded sid c s = Inr r"
  using assms
  by (cases "resolveWorkerSnapshotPolicy AfterWorkerReady (ses_kind (bc_session c)) (ses_piAvailable (bc_session c))")
    (auto simp: on_bootstrap_succeeded_def Let_def beginSnapshot_def armTimer_def throws_bind_Inr
      hasActivePublication_def split_beta)

lemma operations_total:
  "\<exists>r. on_bootstrap_failed sid err p s = Inr r" "\<exists>r. busy_failure err s = Inr r"
  "\<exists>r. on_activation_failed sid tid err s = Inr r" "\<exists>r. on_turn_defect tid err s = Inr r"
  "\<exists>r. on_input_delivery_failed hs err s = Inr r" "\<exists>r. on_cleanup_failed err s = Inr r"
  "\<exists>r. on_invariant_failed err s = Inr r"
  using failureOutputs_total
  by (auto simp: on_bootstrap_failed_def on_activation_failed_def on_turn_defect_def busy_failure_def
      on_input_delivery_failed_def on_cleanup_failed_def on_invariant_failed_def
      split: worker_phase.split cleaning_stage.split)

lemma server_message_total: "\<exists>r. on_server_message m s = Inr r"
  by (cases m)
    (auto simp: on_start_def on_turn_start_accepted_def on_input_batch_def on_turn_terminal_recorded_def
      on_credential_update_accepted_def on_stop_requested_def
      split: worker_phase.split publication_state.split option.split bool.split)

lemma timer_total: "\<exists>r. on_timer_fired name cor s = Inr r"
  by (cases name)
    (auto simp: on_timer_fired_def Let_def armTimer_def
      split: worker_phase.split publication_state.split option.split)

lemma handler_total:
  assumes "slot_ok s" "orderly e s"
  shows "\<exists>r. handle_event (effective_event e) s = Inr r"
proof (cases "effective_event e")
  case (BootstrapSucceeded sid c)
  then have "e = BootstrapSucceeded sid c" by (cases e rule: effective_event.cases) auto
  with assms(2) BootstrapSucceeded bootstrap_total show ?thesis by simp
qed (use failureOutputs_total operations_total server_message_total timer_total
      snapshot_total [OF assms(1)] completed_total [OF assms(1)] in
      \<open>auto simp: on_runtime_started_def on_transport_connected_def Let_def split_beta
        on_stop_requested_def on_session_tainted_def on_activation_succeeded_def on_inputs_delivered_def
        on_credential_sampled_def on_credential_sample_failed_def armTimer_def on_cleanup_succeeded_def
        split: publication_state.split worker_phase.split option.split cleaning_stage.split\<close>)

lemma reduce_total:
  assumes "slot_ok s" "orderly e s"
  shows "\<exists>r. reduceWorkerRuntime s e = Inr r"
proof -
  obtain n o1 where "handle_event (effective_event e) s = Inr (n, o1)" using handler_total [OF assms] by fastforce
  moreover obtain n' o2 where "advance n = Inr (n', o2)" using advance_total by fastforce
  ultimately show ?thesis by (simp add: reduceWorkerRuntime_def)
qed

lemma run_total:
  assumes "slot_ok s" "admitted orderly s es"
  shows "\<exists>s' h'. run_from s h es = Inr (s', h') \<and> slot_ok s'"
  using assms
proof (induction es arbitrary: s h)
  case (Cons e es)
  then obtain t outs where step: "reduceWorkerRuntime s e = Inr (t, outs)"
    using reduce_total [OF Cons.prems(1), of e] by auto
  with Cons.prems have "orderly e s" "admitted orderly t es" by simp_all
  then have "slot_ok t" using slot.reduce_keeps [OF Cons.prems(1) _ step] by simp
  with Cons.IH [OF this \<open>admitted orderly t es\<close>] step show ?case by simp
qed simp

section \<open>Bootstrap completes once\<close>

fun bootstrap_completion_event :: "worker_event \<Rightarrow> bool" where
  "bootstrap_completion_event (BootstrapSucceeded _ _) = True"
| "bootstrap_completion_event (BootstrapFailed _ _ _) = True"
| "bootstrap_completion_event _ = False"

definition before_ready :: "worker_phase \<Rightarrow> bool" where
  "before_ready p =
     (case p of
        Init \<Rightarrow> True | WaitingForStart \<Rightarrow> True | Bootstrapping _ _ \<Rightarrow> True
      | Draining _ _ (Some (DrainBootstrap _ _)) \<Rightarrow> True
      | _ \<Rightarrow> False)"

lemma before_ready_cleaning [simp]: "\<not> before_ready (Cleaning r x st)"
  by (simp add: before_ready_def)

definition unready :: "worker_state \<Rightarrow> bool" where
  "unready s \<longleftrightarrow> slot_ok s \<and> (before_ready (phase s) \<longrightarrow> publication (work s) = PubNone)"

definition ordinary_event :: "worker_event \<Rightarrow> worker_state \<Rightarrow> bool" where
  "ordinary_event e s \<longleftrightarrow> \<not> bootstrap_completion_event e \<and> (\<forall>err. e \<noteq> InvariantFailed err)"

lemma ordinary_orderly: "ordinary_event e s \<Longrightarrow> orderly e s"
  by (cases e) (auto simp: ordinary_event_def)

definition slot_step :: "worker_state \<Rightarrow> worker_state \<Rightarrow> bool" where
  "slot_step s s' \<longleftrightarrow> (before_ready (phase s') \<longrightarrow>
     publication (work s') = PubNone \<or> before_ready (phase s) \<and> publication (work s') = publication (work s))"

lemma slot_step_same: "phase s' = phase s \<Longrightarrow> publication (work s') = publication (work s) \<Longrightarrow> slot_step s s'"
  by (simp add: slot_step_def)

lemma slot_step_free: "publication (work s') = PubNone \<Longrightarrow> slot_step s s'"
  by (simp add: slot_step_def)

lemma slot_step_failure:
  "failureOutputs t f = Inr (s', outs) \<Longrightarrow> phase t = phase s \<Longrightarrow> publication (work t) = publication (work s) \<or>
     publication (work t) = PubNone \<Longrightarrow> \<not> before_ready (phase s) \<Longrightarrow> slot_step s s'"
  by (cases rule: failureOutputs_cases [of t f]) (auto simp: slot_step_def)

lemma slot_step_dispatch:
  assumes "slot_ok s" "failureOutputs t (DispatchFailure err n (failureContext s)) = Inr (s', outs)"
    "phase t = phase s" "publication (work t) = publication (work s)"
  shows "slot_step s s'"
proof -
  have "dp_snapshot (normalizeWorkerFailure (DispatchFailure err n (failureContext s))) = None"
    by (rule dispatch_disposition, cases "session s")
      (use assms(1) in \<open>simp_all add: failureContext_def slot_ok_def\<close>)
  from failure_without_snapshot [OF this assms(2)] show ?thesis
    using assms(3,4) by (auto simp: slot_step_def)
qed

lemma slot_step_publish:
  "publishTerminalAndAwaitAcknowledgement t p = (s', outs) \<Longrightarrow> phase t = phase s \<Longrightarrow>
     publication (work t) = publication (work s) \<Longrightarrow> \<not> before_ready (phase s) \<Longrightarrow> slot_step s s'"
  by (auto simp: publishTerminalAndAwaitAcknowledgement_def armTimer_def slot_step_def split: option.splits)

lemma slot_step_stop:
  assumes "on_stop_requested r x s = Inr (s', outs)"
  shows "slot_step s s'"
proof -
  have "before_ready (Draining r x (draining_operation_of (phase s))) \<Longrightarrow> before_ready (phase s)"
    by (cases "phase s") (auto simp: before_ready_def draining_operation_of_def split: if_splits)
  moreover have "s' = s \<or> publication (work s') = publication (work s) \<and>
      phase s' = Draining r x (draining_operation_of (phase s))"
    using assms by (auto simp: on_stop_requested_def split: worker_phase.splits)
  ultimately show ?thesis by (auto simp: slot_step_def)
qed

lemma slot_step_server_message:
  assumes "slot_ok s" "on_server_message m s = Inr (s', outs)"
  shows "slot_step s s'"
proof (cases m)
  case (MsgStart p)
  with assms(2) show ?thesis
    by (auto simp: on_start_def slot_step_def before_ready_def split: if_splits)
next
  case (MsgTurnStartAccepted sid tid)
  with assms(2) have "s' = s \<or> \<not> before_ready (phase s') \<or> phase s' = phase s \<and> work s' = work s"
    by (auto simp: on_turn_start_accepted_def beginActivation_def before_ready_def
        split: if_splits worker_phase.splits option.splits)
  then show ?thesis by (auto simp: slot_step_def)
next
  case (MsgTurnTerminalRecorded tid)
  with assms(2) show ?thesis
    by (auto simp: on_turn_terminal_recorded_def intro: slot_step_same slot_step_free
        split: if_splits publication_state.splits)
next
  case (MsgCredentialUpdateAccepted a b c d)
  with assms(2) show ?thesis
    by (auto simp: on_credential_update_accepted_def intro!: slot_step_same
        split: if_splits option.splits bool.splits)
next
  case (MsgInputBatch ds)
  with assms(2) show ?thesis by (auto simp: on_input_batch_def intro!: slot_step_same split: if_splits)
next
  case (MsgStop r)
  with assms(2) slot_step_stop show ?thesis by simp
qed (use assms in \<open>simp_all add: slot_step_same\<close>)

lemma slot_step_completed:
  assumes "on_turn_completed tid res s = Inr (s', outs)"
  shows "slot_step s s'"
proof (cases "matchesTurn s tid")
  case True
  obtain n o1 where n: "removeAppliedTargeted (finishDrainingOperation s) (appliedTargetedInputs res) = (n, o1)"
    by fastforce
  have "phase n = phase (finishDrainingOperation s)"
    using n by (auto simp: removeAppliedTargeted_def split_beta Let_def)
  then have late: "\<not> before_ready (phase (mark_turn_completed s n))"
    using True by (auto simp: matchesTurn_def mark_turn_completed_def finishDrainingOperation_def
        before_ready_def split: worker_phase.splits option.splits draining_operation.splits)
  have "phase t = phase n'" if "publish_result s n' tid point p = Inr (t, os)" for n' point p t os
    using that by (auto simp: publish_result_def beginSnapshot_def publishTerminalAndAwaitAcknowledgement_def
        armTimer_def split: if_splits option.splits snapshot_policy.splits)
  then have "phase s' = phase (mark_turn_completed s n)"
    by (cases res) (use assms True n in \<open>auto simp: on_turn_completed_def throws_bind_Inr\<close>)
  with late show ?thesis by (simp add: slot_step_def)
qed (use assms in \<open>simp add: on_turn_completed_def slot_step_same\<close>)

lemma slot_step_handler:
  assumes "unready s" "ordinary_event e s" "phase s \<noteq> Exited"
    "handle_event (effective_event e) s = Inr (s', outs)"
  shows "slot_step s s'"
proof -
  have ok: "slot_ok s" and used: "publication (work s) \<noteq> PubNone \<Longrightarrow> \<not> before_ready (phase s)"
    using assms(1) by (auto simp: unready_def)
  have matches: "matchesTurn s tid \<Longrightarrow> \<not> before_ready (phase s)" "matchesActivation s sid tid \<Longrightarrow> \<not> before_ready (phase s)"
    for sid tid by (auto simp: matchesTurn_def matchesActivation_def before_ready_def
        split: worker_phase.splits option.splits draining_operation.splits)
  have drained: "slot_step s (finishDrainingOperation s)"
    by (auto simp: finishDrainingOperation_def slot_step_def before_ready_def split: worker_phase.splits)
  have busy: "busy_failure err s = Inr (s', outs) \<Longrightarrow> slot_step s s'" for err
    using slot_step_dispatch [OF ok, of s] drained by (auto simp: busy_failure_def split: if_splits)
  show ?thesis
  proof (cases "effective_event e")
    case (ServerMessage m)
    with assms(4) slot_step_server_message [OF ok] show ?thesis by simp
  next
    case (StopRequested r x)
    with assms(4) slot_step_stop show ?thesis by simp
  next
    case TransportConnected
    with assms(4) used slot_step_publish [of s _ s'] show ?thesis
      by (auto simp: on_transport_connected_def Let_def slot_step_same
          split: publication_state.splits prod.splits)
  next
    case (TimerFired name cor)
    with assms(4) used show ?thesis
      by (cases name)
        (auto simp: on_timer_fired_def Let_def armTimer_def slot_step_same dest: slot_step_publish [where s = s]
          split: if_splits option.splits worker_phase.splits publication_state.splits)
  next
    case (TransportFailed err)
    have "dp_snapshot (normalizeWorkerFailure (TransportFailure err)) = None" by simp
    note failure_without_snapshot [OF this, of s s' outs]
    with assms(4) TransportFailed show ?thesis by (auto simp: slot_step_def)
  next
    case (SnapshotSucceeded point turn)
    with assms(4) used show ?thesis
      by (auto simp: on_snapshot_completed_def before_ready_def slot_step_def finishFatal_def
          publishTerminalAndAwaitAcknowledgement_def armTimer_def
          split: if_splits publication_state.splits worker_phase.splits cleaning_stage.splits after_snapshot.splits)
  next
    case (SnapshotFailed point turn err)
    have "\<not> before_ready (phase s)" if "snapshotMatches (publication (work s)) point turn"
      using that used by (cases "publication (work s) = PubNone") (auto simp: snapshotMatches_def)
    with assms(4) SnapshotFailed slot_step_failure [of "set_publication PubNone s" _ s' outs s] show ?thesis
      by (auto simp: on_snapshot_completed_def slot_step_def finishFatal_def
          split: if_splits publication_state.splits worker_phase.splits cleaning_stage.splits after_snapshot.splits)
  next
    case (TurnCompletedEvent tid r)
    with assms(4) slot_step_completed show ?thesis by simp
  next
    case (BootstrapSucceeded sid c)
    with assms(2) show ?thesis by (cases e rule: effective_event.cases) (auto simp: ordinary_event_def)
  next
    case (BootstrapFailed sid err p)
    with assms(2) show ?thesis by (cases e rule: effective_event.cases) (auto simp: ordinary_event_def)
  next
    case (InvariantFailed err)
    with assms(2) show ?thesis by (cases e rule: effective_event.cases) (auto simp: ordinary_event_def)
  next
    case (CleanupFailed err)
    with assms(4) slot_step_failure [of s _ s' outs s] show ?thesis
      by (auto simp: on_cleanup_failed_def slot_step_same before_ready_def
          split: worker_phase.splits cleaning_stage.splits)
  next
    case CleanupSucceeded
    with assms(4) show ?thesis
      by (auto simp: on_cleanup_succeeded_def slot_step_def finishFatal_def before_ready_def
          split: worker_phase.splits cleaning_stage.splits publication_state.splits)
  next
    case (InputDeliveryFailed hs err)
    with assms(4) slot_step_dispatch [OF ok, of "set_deliveryHead None s"] show ?thesis
      by (auto simp: on_input_delivery_failed_def slot_step_same split: if_splits)
  next
    case (ActivationSucceeded sid tid ds)
    with assms(4) matches(2) show ?thesis
      by (auto simp: on_activation_succeeded_def slot_step_def before_ready_def
          split: if_splits worker_phase.splits)
  next
    case (ActivationFailed sid tid err)
    with assms(4) busy show ?thesis
      by (auto simp: on_activation_failed_def slot_step_same split: if_splits)
  next
    case (TurnDefect tid err)
    with assms(4) busy show ?thesis
      by (auto simp: on_turn_defect_def slot_step_same split: if_splits)
  next
    case RuntimeStarted
    with assms(4) show ?thesis
      by (auto simp: on_runtime_started_def slot_step_def before_ready_def split: if_splits)
  qed (use assms(4) in
      \<open>auto simp: on_session_tainted_def on_inputs_delivered_def slot_step_same
        on_credential_sampled_def on_credential_sample_failed_def armTimer_def
        split: if_splits option.splits\<close>)
qed

interpretation unready: trace_invariant "\<lambda>s h. unready s" ordinary_event
proof
  fix s s' e and outs :: "worker_output list"
  assume a: "unready s" "ordinary_event e s" "phase s \<noteq> Exited"
    "handle_event (effective_event e) s = Inr (s', outs)"
  then have "slot_ok s'" using slot_ok_handler [OF _ ordinary_orderly] unfolding unready_def by blast
  with slot_step_handler [OF a] a(1) show "unready s'" by (auto simp: unready_def slot_step_def)
next
  fix s s' and outs :: "worker_output list"
  assume J: "unready s" and r: "finishReadying s = (s', outs)"
  have "s' = s \<or> \<not> before_ready (phase s')"
    using r by (auto simp: finishReadying_def beginActivation_def armTimer_def before_ready_def
        split: worker_phase.splits if_splits option.splits)
  with J slot.J_ready [OF _ r] show "unready s'" by (auto simp: unready_def)
next
  fix s s' r x and outs :: "worker_output list"
  assume a: "unready s" "phase s = Draining r x None" "publication (work s) = PubNone"
    "begin_cleanup s r x = Inr (s', outs)"
  then have "\<not> before_ready (phase s')"
    by (auto simp: begin_cleanup_def beginSnapshot_def throws_bind_Inr
        split: option.splits if_splits snapshot_policy.splits)
  with a slot.J_cleanup [OF _ a(2-4)] show "unready s'" by (simp add: unready_def)
next
  fix s sid tid ses and items :: "input_item list"
  assume a: "unready s" "may_take_inputs s" "phase s = Active sid tid TurnPending" "session s = Some ses"
  then show "unready (s\<lparr>phase := Active sid tid TurnExecuting\<rparr>)"
    using slot.J_start [OF _ a(2-4)] by (simp add: unready_def before_ready_def)
qed (auto simp: unready_def slot_ok_def consume_ignored_def)

lemma admitted_ordinary:
  assumes "\<forall>e \<in> set es. ordinary_event e s"
  shows "admitted ordinary_event t es" "admitted orderly t es"
proof -
  have e: "\<forall>e \<in> set es. \<forall>u. ordinary_event e u" using assms by (simp add: ordinary_event_def)
  then show "admitted ordinary_event t es" by (induction es arbitrary: t) (auto split: sum.splits)
  show "admitted orderly t es"
    using e by (induction es arbitrary: t) (auto intro: ordinary_orderly split: sum.splits)
qed

definition healthy :: "worker_event \<Rightarrow> bool" where
  "healthy e \<longleftrightarrow> (case e of
       BootstrapSucceeded _ c \<Rightarrow> ps_lifecycleStatus (ses_processSnapshot (bc_session c)) \<noteq> ErrorProcess
     | InvariantFailed _ \<Rightarrow> False | _ \<Rightarrow> True)"

lemma unready_matches:
  assumes "unready s" "matchesBootstrap s sid"
  shows "publication (work s) = PubNone"
proof -
  have "before_ready (phase s)" using assms(2)
    by (auto simp: matchesBootstrap_def before_ready_def
        split: worker_phase.splits option.splits draining_operation.splits)
  with assms(1) show ?thesis by (simp add: unready_def)
qed

lemma unready_init: "unready createInitialWorkerRuntimeState"
  by (simp add: unready_def slot_ok_def createInitialWorkerRuntimeState_def)

text \<open>Before, at and after the completion of the bootstrap.\<close>

lemma run_before_bootstrap:
  assumes "unready s" "\<forall>e \<in> set es. ordinary_event e s"
  shows "\<exists>s' h'. run_from s h es = Inr (s', h') \<and> unready s'"
proof -
  obtain s' h' where r: "run_from s h es = Inr (s', h')"
    using run_total [OF _ admitted_ordinary(2) [OF assms(2)]] assms(1) unfolding unready_def by blast
  with unready.run_keeps [OF assms(1) admitted_ordinary(1) [OF assms(2)]] show ?thesis by blast
qed

lemma run_one_bootstrap:
  assumes "healthy b" "\<forall>e \<in> set es \<union> set es'. ordinary_event e s"
  shows "\<exists>s h. run (es @ b # es') = Inr (s, h)"
proof -
  obtain s1 h1 where one: "run es = Inr (s1, h1)" "unready s1"
    using run_before_bootstrap [OF unready_init] assms(2) by (metis UnCI ordinary_event_def)
  have "orderly b s1"
    using assms(1) unready_matches [OF one(2)] by (cases b) (auto simp: healthy_def)
  moreover have "slot_ok s1" using one(2) by (simp add: unready_def)
  ultimately obtain s2 o2 where two: "reduceWorkerRuntime s1 b = Inr (s2, o2)" "slot_ok s2"
    using reduce_total slot.reduce_keeps by (metis surj_pair)
  obtain s3 h3 where "run_from s2 (h1 @ o2) es' = Inr (s3, h3)"
    using run_total [OF two(2) admitted_ordinary(2)] assms(2) by (metis UnCI ordinary_event_def)
  with one two show ?thesis by (simp add: run_from_append)
qed

lemma split_at_most_one:
  assumes "length (filter P xs) \<le> 1"
  shows "(\<forall>x \<in> set xs. \<not> P x) \<or> (\<exists>as x bs. xs = as @ x # bs \<and> (\<forall>y \<in> set as \<union> set bs. \<not> P y))"
proof (cases "filter P xs")
  case Nil
  then show ?thesis by (simp add: filter_empty_conv)
next
  case (Cons x rest)
  with assms have "filter P xs = [x]" by simp
  then obtain as bs where "xs = as @ x # bs" "\<forall>y \<in> set as. \<not> P y" "filter P bs = []"
    using filter_eq_Cons_iff [of P xs x "[]"] by auto
  then show ?thesis
    by (intro disjI2 exI [of _ as] exI [of _ x] exI [of _ bs]) (auto simp: filter_empty_conv)
qed

section \<open>Property\<close>



end
