(* ===== verification/Worker_Reporting.thy ===== *)
theory Worker_Reporting
  imports Worker_Trace
begin

text \<open>
  What the server can conclude from the \<open>worker.state\<close> facts: a reduction reports a change of the
  derived worker state exactly once and only when there is one, so that the state the server
  computes from the facts it received is the worker's own, until the worker exits.
\<close>

section \<open>State reports\<close>

fun state_report :: "worker_output \<Rightarrow> (reported_state \<times> reported_state) option" where
  "state_report (Protocol (WorkerStateChanged from to _)) = Some (from, to)"
| "state_report _ = None"

definition state_reports :: "worker_output list \<Rightarrow> (reported_state \<times> reported_state) list" where
  "state_reports outs = List.map_filter state_report outs"

lemma state_reports_simps [simp]:
  "state_reports [] = []"
  "state_reports (x # outs) = (case state_report x of None \<Rightarrow> [] | Some r \<Rightarrow> [r]) @ state_reports outs"
  "state_reports (outs @ outs') = state_reports outs @ state_reports outs'"
  by (auto simp: state_reports_def List.map_filter_def split: option.split)

lemma state_reports_none:
  "(\<And>a b c. Protocol (WorkerStateChanged a b c) \<notin> set outs) \<Longrightarrow> state_reports outs = []"
proof (induction outs)
  case (Cons x outs)
  then have "state_report x = None" by (cases x rule: state_report.cases) auto
  with Cons show ?case by auto
qed simp

lemma state_reports_map [simp]: "(\<And>x. state_report (f x) = None) \<Longrightarrow> state_reports (map f xs) = []"
  by (induction xs) auto

lemma reports_quiet [simp]:
  "state_report (heartbeat_fact s ses) = None" "state_report (inputConsumedFact i q k m) = None"
  "state_reports connected_facts = []" "state_reports (bootstrap_diagnostics ds) = []"
  "state_reports (ignored_facts items) = []" "state_report (credential_diagnostic c msg e) = None"
  by (simp_all add: heartbeat_fact_def connected_facts_def bootstrap_diagnostics_def ignored_facts_def
      inputConsumedFact_def credential_diagnostic_def)

text \<open>The state a server that knows the worker as \<open>init\<close> has after a list of reports.\<close>

definition server_view :: "reported_state \<Rightarrow> worker_output list \<Rightarrow> reported_state" where
  "server_view init outs = fold (\<lambda>(from, to) _. to) (state_reports outs) init"

text \<open>Each report starts from where the one before it ended.\<close>

fun chained :: "reported_state \<Rightarrow> (reported_state \<times> reported_state) list \<Rightarrow> bool" where
  "chained init [] = True"
| "chained init ((from, to) # rs) = (from = init \<and> from \<noteq> to \<and> chained to rs)"

lemma chained_append:
  "chained init (rs @ rs') \<longleftrightarrow> chained init rs \<and> chained (fold (\<lambda>(from, to) _. to) rs init) rs'"
  by (induction init rs rule: chained.induct) auto

section \<open>Handlers and \<open>advance\<close> report no state\<close>

interpretation silent: advance_invariant "\<lambda>s h. state_reports h = []"
  by unfold_locales
    (auto simp: finishReadying_def beginActivation_def armTimer_def begin_cleanup_def beginSnapshot_def
      split: worker_phase.splits if_splits option.splits snapshot_policy.splits)

lemma advance_silent: "advance s = Inr (s', outs) \<Longrightarrow> state_reports outs = []"
  using silent.advance_keeps [of "[]" s s' outs] by simp

lemma failure_silent: "failureOutputs s f = Inr (s', outs) \<Longrightarrow> state_reports outs = []"
  by (cases rule: failureOutputs_cases [of s f]) (fastforce intro!: state_reports_none)+

lemma publish_silent [simp]: "state_reports (snd (publishTerminalAndAwaitAcknowledgement s t)) = []"
  by (cases "pt_fact t")
    (simp_all add: publishTerminalAndAwaitAcknowledgement_def armTimer_def split: option.split)

lemma fatal_silent [simp]: "state_reports (snd (finishFatal s f)) = []"
  by (simp add: finishFatal_def split: option.split)

lemma applied_silent [simp]: "state_reports (snd (removeAppliedTargeted s a)) = []"
proof -
  have "state_reports (snd (snd (remove_applied a q l))) = []" for q l
    by (induction a q l rule: remove_applied.induct) (auto simp: Let_def split: prod.splits)
  then show ?thesis by (simp add: removeAppliedTargeted_def split_beta)
qed

lemma server_message_silent: "on_server_message m s = Inr r \<Longrightarrow> state_reports (snd r) = []"
  by (cases m)
    (auto simp: on_start_def on_turn_start_accepted_def beginActivation_def on_input_batch_def
      on_turn_terminal_recorded_def on_credential_update_accepted_def on_stop_requested_def
      split: if_splits worker_phase.splits publication_state.splits option.splits bool.splits)

lemma timer_silent: "on_timer_fired name cor s = Inr r \<Longrightarrow> state_reports (snd r) = []"
  by (cases name)
    (auto simp: on_timer_fired_def Let_def armTimer_def
      split: if_splits option.splits worker_phase.splits publication_state.splits)

lemma snapshot_silent: "on_snapshot_completed point turn err s = Inr r \<Longrightarrow> state_reports (snd r) = []"
  by (cases "publication (work s)"; cases r)
    (auto simp: on_snapshot_completed_def dest: failure_silent
      split: if_splits option.splits after_snapshot.splits worker_phase.splits cleaning_stage.splits,
      (metis fatal_silent publish_silent snd_conv)+)

lemma completed_silent:
  assumes "on_turn_completed tid res s = Inr r"
  shows "state_reports (snd r) = []"
proof -
  have "state_reports os = []" if "publish_result s n point tid' p = Inr (t, os)" for n tid' point p t os
    using that
    by (auto simp: publish_result_def beginSnapshot_def split: if_splits option.splits snapshot_policy.splits)
      (metis publish_silent snd_conv)
  moreover have "state_reports os = []" if "removeAppliedTargeted t a = (t', os)" for t a t' os
    using that applied_silent [of t a] by simp
  ultimately show ?thesis using assms
    by (auto simp: on_turn_completed_def Let_def split: if_splits turn_execution_result.splits prod.splits)
qed

lemma operations_silent:
  "on_bootstrap_failed sid err p s = Inr r \<Longrightarrow> state_reports (snd r) = []"
  "on_activation_succeeded sid tid ds s = Inr r \<Longrightarrow> state_reports (snd r) = []"
  "on_activation_failed sid tid err s = Inr r \<Longrightarrow> state_reports (snd r) = []"
  "on_turn_defect tid err s = Inr r \<Longrightarrow> state_reports (snd r) = []"
  "on_input_delivery_failed hs err s = Inr r \<Longrightarrow> state_reports (snd r) = []"
  "on_inputs_delivered hs dels m s = Inr r \<Longrightarrow> state_reports (snd r) = []"
  "on_cleanup_succeeded s = Inr r \<Longrightarrow> state_reports (snd r) = []"
  "on_cleanup_failed err s = Inr r \<Longrightarrow> state_reports (snd r) = []"
  "on_invariant_failed err s = Inr r \<Longrightarrow> state_reports (snd r) = []"
  by (cases r; auto simp: on_bootstrap_failed_def on_activation_succeeded_def on_activation_failed_def
      on_turn_defect_def busy_failure_def on_input_delivery_failed_def on_inputs_delivered_def
      on_cleanup_succeeded_def finishFatal_def on_cleanup_failed_def on_invariant_failed_def
      dest: failure_silent
      split: if_splits worker_phase.splits option.splits cleaning_stage.splits publication_state.splits)+

lemma session_events_silent:
  "on_runtime_started s = Inr r \<Longrightarrow> state_reports (snd r) = []"
  "on_session_tainted reason s = Inr r \<Longrightarrow> state_reports (snd r) = []"
  "on_stop_requested reason x s = Inr r \<Longrightarrow> state_reports (snd r) = []"
  "on_credential_sampled pid vs f s = Inr r \<Longrightarrow> state_reports (snd r) = []"
  "on_credential_sample_failed pid err s = Inr r \<Longrightarrow> state_reports (snd r) = []"
  "on_transport_connected s = Inr r \<Longrightarrow> state_reports (snd r) = []"
  "on_bootstrap_succeeded sid c s = Inr r \<Longrightarrow> state_reports (snd r) = []"
  by (auto simp: on_runtime_started_def on_session_tainted_def on_stop_requested_def
      on_credential_sampled_def on_credential_sample_failed_def armTimer_def
      on_transport_connected_def split_beta Let_def on_bootstrap_succeeded_def beginSnapshot_def
      split: if_splits worker_phase.splits option.splits publication_state.splits snapshot_policy.splits)

lemma handler_silent:
  assumes "handle_event e s = Inr (s', outs)"
  shows "state_reports outs = []"
  using assms server_message_silent [where r = "(s', outs)"] timer_silent [where r = "(s', outs)"]
    snapshot_silent [where r = "(s', outs)"] completed_silent [where r = "(s', outs)"]
    operations_silent [where r = "(s', outs)"] session_events_silent [where r = "(s', outs)"]
  by (cases e) (simp_all add: failure_silent, auto?)

lemma reduce_reports:
  assumes "reduceWorkerRuntime s e = Inr (s', outs)" "phase s \<noteq> Exited"
  shows "state_reports outs =
    (if deriveReportedWorkerState s \<noteq> deriveReportedWorkerState s' \<and> phase s' \<noteq> Exited
     then [(deriveReportedWorkerState s, deriveReportedWorkerState s')] else [])"
proof -
  obtain n o1 n' o2 where "handle_event (effective_event e) s = Inr (n, o1)" "advance n = Inr (n', o2)"
    and r: "(s', outs) = withReportedTransition s n' (effective_event e) (o1 @ o2)"
    using assms by (auto simp: reduceWorkerRuntime_def)
  then have "state_reports (o1 @ o2) = []" using handler_silent advance_silent by simp
  with r show ?thesis by (auto simp: withReportedTransition_def Let_def split: if_splits)
qed

lemma run_reports:
  assumes "run_from s h es = Inr (s', h')" "chained init (state_reports h)"
    "phase s = Exited \<or> server_view init h = deriveReportedWorkerState s"
  shows "chained init (state_reports h') \<and>
    (phase s' = Exited \<or> server_view init h' = deriveReportedWorkerState s')"
  using assms
proof (induction es arbitrary: s h)
  case (Cons e es)
  then obtain t outs where step: "reduceWorkerRuntime s e = Inr (t, outs)"
    and rest: "run_from t (h @ outs) es = Inr (s', h')" by auto
  have "chained init (state_reports (h @ outs)) \<and>
      (phase t = Exited \<or> server_view init (h @ outs) = deriveReportedWorkerState t)"
  proof (cases "phase s = Exited")
    case True
    then have "t = s \<and> outs = []" using step
      by (cases "e = RuntimeStarted")
        (auto simp: reduceWorkerRuntime_def on_runtime_started_def withReportedTransition_def)
    with Cons.prems True show ?thesis by simp
  next
    case False
    with Cons.prems(3) have "server_view init h = deriveReportedWorkerState s" by simp
    with reduce_reports [OF step False] Cons.prems(2) show ?thesis
      by (auto simp: server_view_def chained_append)
  qed
  with Cons.IH [OF rest] show ?case by blast
qed simp

section \<open>Property\<close>



end
