(* ===== verification/Worker_Driver.thy ===== *)
theory Worker_Driver
  imports Worker_Trace
begin

text \<open>
  The driver around the reducer, \<^verbatim>\<open>packages/worker/src/runtime/index.ts\<close>: the event queue with its
  non-reentrant drain loop, the commands it launches, the invariant failure a throw becomes, and
  the redaction of everything that leaves the worker; with the delivery of input batches of
  \<^verbatim>\<open>input-consumer.ts\<close>. The adapters are a parameter: \<open>faults\<close> gives what the adapter call for an
  output throws, if it throws. An asynchronous operation stays in \<open>drv_running\<close> until it completes.
\<close>

section \<open>Delivering inputs\<close>

definition classifyDeliveryMode :: "input_item \<Rightarrow> bool \<Rightarrow> delivery_mode" where
  "classifyDeliveryMode input sessionHasActiveTurn =
     (if in_kind input = ''system_event'' \<or> sessionHasActiveTurn then ModeSteer else ModePrompt)"

definition deliverInput :: "input_item \<Rightarrow> delivery_mode \<Rightarrow> delivered_input" where
  "deliverInput input mode =
     \<lparr>di_inputId = in_inputId input, di_sequence = in_sequence input, di_deliveryMode = mode\<rparr>"

text \<open>\<open>send\<close> is the Pi session: what prompting or steering it with a body throws, if it throws.\<close>

fun deliver_from ::
  "(delivery_mode \<Rightarrow> string \<Rightarrow> js_thrown option) \<Rightarrow> bool \<Rightarrow> bool \<Rightarrow> input_item list \<Rightarrow>
   js_thrown + delivered_input list" where
  "deliver_from send first active [] = Inr []"
| "deliver_from send first active (i # is) =
     (let mode = (if first then classifyDeliveryMode i active else ModeSteer) in
      case send mode (in_bodyMarkdown i) of
        Some err \<Rightarrow> Inl err
      | None \<Rightarrow> (case deliver_from send False active is of
                   Inl err \<Rightarrow> Inl err
                 | Inr out \<Rightarrow> Inr (deliverInput i mode # out)))"

definition deliverBatch ::
  "(delivery_mode \<Rightarrow> string \<Rightarrow> js_thrown option) \<Rightarrow> input_item list \<Rightarrow> bool \<Rightarrow>
   js_thrown + delivered_input list" where
  "deliverBatch send inputs hasActiveTurn = deliver_from send True hasActiveTurn inputs"

section \<open>Redaction\<close>

definition redact :: "string list \<Rightarrow> string \<Rightarrow> string" where
  "redact secrets text = redactSecrets text (sort_key (\<lambda>s. - int (length s)) secrets)"

fun redact_json :: "string list \<Rightarrow> json \<Rightarrow> json" where
  "redact_json secrets (JStr s) = JStr (redact secrets s)"
| "redact_json secrets (JArr xs) = JArr (map (redact_json secrets) xs)"
| "redact_json secrets (JObj fs) = JObj (map (\<lambda>(k, v). (k, redact_json secrets v)) fs)"
| "redact_json secrets v = v"

definition redactValue :: "string list \<Rightarrow> json \<Rightarrow> json" where
  "redactValue secrets v = (if secrets = [] then v else redact_json secrets v)"

section \<open>The driver\<close>

record driver =
  drv_state :: worker_state
  drv_queue :: "worker_event list"
  drv_invariantQueued :: bool
  drv_running :: "worker_command list"
  drv_timers :: "timer_name \<Rightarrow> string option"
  drv_closed :: bool
  drv_exits :: "int list"
  drv_piHandle :: bool
  drv_projected :: "worker_output list"
  drv_deliveredSecrets :: "string list"
  drv_inspectionSecrets :: "string list"

definition initial_driver :: driver where
  "initial_driver =
     \<lparr>drv_state = createInitialWorkerRuntimeState, drv_queue = [], drv_invariantQueued = False,
      drv_running = [], drv_timers = (\<lambda>_. None), drv_closed = False, drv_exits = [],
      drv_piHandle = False, drv_projected = [], drv_deliveredSecrets = [], drv_inspectionSecrets = []\<rparr>"

text \<open>An \<open>Error\<close> object with a message.\<close>

definition js_error :: "string \<Rightarrow> js_thrown" where
  "js_error message =
     ThrownObj 0 \<lparr>ep_turnError = None, ep_isError = True, ep_isAggregate = False,
       ep_name = Some ''Error'', ep_code = None, ep_message = Some message, ep_errorClass = None,
       ep_rendered = ''Error: '' @ message\<rparr> None None"

definition invariant :: "js_thrown \<Rightarrow> driver \<Rightarrow> driver" where
  "invariant err d =
     (if drv_invariantQueued d \<or> phase (drv_state d) = Exited then d
      else d\<lparr>drv_invariantQueued := True, drv_queue := drv_queue d @ [InvariantFailed err]\<rparr>)"

fun launch :: "worker_command \<Rightarrow> driver \<Rightarrow> driver" where
  "launch (CmdArmTimer name delay cor) d = d\<lparr>drv_timers := (drv_timers d)(name := Some cor)\<rparr>"
| "launch (CmdCancelTimer name) d = d\<lparr>drv_timers := (drv_timers d)(name := None)\<rparr>"
| "launch CmdCloseTransport d = d\<lparr>drv_timers := (\<lambda>_. None), drv_closed := True\<rparr>"
| "launch (CmdExit code) d = d\<lparr>drv_exits := drv_exits d @ [code]\<rparr>"
| "launch (CmdDeliverInputs hs inputs active) d =
     (if \<not> drv_piHandle d
      then d\<lparr>drv_queue := drv_queue d @
               [InputDeliveryFailed hs (js_error ''Input delivery requires an active Pi handle'')]\<rparr>
      else d\<lparr>drv_running := drv_running d @ [CmdDeliverInputs hs inputs active]\<rparr>)"
| "launch c d = d\<lparr>drv_running := drv_running d @ [c]\<rparr>"

definition processOutput :: "(worker_output \<Rightarrow> js_thrown option) \<Rightarrow> worker_output \<Rightarrow> driver \<Rightarrow> js_thrown + driver" where
  "processOutput faults out d =
     (case faults out of
        Some err \<Rightarrow> Inl err
      | None \<Rightarrow> Inr (case out of
            Command c \<Rightarrow> launch c d
          | _ \<Rightarrow> d\<lparr>drv_projected := drv_projected d @ [out]\<rparr>))"

fun process_outputs :: "(worker_output \<Rightarrow> js_thrown option) \<Rightarrow> worker_output list \<Rightarrow> driver \<Rightarrow> driver" where
  "process_outputs faults [] d = d"
| "process_outputs faults (out # outs) d =
     (case processOutput faults out d of
        Inl err \<Rightarrow> invariant err d
      | Inr d' \<Rightarrow> process_outputs faults outs d')"

text \<open>One round of the drain loop, with the event that was shifted off the queue.\<close>

definition drain_event :: "(worker_output \<Rightarrow> js_thrown option) \<Rightarrow> worker_event \<Rightarrow> driver \<Rightarrow> driver" where
  "drain_event faults event d =
     (let d = (case event of InvariantFailed _ \<Rightarrow> d\<lparr>drv_invariantQueued := False\<rparr> | _ \<Rightarrow> d) in
      case reduceWorkerRuntime (drv_state d) event of
        Inl message \<Rightarrow> invariant (js_error message) d
      | Inr (s, outs) \<Rightarrow> process_outputs faults outs (d\<lparr>drv_state := s\<rparr>))"

partial_function (option) drain :: "(worker_output \<Rightarrow> js_thrown option) \<Rightarrow> driver \<Rightarrow> driver option" where
  "drain faults d =
     (case drv_queue d of
        [] \<Rightarrow> Some d
      | event # rest \<Rightarrow> drain faults (drain_event faults event (d\<lparr>drv_queue := rest\<rparr>)))"

declare drain.simps [code]

definition dispatch :: "(worker_output \<Rightarrow> js_thrown option) \<Rightarrow> worker_event \<Rightarrow> driver \<Rightarrow> driver option" where
  "dispatch faults event d = drain faults (d\<lparr>drv_queue := drv_queue d @ [event]\<rparr>)"

text \<open>
  \<open>receive\<close>: secrets are remembered before the start message is dispatched; replies to questions and
  integration tools go to their bridges; an abort is observed after the turn was told to stop.
\<close>

definition remember_secrets :: "server_message \<Rightarrow> driver \<Rightarrow> driver" where
  "remember_secrets message d =
     (case message of
        MsgStart payload \<Rightarrow>
          d\<lparr>drv_inspectionSecrets :=
              fold jsset_add (extractSecretValuesFromPayload (Some payload)) (drv_inspectionSecrets d),
            drv_deliveredSecrets :=
              fold jsset_add (extractDockerRegistrySecretValues payload) (drv_deliveredSecrets d)\<rparr>
      | _ \<Rightarrow> d)"

definition receive :: "(worker_output \<Rightarrow> js_thrown option) \<Rightarrow> server_message \<Rightarrow> driver \<Rightarrow> driver option" where
  "receive faults message d =
     (let d = remember_secrets message d in
      case message of
        MsgOther \<Rightarrow> Some d
      | MsgAbortTurn _ \<Rightarrow> dispatch faults OperatorAbortObserved d
      | _ \<Rightarrow> dispatch faults (ServerMessage message) d)"

definition stop_runtime :: "(worker_output \<Rightarrow> js_thrown option) \<Rightarrow> string \<Rightarrow> driver \<Rightarrow> driver option" where
  "stop_runtime faults reason d =
     (if phase (drv_state d) = Exited then Some d else dispatch faults (StopRequested reason False) d)"

section \<open>The drain loop refines a run of the reducer\<close>

text \<open>Outputs that are reported, and the operations that are started.\<close>

fun reported :: "worker_output \<Rightarrow> bool" where
  "reported (Command _) = False"
| "reported _ = True"

fun operation_of :: "worker_output \<Rightarrow> worker_command option" where
  "operation_of (Command (CmdArmTimer _ _ _)) = None"
| "operation_of (Command (CmdCancelTimer _)) = None"
| "operation_of (Command CmdCloseTransport) = None"
| "operation_of (Command (CmdExit _)) = None"
| "operation_of (Command c) = Some c"
| "operation_of _ = None"

definition operations :: "worker_output list \<Rightarrow> worker_command list" where
  "operations outs = List.map_filter operation_of outs"

lemma operations_simps [simp]:
  "operations [] = []"
  "operations (x # outs) = (case operation_of x of None \<Rightarrow> [] | Some c \<Rightarrow> [c]) @ operations outs"
  "operations (outs @ outs') = operations outs @ operations outs'"
  by (auto simp: operations_def List.map_filter_def split: option.split)

definition no_faults :: "worker_output \<Rightarrow> js_thrown option" where
  "no_faults out = None"

lemma launch_frame [simp]:
  "drv_state (launch c d) = drv_state d" "drv_piHandle (launch c d) = drv_piHandle d"
  "drv_projected (launch c d) = drv_projected d"
  "drv_invariantQueued (launch c d) = drv_invariantQueued d"
  by (cases c; simp)+

lemma launch_effect:
  assumes "drv_piHandle d"
  shows "drv_queue (launch c d) = drv_queue d"
    "drv_running (launch c d) = drv_running d @ operations [Command c]"
  using assms by (cases c; simp)+

lemma process_outputs_quiet:
  assumes "drv_piHandle d"
  shows "drv_queue (process_outputs no_faults outs d) = drv_queue d \<and>
    drv_state (process_outputs no_faults outs d) = drv_state d \<and>
    drv_piHandle (process_outputs no_faults outs d) \<and>
    drv_projected (process_outputs no_faults outs d) = drv_projected d @ filter reported outs \<and>
    drv_running (process_outputs no_faults outs d) = drv_running d @ operations outs"
  using assms
proof (induction outs arbitrary: d)
  case (Cons x outs)
  obtain d' where d': "processOutput no_faults x d = Inr d'" "drv_queue d' = drv_queue d"
    "drv_state d' = drv_state d" "drv_piHandle d'"
    "drv_projected d' = drv_projected d @ filter reported [x]"
    "drv_running d' = drv_running d @ operations [x]"
    using launch_effect [OF Cons.prems] Cons.prems
    by (cases x) (auto simp: processOutput_def no_faults_def)
  with Cons.IH [OF d'(4)] show ?case by simp
qed simp

lemma drain_event_quiet:
  assumes "drv_piHandle d" "reduceWorkerRuntime (drv_state d) e = Inr (s, outs)"
  shows "drv_queue (drain_event no_faults e d) = drv_queue d \<and>
    drv_state (drain_event no_faults e d) = s \<and> drv_piHandle (drain_event no_faults e d) \<and>
    drv_projected (drain_event no_faults e d) = drv_projected d @ filter reported outs \<and>
    drv_running (drain_event no_faults e d) = drv_running d @ operations outs"
proof -
  define d1 where "d1 = (case e of InvariantFailed _ \<Rightarrow> d\<lparr>drv_invariantQueued := False\<rparr> | _ \<Rightarrow> d)"
  have "drv_piHandle d1" "drv_state d1 = drv_state d" "drv_queue d1 = drv_queue d"
    "drv_projected d1 = drv_projected d" "drv_running d1 = drv_running d"
    using assms(1) by (simp_all add: d1_def split: worker_event.split)
  with process_outputs_quiet [of "d1\<lparr>drv_state := s\<rparr>" outs] assms(2) show ?thesis
    by (simp add: drain_event_def d1_def [symmetric] Let_def)
qed

lemma run_from_extends: "run_from s h es = Inr (s', h') \<Longrightarrow> \<exists>k. h' = h @ k"
proof (induction es arbitrary: s h)
  case (Cons e es)
  then obtain t outs where "run_from t (h @ outs) es = Inr (s', h')" by auto
  from Cons.IH [OF this] show ?case by auto
qed simp

lemma drain_refines:
  assumes "run_from (drv_state d) h (drv_queue d) = Inr (s, h @ h')" "drv_piHandle d"
  shows "\<exists>d'. drain no_faults d = Some d' \<and> drv_state d' = s \<and> drv_queue d' = [] \<and>
    drv_projected d' = drv_projected d @ filter reported h' \<and>
    drv_running d' = drv_running d @ operations h'"
  using assms
proof (induction "drv_queue d" arbitrary: d h h')
  case Nil
  then show ?case by (subst drain.simps) simp
next
  case (Cons e es)
  let ?d = "drain_event no_faults e (d\<lparr>drv_queue := es\<rparr>)"
  have "\<exists>t outs. reduceWorkerRuntime (drv_state d) e = Inr (t, outs) \<and>
      run_from t (h @ outs) es = Inr (s, h @ h')"
    using Cons.prems(1) Cons.hyps(2) [symmetric] by auto
  then obtain t outs where step: "reduceWorkerRuntime (drv_state d) e = Inr (t, outs)"
    and rest: "run_from t (h @ outs) es = Inr (s, h @ h')" by blast
  have ev: "drv_queue ?d = es" "drv_state ?d = t" "drv_piHandle ?d"
    "drv_projected ?d = drv_projected d @ filter reported outs"
    "drv_running ?d = drv_running d @ operations outs"
    using drain_event_quiet [of "d\<lparr>drv_queue := es\<rparr>" e t outs] Cons.prems(2) step by simp_all
  obtain h'' where h'': "h @ h' = (h @ outs) @ h''"
    using run_from_extends [OF rest] by blast
  then have "run_from (drv_state ?d) (h @ outs) (drv_queue ?d) = Inr (s, (h @ outs) @ h'')"
    using rest ev by simp
  from Cons.hyps(1) [OF _ this ev(3)] ev h'' show ?case
    using Cons.hyps(2) [symmetric] by (subst drain.simps) simp
qed

section \<open>Throws become one invariant failure\<close>

fun is_invariant_failed :: "worker_event \<Rightarrow> bool" where
  "is_invariant_failed (InvariantFailed _) = True"
| "is_invariant_failed _ = False"

text \<open>The flag of the driver tells whether an invariant failure is queued, and it is never queued twice.\<close>

definition invariant_flagged :: "driver \<Rightarrow> bool" where
  "invariant_flagged d \<longleftrightarrow>
     length (filter is_invariant_failed (drv_queue d)) = (if drv_invariantQueued d then 1 else 0)"

lemma flagged_invariant: "invariant_flagged d \<Longrightarrow> invariant_flagged (invariant err d)"
  by (auto simp: invariant_flagged_def invariant_def split: if_splits)

lemma flagged_launch: "invariant_flagged d \<Longrightarrow> invariant_flagged (launch c d)"
  by (cases c) (auto simp: invariant_flagged_def)

lemma flagged_outputs: "invariant_flagged d \<Longrightarrow> invariant_flagged (process_outputs faults outs d)"
proof (induction outs arbitrary: d)
  case (Cons x outs)
  have "invariant_flagged d'" if "processOutput faults x d = Inr d'" for d'
  proof -
    have "invariant_flagged (d\<lparr>drv_projected := p\<rparr>)" for p
      using Cons.prems by (simp add: invariant_flagged_def)
    then show ?thesis using that flagged_launch [OF Cons.prems]
      by (auto simp: processOutput_def split: option.splits worker_output.splits)
  qed
  with Cons show ?case by (auto simp: flagged_invariant split: sum.split)
qed simp

lemma flagged_drain_event:
  assumes "invariant_flagged d" "drv_queue d = e # rest"
  shows "invariant_flagged (drain_event faults e (d\<lparr>drv_queue := rest\<rparr>))"
proof -
  define d1 where "d1 = (case e of
      InvariantFailed _ \<Rightarrow> (d\<lparr>drv_queue := rest\<rparr>)\<lparr>drv_invariantQueued := False\<rparr>
    | _ \<Rightarrow> d\<lparr>drv_queue := rest\<rparr>)"
  have "invariant_flagged d1"
    using assms by (cases e) (auto simp: d1_def invariant_flagged_def split: if_splits)
  moreover have "drain_event faults e (d\<lparr>drv_queue := rest\<rparr>) =
      (case reduceWorkerRuntime (drv_state d1) e of
         Inl message \<Rightarrow> invariant (js_error message) d1
       | Inr (s, outs) \<Rightarrow> process_outputs faults outs (d1\<lparr>drv_state := s\<rparr>))"
    unfolding drain_event_def d1_def [symmetric] Let_def ..
  moreover have "invariant_flagged (d1\<lparr>drv_state := s\<rparr>)" for s
    using \<open>invariant_flagged d1\<close> by (simp add: invariant_flagged_def)
  ultimately show ?thesis by (auto simp: flagged_invariant flagged_outputs split: sum.split)
qed

section \<open>What a batch delivers and what redaction leaves\<close>

lemma deliver_from_reports:
  assumes "deliver_from send first active inputs = Inr out"
  shows "map (\<lambda>d. (di_inputId d, di_sequence d)) out = map (\<lambda>i. (in_inputId i, in_sequence i)) inputs \<and>
    (\<forall>d \<in> set (if first then drop 1 out else out). di_deliveryMode d = ModeSteer) \<and>
    list_all2 (\<lambda>d i. send (di_deliveryMode d) (in_bodyMarkdown i) = None) out inputs"
  using assms
proof (induction send first active inputs arbitrary: out rule: deliver_from.induct)
  case (2 send first active i "is")
  let ?mode = "if first then classifyDeliveryMode i active else ModeSteer"
  from 2(2) obtain rest where "send ?mode (in_bodyMarkdown i) = None"
    "deliver_from send False active is = Inr rest" "out = deliverInput i ?mode # rest"
    by (auto simp: Let_def split: option.splits sum.splits)
  with 2(1) [OF refl, of rest] show ?case by (auto simp: deliverInput_def)
qed simp

fun json_strings :: "json \<Rightarrow> string list" where
  "json_strings (JStr s) = [s]"
| "json_strings (JArr xs) = concat (map json_strings xs)"
| "json_strings (JObj fs) = concat (map (\<lambda>(k, v). json_strings v) fs)"
| "json_strings _ = []"

lemma redact_removes:
  assumes "s \<in> set secrets" "CHR ''<'' \<notin> set s" "CHR ''>'' \<notin> set s" "\<not> sublist s ''redacted''"
  shows "\<not> sublist s (redact secrets m)"
  unfolding redact_def using assms by (intro redactSecrets_removes) auto

lemma redact_json_removes:
  assumes "s \<in> set secrets" "CHR ''<'' \<notin> set s" "CHR ''>'' \<notin> set s" "\<not> sublist s ''redacted''"
  shows "\<forall>t \<in> set (json_strings (redact_json secrets v)). \<not> sublist s t"
  using redact_removes [OF assms] by (induction v rule: json_strings.induct) fastforce+

section \<open>Properties\<close>



text \<open>
  However often reductions and adapters throw, at most one invariant failure waits in the
  queue, and the driver's flag says whether one does: every round of the drain loop keeps this.
\<close>

lemma invariant_failure_queued_once:
  assumes "invariant_flagged d" "drv_queue d = e # rest"
  shows "invariant_flagged (drain_event faults e (d\<lparr>drv_queue := rest\<rparr>)) \<and>
    length (filter is_invariant_failed (drv_queue (drain_event faults e (d\<lparr>drv_queue := rest\<rparr>)))) \<le> 1"
  using flagged_drain_event [OF assms, of faults] by (auto simp: invariant_flagged_def split: if_splits)

text \<open>
  A delivered batch reports exactly its inputs, in order and with their sequence numbers; only
  its first input can open a prompt, all later ones steer the turn that the first one runs in; and
  nothing is reported when the session rejects an input.
\<close>

lemma delivered_batch_reports_its_inputs:
  assumes "deliverBatch send inputs active = Inr out"
  shows "map (\<lambda>d. (di_inputId d, di_sequence d)) out = map (\<lambda>i. (in_inputId i, in_sequence i)) inputs \<and>
    (\<forall>d \<in> set (drop 1 out). di_deliveryMode d = ModeSteer) \<and>
    (\<forall>i < length inputs. send (di_deliveryMode (out ! i)) (in_bodyMarkdown (inputs ! i)) = None)"
proof -
  note r = deliver_from_reports [OF assms [unfolded deliverBatch_def]]
  then have "length out = length inputs" by (auto dest: list_all2_lengthD)
  with r show ?thesis by (auto simp: list_all2_conv_all_nth)
qed



end
