(* ===== verification/Worker_Lease.thy ===== *)
theory Worker_Lease
  imports Domain_Types
begin

text \<open>
  The server's view of a worker's physical lease,
  \<^verbatim>\<open>packages/server/src/domain-logic/worker-lease-lifecycle.ts\<close>: the table of transitions, the
  observations that are already satisfied, and \<open>transitionWorkerLeaseState\<close>, which decides between
  them; with the step relation the table induces and what is reachable through it.
\<close>

section \<open>States, observations and the table\<close>

datatype lease_state = Absent | Spawning | LeaseBootstrapping | LeaseIdle | LeaseBusy
  | LeaseDraining | LeaseFailed | LeaseCleanup | LeaseExited

datatype lease_observation = SpawnRequested | HandshakeReceived | BootstrapCompleted | BusyReported
  | IdleReported | StopObserved | FailureReported | CleanupObserved | ProcessExited | Reclaimed

record lease_rule =
  lr_from :: lease_state
  lr_to :: lease_state
  lr_observation :: lease_observation

abbreviation rule :: "lease_state \<Rightarrow> lease_state \<Rightarrow> lease_observation \<Rightarrow> lease_rule" where
  "rule a b obs \<equiv> \<lparr>lr_from = a, lr_to = b, lr_observation = obs\<rparr>"

definition WORKER_LEASE_TRANSITIONS :: "lease_rule list" where
  "WORKER_LEASE_TRANSITIONS =
     [rule Absent Spawning SpawnRequested,
      rule Spawning LeaseBootstrapping HandshakeReceived,
      rule LeaseBootstrapping LeaseIdle BootstrapCompleted,
      rule LeaseIdle LeaseBusy BusyReported,
      rule LeaseBusy LeaseIdle IdleReported,
      rule Spawning LeaseDraining StopObserved,
      rule LeaseBootstrapping LeaseDraining StopObserved,
      rule LeaseIdle LeaseDraining StopObserved,
      rule LeaseBusy LeaseDraining StopObserved,
      rule Spawning LeaseFailed FailureReported,
      rule LeaseBootstrapping LeaseFailed FailureReported,
      rule LeaseIdle LeaseFailed FailureReported,
      rule LeaseBusy LeaseFailed FailureReported,
      rule LeaseDraining LeaseFailed FailureReported,
      rule LeaseCleanup LeaseFailed FailureReported,
      rule LeaseDraining LeaseCleanup CleanupObserved,
      rule LeaseFailed LeaseCleanup CleanupObserved,
      rule Spawning LeaseExited ProcessExited,
      rule LeaseBootstrapping LeaseExited ProcessExited,
      rule LeaseIdle LeaseExited ProcessExited,
      rule LeaseBusy LeaseExited ProcessExited,
      rule LeaseDraining LeaseExited ProcessExited,
      rule LeaseFailed LeaseExited ProcessExited,
      rule LeaseCleanup LeaseExited ProcessExited,
      rule LeaseExited Absent Reclaimed]"

fun WORKER_LEASE_NOOPS :: "lease_observation \<Rightarrow> lease_state list" where
  "WORKER_LEASE_NOOPS SpawnRequested = []"
| "WORKER_LEASE_NOOPS HandshakeReceived =
     [LeaseBootstrapping, LeaseIdle, LeaseBusy, LeaseDraining, LeaseFailed, LeaseCleanup, LeaseExited]"
| "WORKER_LEASE_NOOPS BootstrapCompleted =
     [LeaseIdle, LeaseBusy, LeaseDraining, LeaseFailed, LeaseCleanup, LeaseExited]"
| "WORKER_LEASE_NOOPS BusyReported = [LeaseBusy, LeaseDraining, LeaseFailed, LeaseCleanup, LeaseExited]"
| "WORKER_LEASE_NOOPS IdleReported = [LeaseIdle, LeaseDraining, LeaseFailed, LeaseCleanup, LeaseExited]"
| "WORKER_LEASE_NOOPS StopObserved = [Absent, LeaseDraining, LeaseFailed, LeaseCleanup, LeaseExited]"
| "WORKER_LEASE_NOOPS FailureReported = [LeaseFailed, LeaseExited]"
| "WORKER_LEASE_NOOPS CleanupObserved = [LeaseCleanup, LeaseExited]"
| "WORKER_LEASE_NOOPS ProcessExited = [Absent, LeaseExited]"
| "WORKER_LEASE_NOOPS Reclaimed = [Absent]"

fun lease_state_name :: "lease_state \<Rightarrow> string" where
  "lease_state_name Absent = ''absent''"
| "lease_state_name Spawning = ''spawning''"
| "lease_state_name LeaseBootstrapping = ''bootstrapping''"
| "lease_state_name LeaseIdle = ''idle''"
| "lease_state_name LeaseBusy = ''busy''"
| "lease_state_name LeaseDraining = ''draining''"
| "lease_state_name LeaseFailed = ''failed''"
| "lease_state_name LeaseCleanup = ''cleanup''"
| "lease_state_name LeaseExited = ''exited''"

fun observation_name :: "lease_observation \<Rightarrow> string" where
  "observation_name SpawnRequested = ''spawn_requested''"
| "observation_name HandshakeReceived = ''handshake_received''"
| "observation_name BootstrapCompleted = ''bootstrap_completed''"
| "observation_name BusyReported = ''busy_reported''"
| "observation_name IdleReported = ''idle_reported''"
| "observation_name StopObserved = ''stop_requested''"
| "observation_name FailureReported = ''failure_reported''"
| "observation_name CleanupObserved = ''cleanup_completed''"
| "observation_name ProcessExited = ''process_exited''"
| "observation_name Reclaimed = ''reclaimed''"

datatype lease_result =
    LeaseApplied lease_state lease_state lease_observation
  | LeaseNoop lease_state lease_state lease_observation string
  | LeaseInvalid lease_state lease_observation string

definition normalizeWorkerLeaseState :: "lease_state option \<Rightarrow> lease_state" where
  "normalizeWorkerLeaseState st = coalesce st Absent"

definition transitionWorkerLeaseState :: "lease_state option \<Rightarrow> lease_observation \<Rightarrow> lease_result" where
  "transitionWorkerLeaseState currentState obs =
     (let st = normalizeWorkerLeaseState currentState in
      case find (\<lambda>r. lr_from r = st \<and> lr_observation r = obs) WORKER_LEASE_TRANSITIONS of
        Some r \<Rightarrow> LeaseApplied (lr_from r) (lr_to r) obs
      | None \<Rightarrow>
          if st \<in> set (WORKER_LEASE_NOOPS obs)
          then LeaseNoop st st obs (''Observation '' @ [CHR 0x27] @ observation_name obs @
                 [CHR 0x27] @ '' is already satisfied from worker lease state '' @ [CHR 0x27] @
                 lease_state_name st @ [CHR 0x27])
          else LeaseInvalid st obs (''No worker lease transition from '' @ [CHR 0x27] @
                 lease_state_name st @ [CHR 0x27] @ '' with observation '' @ [CHR 0x27] @
                 observation_name obs @ [CHR 0x27]))"

text \<open>The state a supervisor keeps after an observation: a transition moves it, nothing else does.\<close>

definition observe_lease :: "lease_state \<Rightarrow> lease_observation \<Rightarrow> lease_state" where
  "observe_lease st obs =
     (case transitionWorkerLeaseState (Some st) obs of LeaseApplied _ to _ \<Rightarrow> to | _ \<Rightarrow> st)"

section \<open>The step relation of the table\<close>

inductive lease_step :: "lease_state \<Rightarrow> lease_observation \<Rightarrow> lease_state \<Rightarrow> bool" where
  table: "r \<in> set WORKER_LEASE_TRANSITIONS \<Longrightarrow> lease_step (lr_from r) (lr_observation r) (lr_to r)"

inductive_simps lease_step_iff: "lease_step a obs b"

lemma find_unique_key:
  "distinct (map f xs) \<Longrightarrow> r \<in> set xs \<Longrightarrow> find (\<lambda>q. f q = f r) xs = Some r"
  by (induction xs) (auto simp: image_iff)

lemma lease_table_functional:
  "distinct (map (\<lambda>r. (lr_from r, lr_observation r)) WORKER_LEASE_TRANSITIONS)"
  by (simp add: WORKER_LEASE_TRANSITIONS_def)

lemma find_rule:
  assumes "r \<in> set WORKER_LEASE_TRANSITIONS"
  shows "find (\<lambda>q. lr_from q = lr_from r \<and> lr_observation q = lr_observation r) WORKER_LEASE_TRANSITIONS = Some r"
  using find_unique_key [OF lease_table_functional assms] by simp

lemma applied_iff_step:
  "transitionWorkerLeaseState (Some a) obs = LeaseApplied a b obs \<longleftrightarrow> lease_step a obs b"
proof
  assume "lease_step a obs b"
  then show "transitionWorkerLeaseState (Some a) obs = LeaseApplied a b obs"
    using find_rule by (auto simp: lease_step_iff transitionWorkerLeaseState_def normalizeWorkerLeaseState_def)
next
  assume a: "transitionWorkerLeaseState (Some a) obs = LeaseApplied a b obs"
  then obtain r where r: "find (\<lambda>r. lr_from r = a \<and> lr_observation r = obs) WORKER_LEASE_TRANSITIONS = Some r"
    "lr_to r = b"
    by (auto simp: transitionWorkerLeaseState_def normalizeWorkerLeaseState_def Let_def
        split: option.splits if_splits)
  then have "r \<in> set WORKER_LEASE_TRANSITIONS" "lr_from r = a" "lr_observation r = obs"
    by (auto simp: find_Some_iff)
  with r(2) show "lease_step a obs b" by (auto simp: lease_step_iff)
qed

lemma lease_step_cases:
  "lease_step a obs b \<longleftrightarrow> (a, obs, b) \<in> set (map (\<lambda>r. (lr_from r, lr_observation r, lr_to r)) WORKER_LEASE_TRANSITIONS)"
  by (auto simp: lease_step_iff)

lemma observe_lease_step: "observe_lease a obs = b \<longleftrightarrow> lease_step a obs b \<or> (a = b \<and> (\<nexists>c. lease_step a obs c))"
proof (cases "\<exists>c. lease_step a obs c")
  case True
  then obtain c where c: "transitionWorkerLeaseState (Some a) obs = LeaseApplied a c obs"
    "lease_step a obs c" using applied_iff_step by blast
  then have "lease_step a obs b \<Longrightarrow> b = c" using applied_iff_step [of a obs b] by simp
  with c show ?thesis by (auto simp: observe_lease_def)
next
  case False
  then have "\<nexists>c. transitionWorkerLeaseState (Some a) obs = LeaseApplied a c obs"
    using applied_iff_step by blast
  moreover have "transitionWorkerLeaseState (Some a) obs = LeaseApplied a' c obs' \<Longrightarrow> a' = a \<and> obs' = obs" for a' c obs'
    by (auto simp: transitionWorkerLeaseState_def normalizeWorkerLeaseState_def Let_def find_Some_iff
        split: option.splits if_splits)
  ultimately have "observe_lease a obs = a"
    unfolding observe_lease_def by (auto split: lease_result.split)
  with False show ?thesis by auto
qed

text \<open>How far a lease has come; only a reclaim starts over.\<close>

fun lease_rank :: "lease_state \<Rightarrow> nat" where
  "lease_rank Absent = 0"
| "lease_rank Spawning = 1"
| "lease_rank LeaseBootstrapping = 2"
| "lease_rank LeaseIdle = 3"
| "lease_rank LeaseBusy = 3"
| "lease_rank LeaseDraining = 4"
| "lease_rank LeaseFailed = 5"
| "lease_rank LeaseCleanup = 5"
| "lease_rank LeaseExited = 6"

lemma lease_step_forward:
  "\<forall>r \<in> set WORKER_LEASE_TRANSITIONS. lr_observation r = Reclaimed \<or> lease_rank (lr_from r) \<le> lease_rank (lr_to r)"
  by (simp add: WORKER_LEASE_TRANSITIONS_def)

lemma observe_lease_forward: "obs \<noteq> Reclaimed \<Longrightarrow> lease_rank st \<le> lease_rank (observe_lease st obs)"
  using observe_lease_step [of st obs "observe_lease st obs"] lease_step_forward
  by (fastforce simp: lease_step_iff)

lemma noops_disjoint: "a \<in> set (WORKER_LEASE_NOOPS obs) \<Longrightarrow> \<not> lease_step a obs b"
  by (cases obs) (auto simp: lease_step_cases WORKER_LEASE_TRANSITIONS_def)

section \<open>Properties\<close>

text \<open>
  Every observation of a lease has exactly one verdict, and the verdict is the table's: it is
  applied if and only if the table has a (then unique) rule for it; it is a no-op if and only if the
  observation is listed as already satisfied, which never overlaps the table; and a lease that is
  absent only ever accepts a spawn request.
\<close>

lemma lease_verdicts:
  "(\<exists>b. transitionWorkerLeaseState (Some a) obs = LeaseApplied a b obs) = (\<exists>!b. lease_step a obs b) \<and>
   (\<exists>m. transitionWorkerLeaseState (Some a) obs = LeaseNoop a a obs m) = (a \<in> set (WORKER_LEASE_NOOPS obs)) \<and>
   (lease_step Absent obs b = (obs = SpawnRequested \<and> b = Spawning))"
proof (intro conjI)
  have "lease_step a obs b \<Longrightarrow> lease_step a obs c \<Longrightarrow> b = c" for b c
    using applied_iff_step [of a obs b] applied_iff_step [of a obs c] by simp
  then show "(\<exists>b. transitionWorkerLeaseState (Some a) obs = LeaseApplied a b obs) = (\<exists>!b. lease_step a obs b)"
    unfolding applied_iff_step by blast
  show "(\<exists>m. transitionWorkerLeaseState (Some a) obs = LeaseNoop a a obs m) = (a \<in> set (WORKER_LEASE_NOOPS obs))"
  proof (cases "\<exists>b. lease_step a obs b")
    case True
    then obtain b where "transitionWorkerLeaseState (Some a) obs = LeaseApplied a b obs"
      using applied_iff_step by blast
    with True noops_disjoint show ?thesis by auto
  next
    case False
    then have "find (\<lambda>r. lr_from r = a \<and> lr_observation r = obs) WORKER_LEASE_TRANSITIONS = None"
      by (auto simp: find_None_iff lease_step_iff)
    then show ?thesis
      by (simp add: transitionWorkerLeaseState_def normalizeWorkerLeaseState_def)
  qed
  show "lease_step Absent obs b = (obs = SpawnRequested \<and> b = Spawning)"
    by (auto simp: lease_step_cases WORKER_LEASE_TRANSITIONS_def)
qed

text \<open>
  C35. A lease only moves forward: short of being reclaimed, no sequence of observations takes it
  back to an earlier stage, so that a worker that drains, fails, cleans up or has exited is never
  seen as idle or busy again.
\<close>

theorem lease_never_goes_back:
  assumes "Reclaimed \<notin> set obs"
  shows "lease_rank st \<le> lease_rank (fold (\<lambda>ob s. observe_lease s ob) obs st)"
  using assms
proof (induction obs arbitrary: st)
  case (Cons ob obs)
  have "lease_rank st \<le> lease_rank (observe_lease st ob)"
    using Cons.prems by (intro observe_lease_forward) auto
  also have "\<dots> \<le> lease_rank (fold (\<lambda>ob s. observe_lease s ob) obs (observe_lease st ob))"
    using Cons by simp
  finally show ?case by simp
qed simp

theorem lease_never_goes_back_witness:
  "fold (\<lambda>ob s. observe_lease s ob) [HandshakeReceived, StopObserved, BusyReported, ProcessExited] Spawning = LeaseExited \<and>
   lease_rank Spawning \<le> lease_rank (fold (\<lambda>ob s. observe_lease s ob)
     [HandshakeReceived, StopObserved, BusyReported, ProcessExited] Spawning)"
proof
  show "fold (\<lambda>ob s. observe_lease s ob) [HandshakeReceived, StopObserved, BusyReported, ProcessExited] Spawning = LeaseExited"
    by code_simp
  show "lease_rank Spawning \<le> lease_rank (fold (\<lambda>ob s. observe_lease s ob)
     [HandshakeReceived, StopObserved, BusyReported, ProcessExited] Spawning)"
    by (rule lease_never_goes_back) simp
qed

text \<open>
  No lease gets stuck: from every state but \<open>absent\<close>, the exit of the process followed by a reclaim
  leads back to \<open>absent\<close>, from where a spawn request starts a new lease.
\<close>

lemma lease_can_always_be_reclaimed:
  "fold (\<lambda>ob s. observe_lease s ob) [ProcessExited, Reclaimed] st = Absent \<and>
   fold (\<lambda>ob s. observe_lease s ob) [ProcessExited, Reclaimed, SpawnRequested] st = Spawning"
  by (cases st) (simp_all add: observe_lease_def transitionWorkerLeaseState_def
      normalizeWorkerLeaseState_def WORKER_LEASE_TRANSITIONS_def)

end
