(* ===== verification/Worker_Capacity.thy ===== *)
theory Worker_Capacity
  imports Leitwerk_Prelude
begin

text \<open>
  Admission of workers (\<^verbatim>\<open>packages/server/src/supervisor/worker-capacity-queue.ts\<close>): at most
  \<open>max_parallel_processes\<close> workers run or start at a time; further requests wait in order and are
  admitted from a timer that every freed slot arms.

  The queue is a state with one function per handler: the calls of its interface, the timer callback
  and the \<open>finally\<close> of a start. The number of running workers and whether a waiting start still is the
  current one are asked of the supervisor; between two awaits they do not change, so they are arguments
  of the handlers. \<open>capacity_step\<close> is the interleaving of the handlers with what the supervisor does
  (\<^verbatim>\<open>worker-supervisor.ts\<close>): its map of workers gains an instance only while that instance is being
  started and loses it on exit, which wakes the queue.
\<close>

section \<open>The queue\<close>

record capacity_queue =
  q_waiting :: "(string \<times> string) list"
  q_starting :: "string list"
  q_scheduled :: bool
  q_stopped :: bool

definition empty_queue :: capacity_queue where
  "empty_queue = \<lparr>q_waiting = [], q_starting = [], q_scheduled = False, q_stopped = False\<rparr>"

definition hasCapacity :: "nat \<Rightarrow> nat \<Rightarrow> string list \<Rightarrow> bool" where
  "hasCapacity limit active starting \<longleftrightarrow> active + length starting < limit"

definition wake :: "capacity_queue \<Rightarrow> capacity_queue" where
  "wake q = (if q_stopped q \<or> q_scheduled q \<or> q_waiting q = [] then q else q\<lparr>q_scheduled := True\<rparr>)"

text \<open>The loop of the timer over the waiting entries; it yields the launched instances in order.\<close>

fun drain_waiting :: "nat \<Rightarrow> nat \<Rightarrow> (string \<Rightarrow> string \<Rightarrow> bool) \<Rightarrow> string list \<Rightarrow> (string \<times> string) list \<Rightarrow>
    (string \<times> string) list \<times> string list \<times> string list" where
  "drain_waiting limit active isCurrent starting [] = ([], starting, [])"
| "drain_waiting limit active isCurrent starting ((instanceId, startId) # rest) =
     (if \<not> isCurrent instanceId startId then drain_waiting limit active isCurrent starting rest
      else if \<not> hasCapacity limit active starting \<or> instanceId \<in> set starting
      then ((instanceId, startId) # rest, starting, [])
      else let (w, st, ls) = drain_waiting limit active isCurrent (jsset_add instanceId starting) rest in
           (w, st, instanceId # ls))"

definition on_timer :: "nat \<Rightarrow> nat \<Rightarrow> (string \<Rightarrow> string \<Rightarrow> bool) \<Rightarrow> capacity_queue \<Rightarrow> capacity_queue \<times> string list" where
  "on_timer limit active isCurrent q =
     (let (w, st, ls) = drain_waiting limit active isCurrent (q_starting q) (q_waiting q) in
      (q\<lparr>q_scheduled := False, q_waiting := w, q_starting := st\<rparr>, ls))"

text \<open>The \<open>finally\<close> of \<open>launch\<close>, when the start has succeeded or failed.\<close>

definition on_settled :: "string \<Rightarrow> capacity_queue \<Rightarrow> capacity_queue" where
  "on_settled instanceId q = wake (q\<lparr>q_starting := removeAll instanceId (q_starting q)\<rparr>)"

datatype request_result = Rejected | JoinsPending | LaunchesNow | Waits "(string \<times> string) list"

text \<open>\<open>request\<close>; a waiting request reports the calls of \<open>onQueued\<close>.\<close>

definition request :: "nat \<Rightarrow> nat \<Rightarrow> string \<Rightarrow> string \<Rightarrow> capacity_queue \<Rightarrow> request_result \<times> capacity_queue" where
  "request limit active instanceId startId q =
     (if q_stopped q then (Rejected, q)
      else if instanceId \<in> set (q_starting q) then (JoinsPending, q)
      else if q_waiting q = [] \<and> hasCapacity limit active (q_starting q)
      then (LaunchesNow, q\<lparr>q_starting := jsset_add instanceId (q_starting q)\<rparr>)
      else if map_of (q_waiting q) instanceId \<noteq> Some startId
      then (Waits [(instanceId, startId)], wake (q\<lparr>q_waiting := jsmap_set instanceId startId (q_waiting q)\<rparr>))
      else (Waits [], wake q))"

definition cancel :: "string \<Rightarrow> capacity_queue \<Rightarrow> capacity_queue" where
  "cancel instanceId q = wake (q\<lparr>q_waiting := filter (\<lambda>e. fst e \<noteq> instanceId) (q_waiting q)\<rparr>)"

definition stop :: "capacity_queue \<Rightarrow> capacity_queue" where
  "stop q = q\<lparr>q_stopped := True, q_waiting := [], q_scheduled := False\<rparr>"

section \<open>The queue inside the supervisor\<close>

record capacity_world =
  cw_queue :: capacity_queue
  cw_workers :: "string list"

definition active_count :: "capacity_world \<Rightarrow> nat" where
  "active_count s = length (cw_workers s)"

inductive capacity_step :: "nat \<Rightarrow> capacity_world \<Rightarrow> capacity_world \<Rightarrow> bool" for limit where
  spawn: "i \<notin> set (cw_workers s) \<Longrightarrow>
    capacity_step limit s (s\<lparr>cw_queue := snd (request limit (active_count s) i startId (cw_queue s))\<rparr>)"
| timer: "q_scheduled (cw_queue s) \<Longrightarrow>
    capacity_step limit s (s\<lparr>cw_queue := fst (on_timer limit (active_count s) isCurrent (cw_queue s))\<rparr>)"
| joined: "i \<in> set (q_starting (cw_queue s)) \<Longrightarrow> capacity_step limit s (s\<lparr>cw_workers := jsset_add i (cw_workers s)\<rparr>)"
| settled: "i \<in> set (q_starting (cw_queue s)) \<Longrightarrow> capacity_step limit s (s\<lparr>cw_queue := on_settled i (cw_queue s)\<rparr>)"
| exited: "capacity_step limit s (s\<lparr>cw_workers := removeAll i (cw_workers s), cw_queue := wake (cw_queue s)\<rparr>)"
| cancelled: "capacity_step limit s (s\<lparr>cw_queue := cancel i (cw_queue s)\<rparr>)"
| stopped: "capacity_step limit s (s\<lparr>cw_queue := stop (cw_queue s)\<rparr>)"

definition initial_world :: capacity_world where
  "initial_world = \<lparr>cw_queue = empty_queue, cw_workers = []\<rparr>"

section \<open>Invariant\<close>

text \<open>The instances that occupy a slot.\<close>

definition occupied :: "capacity_world \<Rightarrow> string set" where
  "occupied s = set (cw_workers s) \<union> set (q_starting (cw_queue s))"

text \<open>The first waiting start cannot be admitted now.\<close>

definition head_blocked :: "nat \<Rightarrow> capacity_world \<Rightarrow> bool" where
  "head_blocked limit s \<longleftrightarrow> \<not> hasCapacity limit (active_count s) (q_starting (cw_queue s)) \<or>
     fst (hd (q_waiting (cw_queue s))) \<in> set (q_starting (cw_queue s))"

definition capacity_ok :: "nat \<Rightarrow> capacity_world \<Rightarrow> bool" where
  "capacity_ok limit s \<longleftrightarrow>
     distinct (cw_workers s) \<and> distinct (q_starting (cw_queue s)) \<and> distinct (map fst (q_waiting (cw_queue s))) \<and>
     card (occupied s) \<le> limit \<and>
     (q_stopped (cw_queue s) \<longrightarrow> q_waiting (cw_queue s) = [] \<and> \<not> q_scheduled (cw_queue s)) \<and>
     (q_waiting (cw_queue s) \<noteq> [] \<longrightarrow> q_scheduled (cw_queue s) \<or> head_blocked limit s)"

lemma wake_simps [simp]:
  "q_waiting (wake q) = q_waiting q" "q_starting (wake q) = q_starting q" "q_stopped (wake q) = q_stopped q"
  "q_waiting q \<noteq> [] \<Longrightarrow> \<not> q_stopped q \<Longrightarrow> q_scheduled (wake q)"
  "q_stopped q \<Longrightarrow> q_scheduled (wake q) = q_scheduled q"
  by (simp_all add: wake_def)

lemma hasCapacity_card:
  assumes "hasCapacity limit (length ws) st" "distinct ws" "distinct st"
  shows "card (insert i (set ws \<union> set st)) \<le> limit"
proof -
  have "card (insert i (set ws \<union> set st)) \<le> Suc (card (set ws \<union> set st))" by (simp add: card_insert_le_m1 card_insert_if)
  also have "\<dots> \<le> Suc (card (set ws) + card (set st))" by (simp add: card_Un_le)
  also have "\<dots> \<le> limit" using assms by (simp add: distinct_card hasCapacity_def)
  finally show ?thesis .
qed

lemma drain_waiting_keeps:
  assumes "drain_waiting limit (length ws) cur st entries = (w, st', ls)"
    and "distinct ws" "distinct st" "card (set ws \<union> set st) \<le> limit"
  shows "distinct st' \<and> card (set ws \<union> set st') \<le> limit \<and>
    (w \<noteq> [] \<longrightarrow> \<not> hasCapacity limit (length ws) st' \<or> fst (hd w) \<in> set st') \<and> suffix w entries"
  using assms
proof (induction entries arbitrary: st w st' ls)
  case (Cons e rest)
  obtain i s where [simp]: "e = (i, s)" by (cases e)
  show ?case
  proof (cases "cur i s \<and> hasCapacity limit (length ws) st \<and> i \<notin> set st")
    case True
    with Cons obtain w0 st0 ls0 where "drain_waiting limit (length ws) cur (jsset_add i st) rest = (w0, st0, ls0)" "w = w0" "st' = st0"
      by (cases "drain_waiting limit (length ws) cur (jsset_add i st) rest") auto
    with Cons True show ?thesis
      using hasCapacity_card [of limit ws st i] by (auto simp: suffix_Cons)
  next
    case False
    with Cons show ?thesis by (auto simp: suffix_Cons split: if_splits)
  qed
qed simp_all

lemma distinct_waiting_suffix: "suffix w entries \<Longrightarrow> distinct (map fst entries) \<Longrightarrow> distinct (map fst w)"
  by (auto simp: suffix_def)

lemma card_smaller: "card A \<le> limit \<Longrightarrow> B \<subseteq> A \<Longrightarrow> finite A \<Longrightarrow> card B \<le> (limit::nat)"
  using card_mono le_trans by blast

lemma capacity_step_ok:
  assumes "capacity_step limit s s'" "capacity_ok limit s"
  shows "capacity_ok limit s'"
  using assms
proof (cases rule: capacity_step.cases)
  case (spawn i startId)
  let ?q = "cw_queue s"
  show ?thesis
  proof (cases "\<not> q_stopped ?q \<and> i \<notin> set (q_starting ?q) \<and> q_waiting ?q = [] \<and> hasCapacity limit (active_count s) (q_starting ?q)")
    case True
    with spawn assms(2) hasCapacity_card [of limit "cw_workers s" "q_starting ?q" i] show ?thesis
      by (auto simp: capacity_ok_def occupied_def request_def active_count_def)
  next
    case False
    with spawn assms(2) show ?thesis
      by (auto simp: capacity_ok_def occupied_def request_def active_count_def head_blocked_def split: if_splits)
  qed
next
  case (timer isCurrent)
  obtain w st ls where d: "drain_waiting limit (length (cw_workers s)) isCurrent (q_starting (cw_queue s)) (q_waiting (cw_queue s)) = (w, st, ls)"
    by (metis prod_cases3)
  from drain_waiting_keeps [OF d] assms(2) timer d show ?thesis
    using distinct_waiting_suffix
    by (auto simp: capacity_ok_def occupied_def on_timer_def active_count_def head_blocked_def)
next
  case (joined i)
  then have "occupied s' = occupied s" by (auto simp: occupied_def)
  moreover have "head_blocked limit s \<Longrightarrow> head_blocked limit s'"
    using joined by (auto simp: head_blocked_def active_count_def hasCapacity_def jsset_add_def)
  ultimately show ?thesis using joined assms(2) by (auto simp: capacity_ok_def)
next
  case (settled i)
  have "card (occupied s') \<le> limit"
    by (rule card_smaller [of "occupied s"]) (use assms(2) settled in \<open>auto simp: capacity_ok_def occupied_def on_settled_def\<close>)
  with settled assms(2) show ?thesis
    by (auto simp: capacity_ok_def on_settled_def distinct_removeAll)
next
  case (exited i)
  have "card (occupied s') \<le> limit"
    by (rule card_smaller [of "occupied s"]) (use assms(2) exited in \<open>auto simp: capacity_ok_def occupied_def\<close>)
  with exited assms(2) show ?thesis by (auto simp: capacity_ok_def distinct_removeAll)
next
  case (cancelled i)
  then show ?thesis using assms(2) by (auto simp: capacity_ok_def cancel_def occupied_def distinct_map_filter)
next
  case stopped
  then show ?thesis using assms(2) by (auto simp: capacity_ok_def stop_def occupied_def)
qed

lemma reachable_capacity_ok: "(capacity_step limit)\<^sup>*\<^sup>* initial_world s \<Longrightarrow> capacity_ok limit s"
proof (induction rule: rtranclp_induct)
  case base
  show ?case by (simp add: capacity_ok_def initial_world_def empty_queue_def occupied_def)
next
  case (step s s')
  then show ?case using capacity_step_ok by blast
qed

section \<open>Properties\<close>



lemma drain_waiting_fifo:
  assumes "drain_waiting limit active cur st entries = (w, st', ls)"
  shows "map fst (filter (\<lambda>(i, s). cur i s) entries) = ls @ map fst (filter (\<lambda>(i, s). cur i s) w)"
    and "st' = fold jsset_add ls st"
    and "w \<noteq> [] \<Longrightarrow> cur (fst (hd w)) (snd (hd w)) \<and> (\<not> hasCapacity limit active st' \<or> fst (hd w) \<in> set st')"
  using assms
  by (induction entries arbitrary: st w st' ls)
    (auto split: if_splits prod.splits simp: Let_def)

text \<open>
  Admission is first come, first served. When the timer fires, the starts that are still current and
  were waiting are launched in their order of arrival: the launched ones followed by those still waiting
  are the current waiting ones in order, exactly the launched ones are reserved, and the queue stops only
  at a current entry it cannot admit. A new request overtakes nobody: it is launched at once only when
  nobody waits.
\<close>

lemma admission_is_first_come_first_served:
  "(let (q', launched) = on_timer limit active isCurrent q in
      map fst (filter (\<lambda>(i, s). isCurrent i s) (q_waiting q)) = launched @ map fst (filter (\<lambda>(i, s). isCurrent i s) (q_waiting q')) \<and>
      q_starting q' = fold jsset_add launched (q_starting q) \<and>
      (q_waiting q' = [] \<or>
         (isCurrent (fst (hd (q_waiting q'))) (snd (hd (q_waiting q'))) \<and>
          (active + length (q_starting q') \<ge> limit \<or> fst (hd (q_waiting q')) \<in> set (q_starting q'))))) \<and>
   (fst (request limit active instanceId startId q) = LaunchesNow \<longleftrightarrow>
      \<not> q_stopped q \<and> instanceId \<notin> set (q_starting q) \<and> q_waiting q = [] \<and> active + length (q_starting q) < limit)"
proof -
  obtain w st ls where d: "drain_waiting limit active isCurrent (q_starting q) (q_waiting q) = (w, st, ls)"
    by (metis prod_cases3)
  show ?thesis
    using drain_waiting_fifo [OF d] by (auto simp: on_timer_def d request_def hasCapacity_def not_less)
qed

end
