(* ===== verification/Dependency_Order.thy ===== *)
theory Dependency_Order
  imports Leitwerk_Prelude
begin

text \<open>
  The dependency-first traversal of \<^verbatim>\<open>packages/domain/src/dependency-order.ts\<close>. The inner function
  \<open>visit\<close> and the loops around it are one function on the list of ids still to visit; the sets
  \<open>visiting\<close> and \<open>ordered\<close> are threaded through, \<open>visiting\<close> as the ids of the pending calls. Its fuel
  bounds the depth of the recursion, \<open>None\<close> is running out of it.
\<close>

section \<open>The traversal\<close>

fun visit_ids ::
  "nat \<Rightarrow> (string \<Rightarrow> string list) \<Rightarrow> (string \<Rightarrow> string) \<Rightarrow> string list \<Rightarrow> string list \<Rightarrow> string list \<Rightarrow>
   string list throws option" where
  "visit_ids n dependencies cycleMessage [] visiting ordered = Some (Inr ordered)"
| "visit_ids n dependencies cycleMessage (i # is) visiting ordered =
     (if i \<in> set ordered then visit_ids n dependencies cycleMessage is visiting ordered
      else if i \<in> set visiting then Some (Inl (cycleMessage i))
      else case n of
        0 \<Rightarrow> None
      | Suc m \<Rightarrow>
          (case visit_ids m dependencies cycleMessage (dependencies i) (i # visiting) ordered of
             None \<Rightarrow> None
           | Some (Inl err) \<Rightarrow> Some (Inl err)
           | Some (Inr ordered') \<Rightarrow>
               visit_ids n dependencies cycleMessage is visiting (jsset_add i ordered')))"

definition orderDependencies ::
  "nat \<Rightarrow> string list \<Rightarrow> (string \<Rightarrow> string list) \<Rightarrow> (string \<Rightarrow> string) \<Rightarrow> string list throws option" where
  "orderDependencies fuel roots dependencies cycleMessage =
     visit_ids fuel dependencies cycleMessage roots [] []"

section \<open>Its contract\<close>

definition dep_rel :: "(string \<Rightarrow> string list) \<Rightarrow> (string \<times> string) set" where
  "dep_rel deps = {(a, b). b \<in> set (deps a)}"

definition dependency_first :: "(string \<Rightarrow> string list) \<Rightarrow> string list \<Rightarrow> bool" where
  "dependency_first deps xs \<longleftrightarrow>
     distinct xs \<and> (\<forall>k < length xs. set (deps (xs ! k)) \<subseteq> set (take k xs))"

lemma dependency_first_snoc:
  assumes "dependency_first deps xs" "i \<notin> set xs" "set (deps i) \<subseteq> set xs"
  shows "dependency_first deps (xs @ [i])"
  using assms by (auto simp: dependency_first_def nth_append less_Suc_eq)

lemma visit_ids_step:
  assumes "visit_ids n deps msg (i # is) visiting ordered = Some (Inr out)"
  obtains (seen) "i \<in> set ordered" "visit_ids n deps msg is visiting ordered = Some (Inr out)"
  | (fresh) m ordered' where "i \<notin> set ordered" "i \<notin> set visiting" "n = Suc m"
      "visit_ids m deps msg (deps i) (i # visiting) ordered = Some (Inr ordered')"
      "visit_ids n deps msg is visiting (jsset_add i ordered') = Some (Inr out)"
  using assms by (auto split: if_splits nat.splits option.splits sum.splits)

lemma visit_ids_ok:
  assumes "visit_ids n deps msg ids visiting ordered = Some (Inr out)"
    and "dependency_first deps ordered" "set ordered \<inter> set visiting = {}"
  shows "dependency_first deps out \<and> set ordered \<union> set ids \<subseteq> set out \<and> set out \<inter> set visiting = {} \<and>
    set out \<subseteq> set ordered \<union> (dep_rel deps)\<^sup>* `` set ids"
  using assms
proof (induction n deps msg ids visiting ordered arbitrary: out rule: visit_ids.induct)
  case (2 n deps msg i "is" visiting ordered)
  from 2(4) show ?case
  proof (cases rule: visit_ids_step)
    case seen
    with 2(1) [OF seen(1,2) 2(5,6)] show ?thesis by auto
  next
    case (fresh m ordered')
    have inner: "dependency_first deps ordered'" "set ordered \<union> set (deps i) \<subseteq> set ordered'"
      "set ordered' \<inter> set (i # visiting) = {}"
      "set ordered' \<subseteq> set ordered \<union> (dep_rel deps)\<^sup>* `` set (deps i)"
      using 2(2) [OF fresh(1,2,3,4) 2(5)] 2(6) fresh(1) by auto
    then have add: "jsset_add i ordered' = ordered' @ [i]" by (simp add: jsset_add_def)
    have topo: "dependency_first deps (ordered' @ [i])"
      using inner by (intro dependency_first_snoc) auto
    have disj: "set (ordered' @ [i]) \<inter> set visiting = {}" using inner(3) fresh(2) by auto
    let ?reach = "\<lambda>xs. (dep_rel deps)\<^sup>* `` set xs"
    have "?reach (deps i) \<subseteq> ?reach (i # is)" "?reach is \<subseteq> ?reach (i # is)" "i \<in> ?reach (i # is)"
      by (auto simp: dep_rel_def intro: converse_rtrancl_into_rtrancl)
    moreover have outer: "dependency_first deps out" "set (ordered' @ [i]) \<union> set is \<subseteq> set out"
      "set out \<inter> set visiting = {}" "set out \<subseteq> set (ordered' @ [i]) \<union> ?reach is"
      using 2(3) [OF fresh(1,2,3) fresh(4) refl, of out] fresh(5) topo disj unfolding add by auto
    ultimately have "x \<in> set ordered \<union> ?reach (i # is)" if "x \<in> set out" for x
    proof -
      have "x \<in> set ordered' \<or> x = i \<or> x \<in> ?reach is" using that outer(4) by auto
      with inner(4) \<open>?reach (deps i) \<subseteq> ?reach (i # is)\<close> \<open>?reach is \<subseteq> ?reach (i # is)\<close>
        \<open>i \<in> ?reach (i # is)\<close> show ?thesis by blast
    qed
    then have "set out \<subseteq> set ordered \<union> ?reach (i # is)" by blast
    with outer(1-3) inner(2) show ?thesis by simp blast
  qed
qed auto

lemma visit_ids_cycle:
  assumes "visit_ids n deps msg ids visiting ordered = Some (Inl err)"
    and "set ids \<subseteq> (dep_rel deps)\<^sup>* `` R" "\<forall>v \<in> set visiting. \<forall>i \<in> set ids. (v, i) \<in> (dep_rel deps)\<^sup>+"
  shows "\<exists>i \<in> (dep_rel deps)\<^sup>* `` R. err = msg i \<and> (i, i) \<in> (dep_rel deps)\<^sup>+"
  using assms
proof (induction n deps msg ids visiting ordered rule: visit_ids.induct)
  case (2 n deps msg i "is" visiting ordered)
  consider (seen) "i \<in> set ordered" "visit_ids n deps msg is visiting ordered = Some (Inl err)"
    | (cycle) "i \<in> set visiting" "err = msg i"
    | (inner) m where "i \<notin> set ordered" "i \<notin> set visiting" "n = Suc m"
        "visit_ids m deps msg (deps i) (i # visiting) ordered = Some (Inl err)"
    | (later) m o' where "i \<notin> set ordered" "i \<notin> set visiting" "n = Suc m"
        "visit_ids m deps msg (deps i) (i # visiting) ordered = Some (Inr o')"
        "visit_ids n deps msg is visiting (jsset_add i o') = Some (Inl err)"
    using 2(4) by (auto split: if_splits nat.splits option.splits sum.splits)
  then show ?case
  proof cases
    case seen
    with 2(1,5,6) show ?thesis by auto
  next
    case cycle
    with 2(5,6) show ?thesis by auto
  next
    case inner
    have "set (deps i) \<subseteq> (dep_rel deps)\<^sup>* `` R"
      using 2(5) by (auto simp: dep_rel_def intro: rtrancl_into_rtrancl)
    moreover have "\<forall>v \<in> set (i # visiting). \<forall>d \<in> set (deps i). (v, d) \<in> (dep_rel deps)\<^sup>+"
      using 2(6) by (auto simp: dep_rel_def intro: trancl_into_trancl)
    ultimately show ?thesis using 2(2) inner by blast
  next
    case later
    with 2(3) [OF later(1-3) later(4) refl later(5)] 2(5,6) show ?thesis by auto
  qed
qed simp

lemma visit_ids_fuel:
  assumes "finite U" "set ids \<subseteq> U" "\<forall>i \<in> U. set (deps i) \<subseteq> U" "card (U - set visiting) \<le> n"
  shows "visit_ids n deps msg ids visiting ordered \<noteq> None"
  using assms
proof (induction n deps msg ids visiting ordered rule: visit_ids.induct)
  case (2 n deps msg i "is" visiting ordered)
  show ?case
  proof (cases "i \<in> set ordered \<or> i \<in> set visiting")
    case True
    then show ?thesis using 2(1,4-7) by auto
  next
    case False
    then have "card (U - set visiting) > 0" using 2(4,5) by (auto simp: card_gt_0_iff)
    then obtain m where m: "n = Suc m" using 2(7) by (cases n) auto
    have "U - set visiting = insert i (U - set (i # visiting))" using False 2(5) by auto
    then have "card (U - set (i # visiting)) \<le> m"
      using 2(4,7) m by (metis DiffE card_insert_disjoint finite_Diff list.set_intros(1) Suc_le_mono)
    with 2(2) [OF _ _ m] False 2(4-6) obtain r where
      r: "visit_ids m deps msg (deps i) (i # visiting) ordered = Some r" by auto
    with 2(3) [OF _ _ m r] False 2(4-7) m show ?thesis by (auto split: sum.split)
  qed
qed simp

lemma dependency_first_acyclic:
  assumes "dependency_first deps xs" "i \<in> set xs"
  shows "(i, i) \<notin> (dep_rel deps)\<^sup>+"
proof -
  have earlier: "\<exists>k' < k. xs ! k' = b" if "k < length xs" "(xs ! k, b) \<in> dep_rel deps" for k b
  proof -
    have "b \<in> set (take k xs)" using assms(1) that by (auto simp: dependency_first_def dep_rel_def)
    then show ?thesis using that(1) by (auto simp: in_set_conv_nth)
  qed
  have "\<exists>k' < k. xs ! k' = b" if "k < length xs" "(a, b) \<in> (dep_rel deps)\<^sup>+" "xs ! k = a" for k a b
    using that(2,1,3)
  proof (induction arbitrary: k rule: trancl_induct)
    case (base y)
    then show ?case using earlier by blast
  next
    case (step y z)
    then obtain k' where k': "k' < k" "xs ! k' = y" by blast
    with step.prems(1) step.hyps(2) earlier [of k' z] show ?case by (metis less_trans)
  qed
  moreover obtain k where "k < length xs" "xs ! k = i" using assms(2) by (auto simp: in_set_conv_nth)
  moreover have "distinct xs" using assms(1) by (simp add: dependency_first_def)
  ultimately show ?thesis by (metis less_irrefl less_trans nth_eq_iff_index_eq)
qed

section \<open>Properties\<close>

text \<open>
  C36. The traversal orders everything the roots depend on, and nothing else, dependencies first and
  without duplicates, exactly when there is no cycle among it; otherwise it raises the cycle message
  of an id that depends on itself. On a finite set of ids closed under the dependencies it always
  ends, with as many nested calls as there are ids.
\<close>

theorem dependencies_ordered_or_cycle_found:
  assumes "finite U" "set roots \<subseteq> U" "\<forall>i \<in> U. set (deps i) \<subseteq> U" "card U \<le> fuel"
  shows "(\<exists>xs. orderDependencies fuel roots deps msg = Some (Inr xs) \<and> dependency_first deps xs \<and>
        set xs = (dep_rel deps)\<^sup>* `` set roots \<and> (\<forall>i \<in> set xs. (i, i) \<notin> (dep_rel deps)\<^sup>+)) \<or>
    (\<exists>i \<in> (dep_rel deps)\<^sup>* `` set roots. (i, i) \<in> (dep_rel deps)\<^sup>+ \<and>
        orderDependencies fuel roots deps msg = Some (Inl (msg i)))"
proof (cases "orderDependencies fuel roots deps msg")
  case None
  with visit_ids_fuel [OF assms(1-3), of "[]" fuel msg "[]"] assms(4) show ?thesis
    by (simp add: orderDependencies_def)
next
  case (Some r)
  show ?thesis
  proof (cases r)
    case (Inl err)
    with Some visit_ids_cycle [of fuel deps msg roots "[]" "[]" err "set roots"] show ?thesis
      by (auto simp: orderDependencies_def)
  next
    case (Inr xs)
    with Some visit_ids_ok [of fuel deps msg roots "[]" "[]" xs]
    have ok: "dependency_first deps xs" "set roots \<subseteq> set xs" "set xs \<subseteq> (dep_rel deps)\<^sup>* `` set roots"
      by (auto simp: orderDependencies_def dependency_first_def)
    have "b \<in> set xs" if "(a, b) \<in> (dep_rel deps)\<^sup>*" "a \<in> set xs" for a b
      using that
    proof (induction rule: rtrancl_induct)
      case (step y z)
      then obtain k where "k < length xs" "xs ! k = y" by (auto simp: in_set_conv_nth)
      with ok(1) step.hyps(2) have "z \<in> set (take k xs)" by (auto simp: dependency_first_def dep_rel_def)
      then show ?case by (rule in_set_takeD)
    qed
    then have "set xs = (dep_rel deps)\<^sup>* `` set roots" using ok by auto
    with Some Inr ok(1) dependency_first_acyclic show ?thesis by auto
  qed
qed

definition sample_dependencies :: "string \<Rightarrow> string list" where
  "sample_dependencies i = (if i = ''app'' then [''lib'', ''ui''] else if i = ''ui'' then [''lib''] else [])"

theorem dependencies_ordered_or_cycle_found_witness:
  "orderDependencies 3 [''app''] sample_dependencies (\<lambda>i. i) = Some (Inr [''lib'', ''ui'', ''app'']) \<and>
   dependency_first sample_dependencies [''lib'', ''ui'', ''app''] \<and>
   (''app'', ''app'') \<notin> (dep_rel sample_dependencies)\<^sup>+"
proof -
  have "orderDependencies 3 [''app''] sample_dependencies (\<lambda>i. i) = Some (Inr [''lib'', ''ui'', ''app''])"
    by code_simp
  with dependencies_ordered_or_cycle_found [of "{''app'', ''lib'', ''ui''}" "[''app'']" sample_dependencies 3 "\<lambda>i. i"]
  show ?thesis by (auto simp: sample_dependencies_def)
qed

end
