(* ===== verification/Entry_Refs.thy ===== *)
theory Entry_Refs
  imports Domain_Types
begin

text \<open>
  References into the Pi session tree and the metadata that guides recovery: normalisation of
  strings and records (\<^verbatim>\<open>string-normalize.ts\<close>, \<^verbatim>\<open>unknown-record.ts\<close>), semantic and product references
  (\<^verbatim>\<open>semantic-entry-refs.ts\<close>), where a turn starts (\<^verbatim>\<open>turn-start-resolution.ts\<close>) and how a failed turn
  is continued (\<^verbatim>\<open>turn-recovery.ts\<close>), all of \<^verbatim>\<open>packages/domain/src\<close>.
\<close>

section \<open>Normalising unknown values\<close>

definition isUnknownRecord :: "json \<Rightarrow> bool" where
  "isUnknownRecord v = (case v of JObj _ \<Rightarrow> True | _ \<Rightarrow> False)"

definition asUnknownRecord :: "json option \<Rightarrow> (string \<times> json) list option" where
  "asUnknownRecord v = (case v of Some (JObj fs) \<Rightarrow> Some fs | _ \<Rightarrow> None)"

text \<open>Reading a property of a record that may be missing; \<open>None\<close> is \<open>undefined\<close>.\<close>

definition json_get :: "(string \<times> json) list option \<Rightarrow> string \<Rightarrow> json option" where
  "json_get r k = Option.bind r (\<lambda>fs. map_of fs k)"

definition readNonBlankString :: "json option \<Rightarrow> string option" where
  "readNonBlankString v =
     (case v of Some (JStr s) \<Rightarrow> if js_trim s \<noteq> [] then Some s else None | _ \<Rightarrow> None)"

definition trimString :: "json option \<Rightarrow> string" where
  "trimString v = (case v of Some (JStr s) \<Rightarrow> js_trim s | _ \<Rightarrow> [])"

definition trimToNull :: "json option \<Rightarrow> string option" where
  "trimToNull v = (if trimString v = [] then None else Some (trimString v))"

definition normalizeStringArray :: "json option \<Rightarrow> string list" where
  "normalizeStringArray v =
     (case v of
        Some (JArr xs) \<Rightarrow> filter (\<lambda>s. s \<noteq> []) (map (\<lambda>x. trimString (Some x)) xs)
      | _ \<Rightarrow> [])"

section \<open>Semantic and product references\<close>

datatype ref_key = RefPlan | RefReview | RefCurrentPrimaryPathLeaf | RefRootEntry

record entry_ref =
  er_entryId :: string
  er_turnRecordId :: "string option"

record semantic_refs =
  plan :: "entry_ref option"
  review :: "entry_ref option"
  currentPrimaryPathLeaf :: "entry_ref option"
  rootEntry :: "entry_ref option"

type_synonym product_refs = "(string \<times> entry_ref) list"

fun ref_of :: "semantic_refs \<Rightarrow> ref_key \<Rightarrow> entry_ref option" where
  "ref_of r RefPlan = plan r"
| "ref_of r RefReview = review r"
| "ref_of r RefCurrentPrimaryPathLeaf = currentPrimaryPathLeaf r"
| "ref_of r RefRootEntry = rootEntry r"

fun ref_key_name :: "ref_key \<Rightarrow> string" where
  "ref_key_name RefPlan = ''plan''"
| "ref_key_name RefReview = ''review''"
| "ref_key_name RefCurrentPrimaryPathLeaf = ''currentPrimaryPathLeaf''"
| "ref_key_name RefRootEntry = ''rootEntry''"

definition isProcessSemanticEntryRefKey :: "string \<Rightarrow> bool" where
  "isProcessSemanticEntryRefKey s \<longleftrightarrow>
     s \<in> set (map ref_key_name [RefPlan, RefReview, RefCurrentPrimaryPathLeaf, RefRootEntry])"

definition areSemanticEntryRefsEqual :: "entry_ref option \<Rightarrow> entry_ref option \<Rightarrow> bool" where
  "areSemanticEntryRefsEqual l r \<longleftrightarrow>
     map_option er_entryId l = map_option er_entryId r \<and>
     Option.bind l er_turnRecordId = Option.bind r er_turnRecordId"

text \<open>The pattern \<open>^[a-z][a-z0-9-]*$\<close>.\<close>

definition is_lower :: "char \<Rightarrow> bool" where
  "is_lower c \<longleftrightarrow> 97 \<le> (of_char c :: nat) \<and> (of_char c :: nat) \<le> 122"

definition is_name_char :: "char \<Rightarrow> bool" where
  "is_name_char c \<longleftrightarrow> is_lower c \<or> (48 \<le> (of_char c :: nat) \<and> (of_char c :: nat) \<le> 57) \<or> c = CHR ''-''"

definition isValidProcessProductName :: "string \<Rightarrow> bool" where
  "isValidProcessProductName s = (case s of [] \<Rightarrow> False | c # cs \<Rightarrow> is_lower c \<and> list_all is_name_char cs)"

definition parseSemanticEntryRef :: "json option \<Rightarrow> entry_ref option" where
  "parseSemanticEntryRef v =
     (let r = asUnknownRecord v in
      case trimToNull (json_get r ''entryId'') of
        None \<Rightarrow> None
      | Some e \<Rightarrow> Some \<lparr>er_entryId = e, er_turnRecordId = trimToNull (json_get r ''turnRecordId'')\<rparr>)"

definition createEmptyProcessSemanticEntryRefs :: semantic_refs where
  "createEmptyProcessSemanticEntryRefs =
     \<lparr>plan = None, review = None, currentPrimaryPathLeaf = None, rootEntry = None\<rparr>"

definition parseProcessSemanticEntryRefs :: "json option \<Rightarrow> semantic_refs" where
  "parseProcessSemanticEntryRefs v =
     (let r = Some (coalesce (asUnknownRecord v) []) in
      \<lparr>plan = parseSemanticEntryRef (json_get r ''plan''),
       review = parseSemanticEntryRef (json_get r ''review''),
       currentPrimaryPathLeaf = parseSemanticEntryRef (json_get r ''currentPrimaryPathLeaf''),
       rootEntry = parseSemanticEntryRef (json_get r ''rootEntry'')\<rparr>)"

definition parse_product :: "string \<times> json \<Rightarrow> product_refs \<Rightarrow> product_refs" where
  "parse_product p refs =
     (if \<not> isValidProcessProductName (fst p) then refs
      else case parseSemanticEntryRef (Some (snd p)) of
        None \<Rightarrow> refs
      | Some r \<Rightarrow> jsmap_set (fst p) r refs)"

definition parseProcessProductRefs :: "json option \<Rightarrow> product_refs" where
  "parseProcessProductRefs v =
     (case asUnknownRecord v of None \<Rightarrow> [] | Some fs \<Rightarrow> fold parse_product fs [])"

section \<open>Where a turn starts\<close>

datatype start_selection =
    FromCurrentLeaf
  | FromSessionRoot
  | FromEntry string
  | FromSemanticRef ref_key "start_selection option"
  | FromProductRef string "start_selection option"

datatype start_target = TargetCurrentLeaf | TargetEntry string | TargetRoot

record start_resolution =
  forkPiEntryId :: "string option"
  startTarget :: start_target

record start_context =
  sc_branchType :: path_type
  sc_currentLeafId :: "string option"
  sc_rootEntryId :: "string option"
  sc_semanticEntryRefs :: "semantic_refs option"
  sc_productRefs :: "product_refs option"
  sc_entryExists :: "(string \<Rightarrow> bool) option"

fun defaultProcessTurnStartSelection :: "path_type \<Rightarrow> start_selection" where
  "defaultProcessTurnStartSelection PrimaryPath = FromCurrentLeaf"
| "defaultProcessTurnStartSelection LeafBranch = FromCurrentLeaf"
| "defaultProcessTurnStartSelection RootBranch = FromSessionRoot"

definition resolveProcessTurnStartSelection :: "path_type \<Rightarrow> start_selection option \<Rightarrow> start_selection" where
  "resolveProcessTurnStartSelection branchType startFrom =
     coalesce startFrom (defaultProcessTurnStartSelection branchType)"

definition resolveExistingProcessEntryId :: "string option \<Rightarrow> (string \<Rightarrow> bool) option \<Rightarrow> string option" where
  "resolveExistingProcessEntryId entryId entryExists =
     (if \<not> truthy entryId then None
      else case entryExists of
        Some ex \<Rightarrow> if ex (the entryId) then entryId else None
      | None \<Rightarrow> entryId)"

definition resolveProcessSemanticRefEntryId :: "start_context \<Rightarrow> ref_key \<Rightarrow> string option" where
  "resolveProcessSemanticRefEntryId ctx key =
     (let fromState = resolveExistingProcessEntryId
            (map_option er_entryId (Option.bind (sc_semanticEntryRefs ctx) (\<lambda>r. ref_of r key)))
            (sc_entryExists ctx) in
      if truthy fromState then fromState
      else if key = RefCurrentPrimaryPathLeaf
        then resolveExistingProcessEntryId (sc_currentLeafId ctx) (sc_entryExists ctx)
      else if key = RefRootEntry
        then resolveExistingProcessEntryId (sc_rootEntryId ctx) (sc_entryExists ctx)
      else None)"

definition resolveProcessProductRefEntryId :: "start_context \<Rightarrow> string \<Rightarrow> string option" where
  "resolveProcessProductRefEntryId ctx productName =
     (let name = js_trim productName in
      if name = [] then None
      else resolveExistingProcessEntryId
             (map_option er_entryId (Option.bind (sc_productRefs ctx) (\<lambda>refs. map_of refs name)))
             (sc_entryExists ctx))"

definition resolve_current_leaf :: "start_context \<Rightarrow> start_resolution" where
  "resolve_current_leaf ctx =
     \<lparr>forkPiEntryId = resolveExistingProcessEntryId (sc_currentLeafId ctx) (sc_entryExists ctx),
      startTarget = TargetCurrentLeaf\<rparr>"

definition resolve_root :: start_resolution where
  "resolve_root = \<lparr>forkPiEntryId = None, startTarget = TargetRoot\<rparr>"

definition resolve_entry :: "string \<Rightarrow> start_resolution" where
  "resolve_entry e = \<lparr>forkPiEntryId = Some e, startTarget = TargetEntry e\<rparr>"

text \<open>
  The recursive call on the default of a branch type, which is never a reference: the two
  cases of the switch it can reach, written out so that the recursion below stays structural.
\<close>

definition resolve_default :: "start_context \<Rightarrow> start_resolution" where
  "resolve_default ctx =
     (if defaultProcessTurnStartSelection (sc_branchType ctx) = FromCurrentLeaf
      then resolve_current_leaf ctx else resolve_root)"

fun resolveProcessTurnStartTarget :: "start_context \<Rightarrow> start_selection \<Rightarrow> start_resolution" where
  "resolveProcessTurnStartTarget ctx FromCurrentLeaf = resolve_current_leaf ctx"
| "resolveProcessTurnStartTarget ctx FromSessionRoot = resolve_root"
| "resolveProcessTurnStartTarget ctx (FromEntry e) = resolve_entry e"
| "resolveProcessTurnStartTarget ctx (FromSemanticRef key fb) =
     (let entryId = resolveProcessSemanticRefEntryId ctx key in
      if truthy entryId then resolve_entry (the entryId)
      else case fb of
        Some sel \<Rightarrow> resolveProcessTurnStartTarget ctx sel
      | None \<Rightarrow> resolve_default ctx)"
| "resolveProcessTurnStartTarget ctx (FromProductRef name fb) =
     (let entryId = resolveProcessProductRefEntryId ctx name in
      if truthy entryId then resolve_entry (the entryId)
      else case fb of
        Some sel \<Rightarrow> resolveProcessTurnStartTarget ctx sel
      | None \<Rightarrow> resolve_default ctx)"

lemma resolve_default_is_the_call:
  "resolve_default ctx =
     resolveProcessTurnStartTarget ctx (defaultProcessTurnStartSelection (sc_branchType ctx))"
  by (cases "sc_branchType ctx") (simp_all add: resolve_default_def)

section \<open>Recovery of failed turns\<close>

definition DEFAULT_CONTINUE_PROMPT :: string where
  "DEFAULT_CONTINUE_PROMPT = ''continue''"

definition FAILED_TURN_RECOVERY_METADATA_KEY :: string where
  "FAILED_TURN_RECOVERY_METADATA_KEY = ''failedTurnRecovery''"

definition TERMINAL_OUTCOME_RECORDING_FAILURE_PREFIX :: string where
  "TERMINAL_OUTCOME_RECORDING_FAILURE_PREFIX =
     ''Server could not durably record worker turn outcome:''"

definition FAILED_TURN_RECOVERY_CODES :: "recovery_code list" where
  "FAILED_TURN_RECOVERY_CODES = [GenericContinue, OutcomeRejected, MissingOutcomeTool,
     MissingMarkdownResult, MissingRequiredToolCalls]"

fun recovery_code_name :: "recovery_code \<Rightarrow> string" where
  "recovery_code_name GenericContinue = ''generic_continue''"
| "recovery_code_name OutcomeRejected = ''outcome_rejected''"
| "recovery_code_name MissingOutcomeTool = ''missing_outcome_tool''"
| "recovery_code_name MissingMarkdownResult = ''missing_markdown_result''"
| "recovery_code_name MissingRequiredToolCalls = ''missing_required_tool_calls''"

text \<open>The type guard \<open>isFailedTurnRecoveryCode\<close> together with the value it narrows to.\<close>

definition parseFailedTurnRecoveryCode :: "string \<Rightarrow> recovery_code option" where
  "parseFailedTurnRecoveryCode s = find (\<lambda>c. recovery_code_name c = s) FAILED_TURN_RECOVERY_CODES"

definition normalizeUniqueStringArray :: "json option \<Rightarrow> string list option" where
  "normalizeUniqueStringArray v =
     (let normalized = normalizeStringArray v in
      if normalized \<noteq> [] then Some (fold jsset_add normalized []) else None)"

text \<open>\<open>FailedTurnRecoveryOverrides\<close>: the keys that are present replace the defaults.\<close>

record recovery_overrides =
  ov_suggestedContinuePrompt :: "string option"
  ov_failureCode :: "recovery_code option"
  ov_missingToolNames :: "string list option"

definition createGenericFailedTurnRecoveryContext :: "recovery_overrides \<Rightarrow> recovery_context" where
  "createGenericFailedTurnRecoveryContext ov =
     \<lparr>suggestedContinuePrompt = coalesce (ov_suggestedContinuePrompt ov) DEFAULT_CONTINUE_PROMPT,
      failureCode = coalesce (ov_failureCode ov) GenericContinue,
      missingToolNames = ov_missingToolNames ov\<rparr>"

definition no_overrides :: recovery_overrides where
  "no_overrides = \<lparr>ov_suggestedContinuePrompt = None, ov_failureCode = None, ov_missingToolNames = None\<rparr>"

definition inferTerminalRecordingFailedTurnRecoveryContext ::
    "string option \<Rightarrow> string option \<Rightarrow> recovery_context option" where
  "inferTerminalRecordingFailedTurnRecoveryContext errorSummary errorClass =
     (if errorClass \<noteq> Some ''infrastructure''
         \<or> \<not> (case errorSummary of
               Some s \<Rightarrow> prefix TERMINAL_OUTCOME_RECORDING_FAILURE_PREFIX s
             | None \<Rightarrow> False)
      then None
      else Some (createGenericFailedTurnRecoveryContext no_overrides))"

definition buildFailedTurnRecoveryMetadata :: "string \<Rightarrow> recovery_overrides \<Rightarrow> (string \<times> json) list" where
  "buildFailedTurnRecoveryMetadata turnRecordId ov =
     (let c = createGenericFailedTurnRecoveryContext ov in
      [(FAILED_TURN_RECOVERY_METADATA_KEY,
        JObj ([(''turnRecordId'', JStr turnRecordId),
               (''strategy'', JStr ''continue''),
               (''suggestedContinuePrompt'', JStr (suggestedContinuePrompt c)),
               (''failureCode'', JStr (recovery_code_name (failureCode c)))]
              @ (case missingToolNames c of
                   None \<Rightarrow> [] | Some ts \<Rightarrow> [(''missingToolNames'', JArr (map JStr ts))])))])"

definition readFailedTurnRecoveryContext ::
    "(string \<times> json) list option \<Rightarrow> string option \<Rightarrow> recovery_context option" where
  "readFailedTurnRecoveryContext metadata expectedTurnRecordId =
     (case asUnknownRecord (json_get metadata FAILED_TURN_RECOVERY_METADATA_KEY) of
        None \<Rightarrow> None
      | Some kvs \<Rightarrow>
          let raw = Some kvs in
          if truthy expectedTurnRecordId
             \<and> trimToNull (json_get raw ''turnRecordId'') \<noteq> expectedTurnRecordId then None
          else if json_get raw ''strategy'' \<noteq> Some (JStr ''continue'') then None
          else (case (trimToNull (json_get raw ''suggestedContinuePrompt''),
                      Option.bind (trimToNull (json_get raw ''failureCode'')) parseFailedTurnRecoveryCode) of
                  (Some prompt, Some code) \<Rightarrow>
                    Some \<lparr>suggestedContinuePrompt = prompt, failureCode = code,
                          missingToolNames = normalizeUniqueStringArray (json_get raw ''missingToolNames'')\<rparr>
                | _ \<Rightarrow> None))"

section \<open>Lemmas\<close>

lemma dropWhile_idem: "dropWhile P (dropWhile P xs) = dropWhile P xs"
  by (induction xs) auto

lemma dropWhile_rev_dropWhile:
  "dropWhile P (rev (dropWhile P (rev (dropWhile P xs)))) = rev (dropWhile P (rev (dropWhile P xs)))"
proof (cases "dropWhile P xs")
  case (Cons y ys)
  then have "\<not> P y" by (rule dropWhile_eq_Cons_conv [THEN iffD1, THEN conjunct2])
  then show ?thesis
    unfolding Cons by (auto simp: dropWhile_append)
next
  case Nil
  show ?thesis unfolding Nil by simp
qed

lemma js_trim_idem [simp]: "js_trim (js_trim s) = js_trim s"
  unfolding js_trim_def by (simp add: dropWhile_rev_dropWhile dropWhile_idem)

lemma trimToNull_Some_iff: "trimToNull v = Some t \<longleftrightarrow> (\<exists>s. v = Some (JStr s) \<and> js_trim s = t \<and> t \<noteq> [])"
  by (auto simp: trimToNull_def trimString_def split: option.splits json.splits)

lemma trimToNull_trimmed: "trimToNull v = Some t \<Longrightarrow> js_trim t = t \<and> t \<noteq> []"
  by (auto simp: trimToNull_Some_iff)

lemma trimToNull_JStr: "trimToNull (Some (JStr s)) = (if js_trim s = [] then None else Some (js_trim s))"
  by (simp add: trimToNull_def trimString_def)

lemma recovery_code_name_trimmed: "js_trim (recovery_code_name c) = recovery_code_name c"
  by (cases c) (simp_all add: js_trim_def is_js_space_def)

lemma recovery_code_name_nonempty [simp]: "recovery_code_name c \<noteq> []"
  by (cases c) simp_all

lemma parseFailedTurnRecoveryCode_name [simp]:
  "parseFailedTurnRecoveryCode (recovery_code_name c) = Some c"
  by (cases c) (simp_all add: parseFailedTurnRecoveryCode_def FAILED_TURN_RECOVERY_CODES_def)

lemma resolveExisting_truthy:
  "truthy (resolveExistingProcessEntryId e ex) \<Longrightarrow>
     \<exists>x. resolveExistingProcessEntryId e ex = Some x \<and> x \<noteq> [] \<and> (\<forall>p. ex = Some p \<longrightarrow> p x)"
  by (cases e; cases ex) (auto simp: resolveExistingProcessEntryId_def split: if_splits)

text \<open>The stored form of a reference, as \<open>JSON.stringify\<close> keeps it.\<close>

definition entry_ref_json :: "entry_ref \<Rightarrow> json" where
  "entry_ref_json r = JObj [(''entryId'', JStr (er_entryId r)),
     (''turnRecordId'', case er_turnRecordId r of None \<Rightarrow> JNull | Some t \<Rightarrow> JStr t)]"

definition nullable_ref_json :: "entry_ref option \<Rightarrow> json" where
  "nullable_ref_json r = (case r of None \<Rightarrow> JNull | Some x \<Rightarrow> entry_ref_json x)"

definition semantic_refs_json :: "semantic_refs \<Rightarrow> json" where
  "semantic_refs_json r = JObj (map (\<lambda>k. (ref_key_name k, nullable_ref_json (ref_of r k)))
     [RefPlan, RefReview, RefCurrentPrimaryPathLeaf, RefRootEntry])"

definition product_refs_json :: "product_refs \<Rightarrow> json" where
  "product_refs_json rs = JObj (map (\<lambda>(k, r). (k, entry_ref_json r)) rs)"

definition wf_ref :: "entry_ref \<Rightarrow> bool" where
  "wf_ref r \<longleftrightarrow> js_trim (er_entryId r) = er_entryId r \<and> er_entryId r \<noteq> [] \<and>
     (\<forall>t \<in> set_option (er_turnRecordId r). js_trim t = t \<and> t \<noteq> [])"

lemma parsed_ref_wf: "parseSemanticEntryRef v = Some r \<Longrightarrow> wf_ref r"
  by (auto simp: parseSemanticEntryRef_def wf_ref_def Let_def dest: trimToNull_trimmed split: option.splits)

lemma parse_entry_ref_json: "wf_ref r \<Longrightarrow> parseSemanticEntryRef (Some (entry_ref_json r)) = Some r"
  by (cases r)
     (auto simp: parseSemanticEntryRef_def entry_ref_json_def wf_ref_def asUnknownRecord_def json_get_def
        trimToNull_JStr trimToNull_def trimString_def split: option.splits)

lemma parse_nullable_ref_json:
  "(\<And>x. r = Some x \<Longrightarrow> wf_ref x) \<Longrightarrow> parseSemanticEntryRef (Some (nullable_ref_json r)) = r"
  by (cases r)
     (simp_all add: nullable_ref_json_def parse_entry_ref_json,
      simp add: parseSemanticEntryRef_def asUnknownRecord_def json_get_def trimToNull_def trimString_def)

definition wf_products :: "product_refs \<Rightarrow> bool" where
  "wf_products rs \<longleftrightarrow> distinct (map fst rs) \<and>
     (\<forall>(k, r) \<in> set rs. isValidProcessProductName k \<and> wf_ref r)"

lemma wf_products_jsmap_set:
  "wf_products rs \<Longrightarrow> isValidProcessProductName k \<Longrightarrow> wf_ref r \<Longrightarrow> wf_products (jsmap_set k r rs)"
  using set_jsmap_set [of k r rs] by (fastforce simp: wf_products_def)

lemma parse_product_wf: "wf_products rs \<Longrightarrow> wf_products (parse_product p rs)"
  by (auto simp: parse_product_def wf_products_jsmap_set parsed_ref_wf split: option.splits)

lemma parseProcessProductRefs_wf: "wf_products (parseProcessProductRefs v)"
proof -
  have "wf_products rs \<Longrightarrow> wf_products (fold parse_product fs rs)" for fs rs
    by (induction fs arbitrary: rs) (simp_all add: parse_product_wf)
  moreover have "wf_products []" by (simp add: wf_products_def)
  ultimately show ?thesis
    by (simp add: parseProcessProductRefs_def split: option.splits)
qed

lemma jsmap_set_fresh: "k \<notin> fst ` set m \<Longrightarrow> jsmap_set k v m = m @ [(k, v)]"
  by (induction m) auto

lemma reparse_products:
  "wf_products (acc @ rs) \<Longrightarrow> fold parse_product (map (\<lambda>(k, r). (k, entry_ref_json r)) rs) acc = acc @ rs"
proof (induction rs arbitrary: acc)
  case (Cons kr rs)
  obtain k r where kr: "kr = (k, r)" by (cases kr)
  from Cons.prems kr have "k \<notin> fst ` set acc" "isValidProcessProductName k" "wf_ref r"
    by (auto simp: wf_products_def)
  then have "parse_product (k, entry_ref_json r) acc = acc @ [(k, r)]"
    by (simp add: parse_product_def parse_entry_ref_json jsmap_set_fresh)
  with Cons kr show ?case by simp
qed simp

section \<open>Properties\<close>


text \<open>The links of a selection: the selection itself, its fallbacks in order, then the default.\<close>

fun selection_chain :: "path_type \<Rightarrow> start_selection \<Rightarrow> start_selection list" where
  "selection_chain b (FromSemanticRef key fb) = FromSemanticRef key None #
     (case fb of Some sel \<Rightarrow> selection_chain b sel | None \<Rightarrow> [defaultProcessTurnStartSelection b])"
| "selection_chain b (FromProductRef name fb) = FromProductRef name None #
     (case fb of Some sel \<Rightarrow> selection_chain b sel | None \<Rightarrow> [defaultProcessTurnStartSelection b])"
| "selection_chain b sel = [sel]"

fun link_resolves :: "start_context \<Rightarrow> start_selection \<Rightarrow> bool" where
  "link_resolves ctx (FromSemanticRef key _) = truthy (resolveProcessSemanticRefEntryId ctx key)"
| "link_resolves ctx (FromProductRef name _) = truthy (resolveProcessProductRefEntryId ctx name)"
| "link_resolves ctx _ = True"

lemma chain_never_stuck: "\<exists>l \<in> set (selection_chain b sel). link_resolves ctx l"
proof (induction b sel rule: selection_chain.induct)
  case (1 b key fb)
  then show ?case by (cases fb; cases b) auto
next
  case (2 b name fb)
  then show ?case by (cases fb; cases b) auto
qed simp_all

lemma resolve_uses_first_link:
  "Some (resolveProcessTurnStartTarget ctx sel) = map_option (resolveProcessTurnStartTarget ctx)
     (find (link_resolves ctx) (selection_chain (sc_branchType ctx) sel))"
proof (induction "sc_branchType ctx" sel rule: selection_chain.induct)
  case (1 key fb)
  then show ?case
    by (cases fb; cases "sc_branchType ctx") (auto simp: Let_def resolve_default_is_the_call)
next
  case (2 name fb)
  then show ?case
    by (cases fb; cases "sc_branchType ctx") (auto simp: Let_def resolve_default_is_the_call)
qed simp_all

lemma semantic_ref_truthy:
  "truthy (resolveProcessSemanticRefEntryId ctx key) \<Longrightarrow>
     \<exists>x. resolveProcessSemanticRefEntryId ctx key = Some x \<and> x \<noteq> [] \<and> (\<forall>p. sc_entryExists ctx = Some p \<longrightarrow> p x)"
  unfolding resolveProcessSemanticRefEntryId_def Let_def
  using resolveExisting_truthy by (auto split: if_splits)

lemma product_ref_truthy:
  "truthy (resolveProcessProductRefEntryId ctx name) \<Longrightarrow>
     \<exists>x. resolveProcessProductRefEntryId ctx name = Some x \<and> x \<noteq> [] \<and> (\<forall>p. sc_entryExists ctx = Some p \<longrightarrow> p x)"
  unfolding resolveProcessProductRefEntryId_def Let_def
  using resolveExisting_truthy by (auto split: if_splits)

text \<open>What a resolution promises about the entry the turn is forked from.\<close>

fun sound_resolution :: "start_context \<Rightarrow> start_selection list \<Rightarrow> start_resolution \<Rightarrow> bool" where
  "sound_resolution ctx links r \<longleftrightarrow>
     (case startTarget r of
        TargetRoot \<Rightarrow> forkPiEntryId r = None
      | TargetCurrentLeaf \<Rightarrow>
          forkPiEntryId r = resolveExistingProcessEntryId (sc_currentLeafId ctx) (sc_entryExists ctx)
      | TargetEntry e \<Rightarrow> forkPiEntryId r = Some e \<and>
          (FromEntry e \<in> set links \<or> e \<noteq> [] \<and> (\<forall>p. sc_entryExists ctx = Some p \<longrightarrow> p e)))"

lemma resolve_sound:
  "sound_resolution ctx (selection_chain (sc_branchType ctx) sel) (resolveProcessTurnStartTarget ctx sel)"
proof (induction "sc_branchType ctx" sel rule: selection_chain.induct)
  case (1 key fb)
  then show ?case
    using semantic_ref_truthy [of ctx key]
    by (cases fb; cases "sc_branchType ctx")
       (auto simp: Let_def resolve_default_def resolve_entry_def resolve_root_def resolve_current_leaf_def
         split: start_target.splits)
next
  case (2 name fb)
  then show ?case
    using product_ref_truthy [of ctx name]
    by (cases fb; cases "sc_branchType ctx")
       (auto simp: Let_def resolve_default_def resolve_entry_def resolve_root_def resolve_current_leaf_def
         split: start_target.splits)
qed (simp_all add: resolve_entry_def resolve_root_def resolve_current_leaf_def)

text \<open>
  C37. Where a turn starts. The resolution is that of the first link of the selection's fallback
  chain that resolves (the chain ends in the default of the branch type, so there always is one),
  and it is sound: a root start forks from nothing, a current-leaf start from the leaf when it
  exists, and an entry start from exactly the entry it names, which exists unless the selection
  spelled it out.
\<close>

theorem turn_start_follows_fallback_chain:
  "Some (resolveProcessTurnStartTarget ctx sel) = map_option (resolveProcessTurnStartTarget ctx)
     (find (link_resolves ctx) (selection_chain (sc_branchType ctx) sel))
   \<and> sound_resolution ctx (selection_chain (sc_branchType ctx) sel) (resolveProcessTurnStartTarget ctx sel)"
  by (rule conjI [OF resolve_uses_first_link resolve_sound])

text \<open>
  Recovery metadata round trip: what \<open>readFailedTurnRecoveryContext\<close> returns for metadata
  built by \<open>buildFailedTurnRecoveryMetadata\<close>. A different turn record is refused, a blank prompt
  is refused, and otherwise the context comes back with its prompt trimmed and its tool names
  trimmed, non-empty and without duplicates.
\<close>

lemma recovery_metadata_read:
  "readFailedTurnRecoveryContext (Some (buildFailedTurnRecoveryMetadata turnRecordId ov)) expected =
     (let c = createGenericFailedTurnRecoveryContext ov in
      if truthy expected \<and> expected \<noteq> Some (js_trim turnRecordId) then None
      else if js_trim (suggestedContinuePrompt c) = [] then None
      else Some (c\<lparr>suggestedContinuePrompt := js_trim (suggestedContinuePrompt c),
                   missingToolNames := normalizeUniqueStringArray
                     (map_option (\<lambda>ts. JArr (map JStr ts)) (missingToolNames c))\<rparr>))"
  by (cases expected; cases "ov_missingToolNames ov")
     (auto simp: readFailedTurnRecoveryContext_def buildFailedTurnRecoveryMetadata_def Let_def
        asUnknownRecord_def json_get_def trimToNull_JStr recovery_code_name_trimmed
        createGenericFailedTurnRecoveryContext_def normalizeUniqueStringArray_def normalizeStringArray_def)

end
