(* ===== verification/State_Json.thy ===== *)
theory State_Json
  imports Entry_Refs
begin

text \<open>
  Reading the stored state of a process (\<^verbatim>\<open>packages/domain/src/process-state-json.ts\<close> and
  \<^verbatim>\<open>packages/server/src/process-engine/state-json.ts\<close>). Each reader exists in a strict form, which
  throws on malformed input, and in a lenient form, which falls back to the empty value.

  The text syntax of JSON stays outside of the model: \<open>parseJson\<close> stands for \<open>JSON.parse\<close> and returns
  the parsed value or the message of the \<open>SyntaxError\<close>.
\<close>

datatype parse_context =
    NoContext
  | SubjectContext string
  | RecordContext "string option" "string option"

definition with_process :: "string \<Rightarrow> string option \<Rightarrow> string" where
  "with_process label processId =
     (if truthy processId then label @ '' for process '' @ [CHR 0x27] @ the processId @ [CHR 0x27] else label)"

fun formatMalformedSubject :: "string \<Rightarrow> parse_context \<Rightarrow> string" where
  "formatMalformedSubject defaultLabel NoContext = with_process defaultLabel None"
| "formatMalformedSubject defaultLabel (SubjectContext s) = s"
| "formatMalformedSubject defaultLabel (RecordContext label processId) =
     with_process (coalesce label defaultLabel) processId"

fun context_processId :: "parse_context \<Rightarrow> string option" where
  "context_processId (RecordContext _ processId) = processId"
| "context_processId _ = None"

definition parseProcessStateJsonStrict ::
    "(string \<Rightarrow> json throws) \<Rightarrow> string option \<Rightarrow> parse_context \<Rightarrow> (string \<times> json) list throws" where
  "parseProcessStateJsonStrict parseJson stateJson context =
     (if \<not> truthy stateJson then Inr []
      else
        let subject = formatMalformedSubject ''stateJson'' context in
        case parseJson (the stateJson) of
          Inl message \<Rightarrow> Inl (''Malformed '' @ subject @ '': '' @ message)
        | Inr (JObj flds) \<Rightarrow> Inr flds
        | Inr _ \<Rightarrow> Inl (''Malformed '' @ subject @ '': expected a JSON object''))"

text \<open>\<open>try { return strict } catch { return fallback }\<close>\<close>

definition leniently :: "'a \<Rightarrow> 'a throws \<Rightarrow> 'a" where
  "leniently fallback r = (case r of Inl _ \<Rightarrow> fallback | Inr x \<Rightarrow> x)"

definition parseProcessStateJsonLenient :: "(string \<Rightarrow> json throws) \<Rightarrow> string option \<Rightarrow> (string \<times> json) list" where
  "parseProcessStateJsonLenient parseJson stateJson =
     leniently [] (parseProcessStateJsonStrict parseJson stateJson NoContext)"

definition malformed :: "string \<Rightarrow> string option \<Rightarrow> string \<Rightarrow> string" where
  "malformed label processId problem =
     ''Malformed '' @ formatMalformedSubject label (RecordContext (Some label) processId) @ '': '' @ problem"

definition parseSemanticEntryRefsStrict :: "json option \<Rightarrow> string option \<Rightarrow> semantic_refs throws" where
  "parseSemanticEntryRefsStrict value processId =
     (case value of
        None \<Rightarrow> Inr createEmptyProcessSemanticEntryRefs
      | Some (JObj _) \<Rightarrow> Inr (parseProcessSemanticEntryRefs value)
      | Some _ \<Rightarrow> Inl (malformed ''semanticEntryRefs'' processId ''expected an object when present''))"

definition parseSemanticEntryRefsLenient :: "json option \<Rightarrow> semantic_refs" where
  "parseSemanticEntryRefsLenient value =
     leniently createEmptyProcessSemanticEntryRefs (parseSemanticEntryRefsStrict value None)"

fun strict_products :: "string option \<Rightarrow> (string \<times> json) list \<Rightarrow> product_refs \<Rightarrow> product_refs throws" where
  "strict_products processId [] refs = Inr refs"
| "strict_products processId ((name, rawRef) # rest) refs =
     (if \<not> isValidProcessProductName name
      then Inl (malformed ''productRefs'' processId (''invalid product name '' @ [CHR 0x27] @ name @ [CHR 0x27]))
      else case parseSemanticEntryRef (Some rawRef) of
        None \<Rightarrow> Inl (malformed ''productRefs'' processId
                  (''product '' @ [CHR 0x27] @ name @ [CHR 0x27] @ '' must reference an entry''))
      | Some ref \<Rightarrow> strict_products processId rest (jsmap_set name ref refs))"

definition parseProductRefsStrict :: "json option \<Rightarrow> string option \<Rightarrow> product_refs throws" where
  "parseProductRefsStrict value processId =
     (case value of
        None \<Rightarrow> Inr []
      | Some (JObj flds) \<Rightarrow> strict_products processId flds []
      | Some _ \<Rightarrow> Inl (malformed ''productRefs'' processId ''expected an object when present''))"

definition parseProductRefsLenient :: "json option \<Rightarrow> product_refs" where
  "parseProductRefsLenient value = leniently [] (parseProductRefsStrict value None)"

definition parseSemanticEntryRefsFromStateJsonStrict ::
    "(string \<Rightarrow> json throws) \<Rightarrow> string option \<Rightarrow> parse_context \<Rightarrow> semantic_refs throws" where
  "parseSemanticEntryRefsFromStateJsonStrict parseJson stateJson context =
     throws_bind (parseProcessStateJsonStrict parseJson stateJson context) (\<lambda>stateRecord.
       parseSemanticEntryRefsStrict (map_of stateRecord ''semanticEntryRefs'') (context_processId context))"

definition parseSemanticEntryRefsFromStateJsonLenient :: "(string \<Rightarrow> json throws) \<Rightarrow> string option \<Rightarrow> semantic_refs" where
  "parseSemanticEntryRefsFromStateJsonLenient parseJson stateJson =
     parseSemanticEntryRefsLenient (map_of (parseProcessStateJsonLenient parseJson stateJson) ''semanticEntryRefs'')"

definition parseProductRefsFromStateJsonStrict ::
    "(string \<Rightarrow> json throws) \<Rightarrow> string option \<Rightarrow> parse_context \<Rightarrow> product_refs throws" where
  "parseProductRefsFromStateJsonStrict parseJson stateJson context =
     throws_bind (parseProcessStateJsonStrict parseJson stateJson context) (\<lambda>stateRecord.
       parseProductRefsStrict (map_of stateRecord ''productRefs'') (context_processId context))"

definition parseProductRefsFromStateJsonLenient :: "(string \<Rightarrow> json throws) \<Rightarrow> string option \<Rightarrow> product_refs" where
  "parseProductRefsFromStateJsonLenient parseJson stateJson =
     parseProductRefsLenient (map_of (parseProcessStateJsonLenient parseJson stateJson) ''productRefs'')"

definition readCurrentPrimaryPathLeafEntryId :: "(string \<Rightarrow> json throws) \<Rightarrow> string option \<Rightarrow> string option" where
  "readCurrentPrimaryPathLeafEntryId parseJson stateJson =
     map_option er_entryId (currentPrimaryPathLeaf (parseSemanticEntryRefsFromStateJsonLenient parseJson stateJson))"

section \<open>Strict and lenient readers agree\<close>

text \<open>Whether a reader throws does not depend on the context, which only words the message.\<close>

lemma strict_state_context:
  "map_sum (\<lambda>_. ()) (\<lambda>x. x) (parseProcessStateJsonStrict parseJson stateJson c) =
   map_sum (\<lambda>_. ()) (\<lambda>x. x) (parseProcessStateJsonStrict parseJson stateJson NoContext)"
  by (simp add: parseProcessStateJsonStrict_def Let_def split: sum.splits json.splits)

lemma strict_state_ok:
  "parseProcessStateJsonStrict parseJson stateJson c = Inr r \<Longrightarrow> parseProcessStateJsonLenient parseJson stateJson = r"
  using strict_state_context [of parseJson stateJson c]
  by (cases "parseProcessStateJsonStrict parseJson stateJson NoContext")
    (simp_all add: parseProcessStateJsonLenient_def leniently_def)

lemma strict_refs_processId:
  "parseSemanticEntryRefsStrict v i = Inr r \<Longrightarrow> parseSemanticEntryRefsStrict v j = Inr r"
  by (auto simp: parseSemanticEntryRefsStrict_def split: option.splits json.splits)

text \<open>A product table is accepted when every name is valid and every value references an entry.\<close>

definition valid_product :: "string \<times> json \<Rightarrow> bool" where
  "valid_product p \<longleftrightarrow> isValidProcessProductName (fst p) \<and> parseSemanticEntryRef (Some (snd p)) \<noteq> None"

lemma strict_products_ok:
  "strict_products processId fs refs = Inr r \<longleftrightarrow> list_all valid_product fs \<and> r = fold parse_product fs refs"
  by (induction processId fs refs rule: strict_products.induct)
    (auto simp: valid_product_def parse_product_def split: option.splits)

text \<open>The strict reader is the permissive one of \<open>Entry_Refs\<close>, restricted to well-formed tables.\<close>

lemma strict_product_refs_ok:
  "parseProductRefsStrict v i = Inr r \<longleftrightarrow>
     (v = None \<or> (\<exists>fs. v = Some (JObj fs) \<and> list_all valid_product fs)) \<and> r = parseProcessProductRefs v"
  by (auto simp: parseProductRefsStrict_def strict_products_ok parseProcessProductRefs_def asUnknownRecord_def
      split: option.splits json.splits)

lemma lenient_product_refs:
  "leniently [] (parseProductRefsStrict v i) =
     (if v = None \<or> (\<exists>fs. v = Some (JObj fs) \<and> list_all valid_product fs) then parseProcessProductRefs v else [])"
proof (cases "parseProductRefsStrict v i")
  case (Inl e)
  then have "\<not> (v = None \<or> (\<exists>fs. v = Some (JObj fs) \<and> list_all valid_product fs))"
    using strict_product_refs_ok [of v i "parseProcessProductRefs v"] by simp
  then show ?thesis unfolding Inl leniently_def by (simp only: if_False sum.case)
next
  case (Inr r)
  then show ?thesis using strict_product_refs_ok [of v i r] by (simp add: leniently_def)
qed

section \<open>Properties\<close>

text \<open>
  The lenient reader of the product references is the strict one with every failure replaced by
  the empty table, whatever the stored text and the context. The strict reader accepts exactly the
  texts that hold an object whose product table, if present, has only valid names and entry
  references, and then returns what the permissive reader of the domain package does.
\<close>

lemma lenient_product_refs_agree:
  "parseProductRefsFromStateJsonLenient parseJson stateJson =
     (case parseProductRefsFromStateJsonStrict parseJson stateJson context of
        Inl _ \<Rightarrow> []
      | Inr refs \<Rightarrow> refs) \<and>
   (parseProductRefsFromStateJsonStrict parseJson stateJson context = Inr refs \<longleftrightarrow>
      (\<exists>flds. parseProcessStateJsonStrict parseJson stateJson context = Inr flds \<and>
         (map_of flds ''productRefs'' = None \<or>
          (\<exists>fs. map_of flds ''productRefs'' = Some (JObj fs) \<and> list_all valid_product fs)) \<and>
         refs = parseProcessProductRefs (map_of flds ''productRefs'')))"
proof (rule conjI)
  show "parseProductRefsFromStateJsonLenient parseJson stateJson =
     (case parseProductRefsFromStateJsonStrict parseJson stateJson context of Inl _ \<Rightarrow> [] | Inr refs \<Rightarrow> refs)"
  proof (cases "parseProcessStateJsonStrict parseJson stateJson context")
    case (Inl e)
    then obtain e' where "parseProcessStateJsonStrict parseJson stateJson NoContext = Inl e'"
      using strict_state_context [of parseJson stateJson "context"]
      by (cases "parseProcessStateJsonStrict parseJson stateJson NoContext") simp_all
    with Inl show ?thesis
      by (simp add: parseProductRefsFromStateJsonLenient_def parseProcessStateJsonLenient_def leniently_def
          parseProductRefsLenient_def parseProductRefsFromStateJsonStrict_def parseProductRefsStrict_def)
  next
    case (Inr flds)
    let ?v = "map_of flds ''productRefs''"
    have "leniently [] (parseProductRefsStrict ?v None) =
        leniently [] (parseProductRefsStrict ?v (context_processId context))"
      unfolding lenient_product_refs ..
    then show ?thesis
      by (simp add: parseProductRefsFromStateJsonLenient_def parseProductRefsFromStateJsonStrict_def
          parseProductRefsLenient_def strict_state_ok [OF Inr] Inr leniently_def)
  qed
  show "parseProductRefsFromStateJsonStrict parseJson stateJson context = Inr refs \<longleftrightarrow>
      (\<exists>flds. parseProcessStateJsonStrict parseJson stateJson context = Inr flds \<and>
         (map_of flds ''productRefs'' = None \<or>
          (\<exists>fs. map_of flds ''productRefs'' = Some (JObj fs) \<and> list_all valid_product fs)) \<and>
         refs = parseProcessProductRefs (map_of flds ''productRefs''))"
    by (auto simp: parseProductRefsFromStateJsonStrict_def strict_product_refs_ok)
qed

end
