(* ===== verification/Process_Graph.thy ===== *)
theory Process_Graph
  imports Entry_Refs
begin

text \<open>
  The graph of a process and the moves it allows: the graph views and their validation
  (\<^verbatim>\<open>packages/process-sdk/src/process-graph.ts\<close>) and the process state machine of the server
  (\<^verbatim>\<open>packages/server/src/domain-logic/process-state-machine.ts\<close>).

  A process definition is given with the view of each of its turns (the display metadata of a turn
  and the conditions of its edges play no part in any decision and are left out).
  \<open>TransitionTrigger\<close> is a string. An optional argument is an \<open>option\<close> whose \<open>None\<close> is
  \<open>undefined\<close>; the target of a transition may moreover be \<open>null\<close>, which is \<open>Some None\<close>.
\<close>

section \<open>Graph views\<close>

fun lifecycle_status_name :: "lifecycle_status \<Rightarrow> string" where
  "lifecycle_status_name Discovered = ''discovered''"
| "lifecycle_status_name ActiveProcess = ''active''"
| "lifecycle_status_name WaitingProcess = ''waiting''"
| "lifecycle_status_name ErrorProcess = ''error''"
| "lifecycle_status_name CompletedProcess = ''completed''"
| "lifecycle_status_name AbortedProcess = ''aborted''"

record turn_transition =
  tr_nextTurnId :: "string option"
  tr_lifecycleStatus :: "lifecycle_status option"
  tr_outcome :: "string option"
  tr_trigger :: "string option"

record turn_view =
  tv_turnType :: turn_type
  tv_description :: string
  tv_transitions :: "turn_transition list"
  tv_publishedProduct :: "string option"
  tv_publishedProducts :: "string list option"
  tv_consumedProducts :: "string list option"
  tv_optionalConsumedProducts :: "string list option"

type_synonym turn_views = "(string \<times> turn_view) list"

text \<open>
  A turn of a definition: its view, whether its definition has a \<open>waitFor\<close> predicate, and for an LLM turn
  the branch it runs on and the context it starts from.
\<close>

datatype llm_context_mode = FullContext | CompactedContext | FreshContext | FreshSeededContext

record turn_binding =
  tb_view :: turn_view
  tb_waitFor :: bool
  tb_branchType :: path_type
  tb_context :: llm_context_mode

record process_definition =
  pd_id :: string
  pd_entryTurnId :: string
  pd_alternateEntryTurnIds :: "string list option"
  pd_happyPath :: "string list option"
  pd_turns :: "(string \<times> turn_binding) list"

record graph_view =
  gv_id :: string
  gv_primaryEntryTurnId :: string
  gv_entryTurnIds :: "string list"
  gv_happyPath :: "string list option"
  gv_turns :: turn_views

type_synonym graph_registry = "(string \<times> process_definition) list"

definition toProcessGraphView :: "process_definition \<Rightarrow> graph_view" where
  "toProcessGraphView d =
     \<lparr>gv_id = pd_id d,
      gv_primaryEntryTurnId = pd_entryTurnId d,
      gv_entryTurnIds = fold jsset_add (pd_entryTurnId d # coalesce (pd_alternateEntryTurnIds d) []) [],
      gv_happyPath = pd_happyPath d,
      gv_turns = fold (\<lambda>(turnId, binding). jsmap_set turnId (tb_view binding)) (pd_turns d) []\<rparr>"

definition hasProcessGraph :: "graph_registry \<Rightarrow> string \<Rightarrow> bool" where
  "hasProcessGraph registry processId \<longleftrightarrow> map_of registry processId \<noteq> None"

definition getProcessGraph :: "graph_registry \<Rightarrow> string \<Rightarrow> graph_view throws" where
  "getProcessGraph registry processId =
     (case map_of registry processId of
        None \<Rightarrow> Inl (''Unknown process definition: '' @ processId)
      | Some d \<Rightarrow> Inr (toProcessGraphView d))"

definition getProcessTurnGraph :: "graph_registry \<Rightarrow> string \<Rightarrow> string \<Rightarrow> turn_view option throws" where
  "getProcessTurnGraph registry processId turnId =
     throws_bind (getProcessGraph registry processId) (\<lambda>g. Inr (map_of (gv_turns g) turnId))"

definition getTurnTransitionsForProcessGraph ::
    "graph_registry \<Rightarrow> string \<Rightarrow> string \<Rightarrow> turn_transition list throws" where
  "getTurnTransitionsForProcessGraph registry processId turnId =
     throws_bind (getProcessTurnGraph registry processId turnId)
       (\<lambda>t. Inr (coalesce (map_option tv_transitions t) []))"

definition getReachableTurnIdsForProcessGraph :: "graph_registry \<Rightarrow> string \<Rightarrow> string list throws" where
  "getReachableTurnIdsForProcessGraph registry processId =
     throws_bind (getProcessGraph registry processId) (\<lambda>g. Inr (map fst (gv_turns g)))"

definition isTurnAvailableForProcessGraph :: "graph_registry \<Rightarrow> string \<Rightarrow> string \<Rightarrow> bool throws" where
  "isTurnAvailableForProcessGraph registry processId turnId =
     throws_bind (getProcessGraph registry processId) (\<lambda>g. Inr (turnId \<in> set (map fst (gv_turns g))))"

record serialized_graph =
  sg_id :: string
  sg_entryTurnIds :: "string list"
  sg_reachableTurnIds :: "string list"
  sg_turnTransitions :: "(string \<times> turn_transition list) list"

definition serializeProcessGraph :: "graph_registry \<Rightarrow> string \<Rightarrow> serialized_graph throws" where
  "serializeProcessGraph registry processId =
     throws_bind (getProcessGraph registry processId) (\<lambda>g. Inr
       \<lparr>sg_id = gv_id g, sg_entryTurnIds = gv_entryTurnIds g,
        sg_reachableTurnIds = map fst (gv_turns g),
        sg_turnTransitions = map (\<lambda>(turnId, t). (turnId, tv_transitions t)) (gv_turns g)\<rparr>)"

definition listLlmTurnIdsForProcessGraph :: "graph_registry \<Rightarrow> string \<Rightarrow> string list throws" where
  "listLlmTurnIdsForProcessGraph registry processId =
     throws_bind (getProcessGraph registry processId)
       (\<lambda>g. Inr (map fst (filter (\<lambda>(_, t). tv_turnType t = LlmTurn) (gv_turns g))))"

section \<open>Validation\<close>

definition isTerminalLifecycleStatus :: "lifecycle_status \<Rightarrow> bool" where
  "isTerminalLifecycleStatus s \<longleftrightarrow> s = CompletedProcess \<or> s = AbortedProcess"

definition quoted :: "string \<Rightarrow> string" where
  "quoted s = CHR 0x27 # s @ [CHR 0x27]"

definition turn_published :: "turn_view \<Rightarrow> string list" where
  "turn_published t =
     (case tv_publishedProduct t of Some p \<Rightarrow> if p \<noteq> [] then [p] else [] | None \<Rightarrow> [])
     @ coalesce (tv_publishedProducts t) []"

definition turn_consumed :: "turn_view \<Rightarrow> string list" where
  "turn_consumed t = coalesce (tv_consumedProducts t) [] @ coalesce (tv_optionalConsumedProducts t) []"

definition publish_product :: "string \<Rightarrow> string \<Rightarrow> string list \<times> string list \<Rightarrow> string list \<times> string list" where
  "publish_product turnId name acc =
     (if \<not> isValidProcessProductName name
      then (fst acc @ [''Turn '' @ quoted turnId @ '' publishes invalid product '' @ quoted name], snd acc)
      else (fst acc, jsset_add name (snd acc)))"

definition consume_errors :: "string list \<Rightarrow> string \<Rightarrow> string \<Rightarrow> string list" where
  "consume_errors published turnId name =
     (if \<not> isValidProcessProductName name
      then [''Turn '' @ quoted turnId @ '' consumes invalid product '' @ quoted name]
      else if name \<notin> set published
      then [''Turn '' @ quoted turnId @ '' consumes product '' @ quoted name
            @ '' that is never published by this process'']
      else [])"

definition validateProcessGraphProducts :: "graph_view \<Rightarrow> string list" where
  "validateProcessGraphProducts g =
     (let pub = fold (\<lambda>(turnId, t). fold (publish_product turnId) (turn_published t)) (gv_turns g) ([], []) in
      fst pub @ concat (map (\<lambda>(turnId, t). concat (map (consume_errors (snd pub) turnId) (turn_consumed t)))
        (gv_turns g)))"

definition transition_errors :: "graph_view \<Rightarrow> string \<Rightarrow> turn_transition \<Rightarrow> string list" where
  "transition_errors g turnId tr =
     (if (tr_nextTurnId tr \<noteq> None) = (tr_lifecycleStatus tr \<noteq> None)
      then [''Turn transition from '' @ quoted turnId
            @ '' must declare exactly one target: nextTurnId or lifecycleStatus'']
      else
        (case tr_nextTurnId tr of
           Some n \<Rightarrow> if n \<notin> set (map fst (gv_turns g))
             then [''Turn transition from '' @ quoted turnId @ '' references undeclared nextTurnId '' @ quoted n]
             else []
         | None \<Rightarrow> [])
        @ (case tr_lifecycleStatus tr of
             Some st \<Rightarrow> if \<not> isTerminalLifecycleStatus st
               then [''Turn transition from '' @ quoted turnId @ '' references invalid lifecycleStatus ''
                     @ quoted (lifecycle_status_name st)]
               else []
           | None \<Rightarrow> []))"

definition validateProcessGraphTurnTransitions :: "graph_view \<Rightarrow> string list" where
  "validateProcessGraphTurnTransitions g =
     concat (map (\<lambda>(turnId, t). concat (map (transition_errors g turnId) (tv_transitions t))) (gv_turns g))"

section \<open>The process state machine\<close>

datatype transition_error_code = InvalidTransition | TurnUnreachable

datatype transition_verdict =
    TransitionOk (ok_from: "string option") (ok_to: "string option") (ok_trigger: "string option")
  | TransitionFail transition_error_code string "string option" "string option" "string option"

record outcome_match =
  om_fromTurnId :: string
  om_toTurnId :: "string option"
  om_lifecycleStatus :: "lifecycle_status option"
  om_outcome :: string

definition matchesTrigger :: "string option \<Rightarrow> string option \<Rightarrow> bool" where
  "matchesTrigger transitionTrigger requestedTrigger \<longleftrightarrow>
     requestedTrigger = None \<or> transitionTrigger = requestedTrigger \<or>
     (requestedTrigger = Some ''advance'' \<and> transitionTrigger = None)"

definition outcome_candidates :: "string \<Rightarrow> turn_transition list \<Rightarrow> turn_transition list" where
  "outcome_candidates outcome trs =
     filter (\<lambda>c. tr_trigger c = None \<and> (tr_outcome c = None \<or> tr_outcome c = Some outcome)) trs"

definition candidate_name :: "turn_transition \<Rightarrow> string" where
  "candidate_name c =
     (case tr_nextTurnId c of
        Some n \<Rightarrow> n
      | None \<Rightarrow> (case tr_lifecycleStatus c of Some st \<Rightarrow> lifecycle_status_name st | None \<Rightarrow> ''null''))"

definition findOutcomeTransition ::
    "graph_registry \<Rightarrow> string \<Rightarrow> string \<Rightarrow> string \<Rightarrow> outcome_match option throws" where
  "findOutcomeTransition registry processId currentTurnId outcome =
     throws_bind (getTurnTransitionsForProcessGraph registry processId currentTurnId) (\<lambda>trs.
       case outcome_candidates outcome trs of
         [] \<Rightarrow> Inr None
       | [m] \<Rightarrow> Inr (Some \<lparr>om_fromTurnId = currentTurnId, om_toTurnId = tr_nextTurnId m,
                         om_lifecycleStatus = tr_lifecycleStatus m, om_outcome = outcome\<rparr>)
       | ms \<Rightarrow> Inl (''Ambiguous outcome transition from '' @ quoted currentTurnId @ '' for outcome ''
                    @ quoted outcome @ '': '' @ js_join '', '' (map candidate_name ms)))"

text \<open>\<open>String(targetTurnId)\<close> of a target that is not \<open>undefined\<close>.\<close>

definition target_name :: "string option \<Rightarrow> string" where
  "target_name t = coalesce t ''null''"

definition transition_candidates ::
    "string option option \<Rightarrow> string option \<Rightarrow> turn_transition list \<Rightarrow> turn_transition list" where
  "transition_candidates target trigger trs =
     filter (\<lambda>c. tr_lifecycleStatus c = None
                \<and> (target = None \<or> (\<exists>t \<in> set_option (tr_nextTurnId c). target = Some (Some t)))
                \<and> matchesTrigger (tr_trigger c) trigger) trs"

definition tryTransition ::
    "graph_registry \<Rightarrow> string \<Rightarrow> string option \<Rightarrow> string option \<Rightarrow> string option option \<Rightarrow>
     lifecycle_status option \<Rightarrow> transition_verdict throws" where
  "tryTransition registry processId currentTurnId trigger target lifecycleStatus =
     throws_bind (getProcessGraph registry processId) (\<lambda>def.
       let status = coalesce lifecycleStatus (if truthy currentTurnId then ActiveProcess else Discovered);
           failure = (\<lambda>code msg. Inr (TransitionFail code msg currentTurnId
             (case target of Some (Some t) \<Rightarrow> Some t | _ \<Rightarrow> currentTurnId) trigger)) in
       case currentTurnId of
         None \<Rightarrow>
           if status \<noteq> Discovered then
             failure InvalidTransition (''Process '' @ quoted processId @ '' is ''
               @ quoted (lifecycle_status_name status) @ '' and has no selected turn'')
           else (case target of
             None \<Rightarrow> Inr (TransitionOk None (Some (gv_primaryEntryTurnId def)) (Some (coalesce trigger ''start'')))
           | Some t \<Rightarrow>
               if t = None \<or> the t \<notin> set (gv_entryTurnIds def) then
                 failure InvalidTransition (''Turn '' @ quoted (target_name t)
                   @ '' is not a declared entry turn for process '' @ quoted processId)
               else Inr (TransitionOk None t (Some (coalesce trigger ''start''))))
       | Some current \<Rightarrow>
           throws_bind (isTurnAvailableForProcessGraph registry processId current) (\<lambda>available.
           if \<not> available then
             failure TurnUnreachable (''Current turn '' @ quoted current
               @ '' is not declared for process '' @ quoted processId)
           else throws_bind (case target of
               Some (Some t) \<Rightarrow> isTurnAvailableForProcessGraph registry processId t
             | _ \<Rightarrow> Inr True) (\<lambda>targetAvailable.
           if \<not> targetAvailable then
             failure TurnUnreachable (''Target turn '' @ quoted (target_name (the target))
               @ '' is not declared for process '' @ quoted processId)
           else throws_bind (getTurnTransitionsForProcessGraph registry processId current) (\<lambda>trs.
           case transition_candidates target trigger trs of
             [] \<Rightarrow> failure InvalidTransition (''No turn transition from '' @ quoted current
                 @ (case target of Some t \<Rightarrow> '' to '' @ quoted (target_name t) | None \<Rightarrow> [])
                 @ (case trigger of Some tg \<Rightarrow> '' with trigger '' @ quoted tg | None \<Rightarrow> []))
           | m # ms \<Rightarrow>
               if target = None \<and> ms \<noteq> [] then
                 failure InvalidTransition (''Ambiguous turn transition from '' @ quoted current @ '': ''
                   @ js_join '', '' (map (\<lambda>c. coalesce (tr_nextTurnId c) []) (m # ms))
                   @ ''. Specify targetTurnId.'')
               else Inr (TransitionOk (Some current) (tr_nextTurnId m)
                 (if trigger \<noteq> None then trigger else tr_trigger m))))))"

definition canAbort :: "lifecycle_status \<Rightarrow> bool" where
  "canAbort s \<longleftrightarrow> s \<noteq> CompletedProcess \<and> s \<noteq> AbortedProcess"

section \<open>Well-formed graphs\<close>

text \<open>What the validators promise of a graph they accept.\<close>

fun well_targeted :: "graph_view \<Rightarrow> turn_transition \<Rightarrow> bool" where
  "well_targeted g tr \<longleftrightarrow>
     (case (tr_nextTurnId tr, tr_lifecycleStatus tr) of
        (Some n, None) \<Rightarrow> n \<in> set (map fst (gv_turns g))
      | (None, Some st) \<Rightarrow> isTerminalLifecycleStatus st
      | _ \<Rightarrow> False)"

definition graph_well_targeted :: "graph_view \<Rightarrow> bool" where
  "graph_well_targeted g \<longleftrightarrow> list_all (\<lambda>(_, t). list_all (well_targeted g) (tv_transitions t)) (gv_turns g)"

definition published_anywhere :: "graph_view \<Rightarrow> string set" where
  "published_anywhere g = (\<Union>(_, t) \<in> set (gv_turns g). set (turn_published t))"

definition products_ok :: "graph_view \<Rightarrow> bool" where
  "products_ok g \<longleftrightarrow>
     list_all (\<lambda>(_, t). list_all isValidProcessProductName (turn_published t)
        \<and> list_all (\<lambda>p. isValidProcessProductName p \<and> p \<in> published_anywhere g) (turn_consumed t)) (gv_turns g)"

lemma transition_errors_Nil: "transition_errors g turnId tr = [] \<longleftrightarrow> well_targeted g tr"
  by (auto simp: transition_errors_def split: option.splits)

lemma transitions_validated_iff: "validateProcessGraphTurnTransitions g = [] \<longleftrightarrow> graph_well_targeted g"
  by (auto simp: validateProcessGraphTurnTransitions_def graph_well_targeted_def list_all_iff
      transition_errors_Nil split: prod.splits)

lemma fold_publish_product:
  "fst (fold (publish_product turnId) ns acc) = [] \<longleftrightarrow> fst acc = [] \<and> list_all isValidProcessProductName ns"
  "set (snd (fold (publish_product turnId) ns acc)) = set (snd acc) \<union> {n \<in> set ns. isValidProcessProductName n}"
  by (induction ns arbitrary: acc) (auto simp: publish_product_def)

lemma fold_publish_turns:
  fixes ts :: turn_views
  shows "fst (fold (\<lambda>(turnId, t). fold (publish_product turnId) (turn_published t)) ts acc) = [] \<longleftrightarrow>
      fst acc = [] \<and> list_all (\<lambda>(_, t). list_all isValidProcessProductName (turn_published t)) ts"
    and "set (snd (fold (\<lambda>(turnId, t). fold (publish_product turnId) (turn_published t)) ts acc)) =
      set (snd acc) \<union> {n \<in> (\<Union>(_, t) \<in> set ts. set (turn_published t)). isValidProcessProductName n}"
  by (induction ts arbitrary: acc) (auto simp: fold_publish_product)

lemma consume_errors_Nil:
  "consume_errors published turnId p = [] \<longleftrightarrow> isValidProcessProductName p \<and> p \<in> set published"
  by (simp add: consume_errors_def)

lemma products_validated_iff: "validateProcessGraphProducts g = [] \<longleftrightarrow> products_ok g"
  by (auto simp: validateProcessGraphProducts_def Let_def products_ok_def published_anywhere_def list_all_iff
      fold_publish_turns consume_errors_Nil split: prod.splits)

text \<open>Lookups in the view of a definition.\<close>

lemma fold_jsmap_set_keys:
  fixes m :: "('k \<times> 'v) list"
  shows "fst ` set (fold (\<lambda>(k, v). jsmap_set k (f v)) kvs m) = fst ` set m \<union> fst ` set kvs"
proof (induction kvs arbitrary: m)
  case (Cons kv kvs)
  then show ?case by (cases kv) simp
qed simp

lemma view_declares: "fst ` set (gv_turns (toProcessGraphView d)) = fst ` set (pd_turns d)"
  by (simp add: toProcessGraphView_def fold_jsmap_set_keys)

lemma view_entries: "set (gv_entryTurnIds (toProcessGraphView d)) =
    insert (pd_entryTurnId d) (set (coalesce (pd_alternateEntryTurnIds d) []))"
  by (simp add: toProcessGraphView_def)

lemma getProcessGraph_Some [simp]:
  "map_of registry processId = Some d \<Longrightarrow> getProcessGraph registry processId = Inr (toProcessGraphView d)"
  by (simp add: getProcessGraph_def)

lemma getProcessGraph_None [simp]:
  "map_of registry processId = None \<Longrightarrow>
     getProcessGraph registry processId = Inl (''Unknown process definition: '' @ processId)"
  by (simp add: getProcessGraph_def)

definition declared :: "graph_view \<Rightarrow> string \<Rightarrow> bool" where
  "declared g t \<longleftrightarrow> t \<in> set (map fst (gv_turns g))"

definition turn_edges :: "graph_view \<Rightarrow> string \<Rightarrow> turn_transition list" where
  "turn_edges g t = coalesce (map_option tv_transitions (map_of (gv_turns g) t)) []"

lemma graph_lookups:
  assumes "map_of registry processId = Some d"
  shows "isTurnAvailableForProcessGraph registry processId t = Inr (declared (toProcessGraphView d) t)"
    and "getTurnTransitionsForProcessGraph registry processId t = Inr (turn_edges (toProcessGraphView d) t)"
  using assms
  by (simp_all add: isTurnAvailableForProcessGraph_def getTurnTransitionsForProcessGraph_def
      getProcessTurnGraph_def declared_def turn_edges_def)

lemma edges_well_targeted:
  assumes "graph_well_targeted g" "tr \<in> set (turn_edges g t)"
  shows "well_targeted g tr"
proof (cases "map_of (gv_turns g) t")
  case (Some v)
  then have "(t, v) \<in> set (gv_turns g)" by (rule map_of_SomeD)
  with assms Some show ?thesis by (auto simp: graph_well_targeted_def turn_edges_def list_all_iff)
qed (use assms in \<open>simp add: turn_edges_def\<close>)

text \<open>The edges a transition request may take.\<close>

definition usable_edge :: "graph_view \<Rightarrow> string \<Rightarrow> string option \<Rightarrow> turn_transition \<Rightarrow> bool" where
  "usable_edge g current trigger tr \<longleftrightarrow>
     tr \<in> set (turn_edges g current) \<and> tr_lifecycleStatus tr = None \<and> matchesTrigger (tr_trigger tr) trigger"

lemma candidate_iff:
  "tr \<in> set (transition_candidates target trigger (turn_edges g current)) \<longleftrightarrow>
     usable_edge g current trigger tr \<and> (target = None \<or> (\<exists>t. tr_nextTurnId tr = Some t \<and> target = Some (Some t)))"
  by (auto simp: transition_candidates_def usable_edge_def)

text \<open>\<open>tryTransition\<close> from a selected turn, in terms of the candidate edges.\<close>

lemma tryTransition_selected:
  assumes "map_of registry processId = Some d"
  shows "(tryTransition registry processId (Some current) trigger target status =
           Inr (TransitionOk from dest trig)) \<longleftrightarrow>
     (let g = toProcessGraphView d in
      declared g current \<and> (\<forall>t. target = Some (Some t) \<longrightarrow> declared g t) \<and> from = Some current \<and>
      (case transition_candidates target trigger (turn_edges g current) of
         [] \<Rightarrow> False
       | m # ms \<Rightarrow> (target = None \<longrightarrow> ms = []) \<and> dest = tr_nextTurnId m \<and>
                   trig = (if trigger \<noteq> None then trigger else tr_trigger m)))"
  using assms
  by (auto simp: tryTransition_def graph_lookups Let_def split: option.splits list.splits)

lemma tryTransition_discovered:
  assumes "map_of registry processId = Some d"
  shows "(tryTransition registry processId None trigger target status =
           Inr (TransitionOk from dest trig)) \<longleftrightarrow>
     (let g = toProcessGraphView d in
      coalesce status Discovered = Discovered \<and> from = None \<and> trig = Some (coalesce trigger ''start'') \<and>
      (case target of
         None \<Rightarrow> dest = Some (gv_primaryEntryTurnId g)
       | Some t \<Rightarrow> dest = t \<and> (\<exists>e. t = Some e \<and> e \<in> set (gv_entryTurnIds g))))"
  using assms by (cases target) (auto simp: tryTransition_def Let_def)

lemma granted_from_selected:
  assumes "map_of registry processId = Some d"
  shows "(\<exists>from trig. tryTransition registry processId (Some current) trigger (Some (Some t)) status
           = Inr (TransitionOk from (Some t) trig)) \<longleftrightarrow>
         declared (toProcessGraphView d) current \<and> declared (toProcessGraphView d) t \<and>
         (\<exists>tr. usable_edge (toProcessGraphView d) current trigger tr \<and> tr_nextTurnId tr = Some t)"
proof -
  let ?g = "toProcessGraphView d"
  obtain cs where cs: "cs = transition_candidates (Some (Some t)) trigger (turn_edges ?g current)" by simp
  have c: "tr \<in> set cs \<longleftrightarrow> usable_edge ?g current trigger tr \<and> tr_nextTurnId tr = Some t" for tr
    by (auto simp: candidate_iff cs)
  show ?thesis
  proof (cases cs)
    case Nil
    then show ?thesis
      using c unfolding tryTransition_selected [OF assms] Let_def cs [symmetric] by auto
  next
    case (Cons m ms)
    then have "usable_edge ?g current trigger m" "tr_nextTurnId m = Some t" using c [of m] by simp_all
    with Cons show ?thesis
      unfolding tryTransition_selected [OF assms] Let_def cs [symmetric] by auto
  qed
qed

lemma granted_from_discovered:
  assumes "map_of registry processId = Some d"
  shows "(\<exists>from trig. tryTransition registry processId None trigger (Some (Some t)) status
           = Inr (TransitionOk from (Some t) trig)) \<longleftrightarrow>
         coalesce status Discovered = Discovered \<and> t \<in> set (gv_entryTurnIds (toProcessGraphView d))"
  unfolding tryTransition_discovered [OF assms] Let_def by auto

text \<open>In a validated graph, a granted transition ends in a declared turn.\<close>

definition entries_declared :: "graph_view \<Rightarrow> bool" where
  "entries_declared g \<longleftrightarrow> list_all (declared g) (gv_primaryEntryTurnId g # gv_entryTurnIds g)"

lemma granted_is_declared:
  assumes "map_of registry processId = Some d"
    and "graph_well_targeted (toProcessGraphView d)" "entries_declared (toProcessGraphView d)"
    and "tryTransition registry processId current trigger target status = Inr (TransitionOk from dest trig)"
  shows "\<exists>t. dest = Some t \<and> declared (toProcessGraphView d) t"
proof (cases current)
  case None
  with assms(3,4) show ?thesis
    by (auto simp: tryTransition_discovered [OF assms(1)] entries_declared_def Let_def list_all_iff
        split: option.splits)
next
  case (Some c)
  let ?g = "toProcessGraphView d"
  from assms(4) Some obtain m where m: "m \<in> set (transition_candidates target trigger (turn_edges ?g c))"
      "dest = tr_nextTurnId m"
    by (auto simp: tryTransition_selected [OF assms(1)] Let_def split: list.splits)
  then have "m \<in> set (turn_edges ?g c)" "tr_lifecycleStatus m = None"
    by (auto simp: candidate_iff usable_edge_def)
  then have "well_targeted ?g m" using edges_well_targeted [OF assms(2)] by blast
  with m \<open>tr_lifecycleStatus m = None\<close> show ?thesis
    by (auto simp: declared_def split: option.splits)
qed

lemma outcome_match_cases:
  assumes "map_of registry processId = Some d"
  shows "findOutcomeTransition registry processId current outcome =
     (case outcome_candidates outcome (turn_edges (toProcessGraphView d) current) of
         [] \<Rightarrow> Inr None
       | [m] \<Rightarrow> Inr (Some \<lparr>om_fromTurnId = current, om_toTurnId = tr_nextTurnId m,
                         om_lifecycleStatus = tr_lifecycleStatus m, om_outcome = outcome\<rparr>)
       | ms \<Rightarrow> Inl (''Ambiguous outcome transition from '' @ quoted current @ '' for outcome ''
                    @ quoted outcome @ '': '' @ js_join '', '' (map candidate_name ms)))"
  using assms by (simp add: findOutcomeTransition_def graph_lookups)

lemma outcome_match_declared:
  assumes "map_of registry processId = Some d" "graph_well_targeted (toProcessGraphView d)"
    and "findOutcomeTransition registry processId current outcome = Inr (Some m)"
  shows "(om_toTurnId m = None \<and> om_lifecycleStatus m \<in> {Some CompletedProcess, Some AbortedProcess}) \<or>
     (\<exists>t. om_toTurnId m = Some t \<and> om_lifecycleStatus m = None \<and> declared (toProcessGraphView d) t)"
proof -
  let ?g = "toProcessGraphView d"
  from assms(3) obtain tr where tr: "tr \<in> set (outcome_candidates outcome (turn_edges ?g current))"
      "om_toTurnId m = tr_nextTurnId tr" "om_lifecycleStatus m = tr_lifecycleStatus tr"
    unfolding outcome_match_cases [OF assms(1)] by (auto split: list.splits)
  then have "tr \<in> set (turn_edges ?g current)" by (simp add: outcome_candidates_def)
  then have "well_targeted ?g tr" by (rule edges_well_targeted [OF assms(2)])
  with tr show ?thesis
    by (auto simp: isTerminalLifecycleStatus_def declared_def split: option.splits)
qed

section \<open>Properties\<close>

text \<open>
  C31. The graph validators are exact: a graph is accepted if and only if every transition has
  exactly one target, which is a declared turn or a terminal lifecycle status, all product names
  are valid, and every consumed product is published by some turn of the graph.
\<close>

theorem graph_validation_exact:
  "(validateProcessGraphTurnTransitions g = [] \<longleftrightarrow> graph_well_targeted g) \<and>
   (validateProcessGraphProducts g = [] \<longleftrightarrow> products_ok g)"
  by (rule conjI [OF transitions_validated_iff products_validated_iff])

text \<open>
  C30. A requested transition to a turn is granted if and only if the graph has it: from a selected
  turn, when both turns are declared and some edge between them is not terminal and matches the
  trigger; with no selected turn, when the process is still only discovered and the target is one
  of its entry turns.
\<close>

theorem transition_granted_iff_edge:
  assumes "map_of registry processId = Some d"
  shows "((\<exists>from trig. tryTransition registry processId (Some current) trigger (Some (Some t)) status
           = Inr (TransitionOk from (Some t) trig)) \<longleftrightarrow>
         declared (toProcessGraphView d) current \<and> declared (toProcessGraphView d) t \<and>
         (\<exists>tr. usable_edge (toProcessGraphView d) current trigger tr \<and> tr_nextTurnId tr = Some t)) \<and>
    ((\<exists>from trig. tryTransition registry processId None trigger (Some (Some t)) status
           = Inr (TransitionOk from (Some t) trig)) \<longleftrightarrow>
         coalesce status Discovered = Discovered \<and> t \<in> set (gv_entryTurnIds (toProcessGraphView d)))"
  using granted_from_selected [OF assms] granted_from_discovered [OF assms] by simp

text \<open>A review process with a revision loop, for the witnesses.\<close>

definition edge :: "string option \<Rightarrow> lifecycle_status option \<Rightarrow> string option \<Rightarrow> string option \<Rightarrow> turn_transition" where
  "edge n l oc tg = \<lparr>tr_nextTurnId = n, tr_lifecycleStatus = l, tr_outcome = oc, tr_trigger = tg\<rparr>"

definition sample_binding :: "turn_type \<Rightarrow> turn_transition list \<Rightarrow> turn_binding" where
  "sample_binding ty trs = \<lparr>tb_view = \<lparr>tv_turnType = ty, tv_description = ''turn'', tv_transitions = trs,
     tv_publishedProduct = Some ''plan'', tv_publishedProducts = None,
     tv_consumedProducts = Some [''plan''], tv_optionalConsumedProducts = None\<rparr>, tb_waitFor = False,
     tb_branchType = PrimaryPath, tb_context = FullContext\<rparr>"

definition sample_definition :: process_definition where
  "sample_definition = \<lparr>pd_id = ''review'', pd_entryTurnId = ''draft'', pd_alternateEntryTurnIds = None,
     pd_happyPath = None,
     pd_turns = [(''draft'', sample_binding LlmTurn [edge (Some ''approve'') None (Some ''done'') None]),
       (''approve'', sample_binding HumanTurn [edge (Some ''draft'') None None (Some ''revise''),
          edge None (Some CompletedProcess) None (Some ''accept'')])]\<rparr>"

definition sample_registry :: graph_registry where
  "sample_registry = [(''review'', sample_definition)]"

theorem transition_granted_iff_edge_witness:
  "\<exists>from trig. tryTransition sample_registry ''review'' (Some ''approve'') (Some ''revise'') (Some (Some ''draft''))
     (Some WaitingProcess) = Inr (TransitionOk from (Some ''draft'') trig)"
proof -
  have 1: "map_of sample_registry ''review'' = Some sample_definition" by (simp add: sample_registry_def)
  have 2: "declared (toProcessGraphView sample_definition) ''approve''"
    "declared (toProcessGraphView sample_definition) ''draft''" by code_simp+
  have 3: "usable_edge (toProcessGraphView sample_definition) ''approve'' (Some ''revise'')
      (edge (Some ''draft'') None None (Some ''revise''))" by code_simp
  have 4: "tr_nextTurnId (edge (Some ''draft'') None None (Some ''revise'')) = Some ''draft''"
    by (simp add: edge_def)
  show ?thesis
    using transition_granted_iff_edge [OF 1, of "''approve''" "Some ''revise''" "''draft''" "Some WaitingProcess"]
      2 3 4 by blast
qed

text \<open>
  Routing by outcome is deterministic and stays inside a validated graph: a route is found only
  when exactly one untriggered edge of the turn fits the outcome, it leads either to a declared turn
  or to a terminal lifecycle status and never to both, no route means no edge fits, and an ambiguous
  outcome is refused by an error instead of being resolved by order.
\<close>

lemma outcome_routes_are_unique_and_declared:
  assumes "map_of registry processId = Some d"
    and "validateProcessGraphTurnTransitions (toProcessGraphView d) = []"
  shows "case findOutcomeTransition registry processId current outcome of
      Inl _ \<Rightarrow> 2 \<le> length (outcome_candidates outcome (turn_edges (toProcessGraphView d) current))
    | Inr None \<Rightarrow> outcome_candidates outcome (turn_edges (toProcessGraphView d) current) = []
    | Inr (Some m) \<Rightarrow> length (outcome_candidates outcome (turn_edges (toProcessGraphView d) current)) = 1 \<and>
        om_fromTurnId m = current \<and> om_outcome m = outcome \<and>
        (om_toTurnId m = None \<and> om_lifecycleStatus m \<in> {Some CompletedProcess, Some AbortedProcess} \<or>
         (\<exists>t. om_toTurnId m = Some t \<and> om_lifecycleStatus m = None \<and> declared (toProcessGraphView d) t))"
proof -
  have wt: "graph_well_targeted (toProcessGraphView d)" using assms(2) transitions_validated_iff by blast
  show ?thesis
    using outcome_match_declared [OF assms(1) wt, of current outcome]
    unfolding outcome_match_cases [OF assms(1)] by (auto split: list.splits sum.splits option.splits)
qed

end
