(* ===== verification/Process_Writes.thy ===== *)
theory Process_Writes
  imports Process_Graph
begin

text \<open>
  The write plans of the process engine (\<^verbatim>\<open>packages/server/src/process-engine/writes/writes.ts\<close> and
  \<^verbatim>\<open>process-effects.ts\<close>): an operation of the engine decides by building a plan, a patch of the
  process row together with the rows, events, broadcasts and worker intent to be committed with it.

  A process instance holds the value of each of its updatable fields. Values are tagged with their
  kind; \<open>field_ok\<close> is the declared type of each field. Objects are compared by \<open>===\<close> by identity;
  every object the callers pass is a fresh literal, so an object is never identical to the stored
  one. Payloads that the plans only carry along are \<open>json\<close>.
\<close>

named_theorems plan_simps \<open>effect of the plan operations on the parts of a plan\<close>

type_synonym json_object = "(string \<times> json) list"

section \<open>Process instances\<close>

datatype pfield = FSelectedTurnId | FLifecycleStatus | FCurrentExecution | FPlanRevision | FTitle
  | FExternalId | FExternalUrl | FMetadata | FDefaultModelProfileId | FInitialDefaultModelProfileId
  | FTurnConfigsJson | FSelectedTurnModelProfileId | FSelectedTurnModelKind | FSelectedTurnModelSource
  | FParamsJson | FStateJson

datatype pvalue = VUndefined | VNull | VStr string | VNum int | VLifecycle lifecycle_status
  | VExecution string | VMeta json_object

fun js_same :: "pvalue \<Rightarrow> pvalue \<Rightarrow> bool" where
  "js_same (VExecution _) _ = False"
| "js_same (VMeta _) _ = False"
| "js_same a b = (a = b)"

record process_instance =
  pi_id :: string
  pi_processId :: string
  pi_fields :: "pfield \<Rightarrow> pvalue"

type_synonym process_patch = "(pfield \<times> pvalue) list"

fun as_string :: "pvalue \<Rightarrow> string option" where
  "as_string (VStr s) = Some s"
| "as_string _ = None"

definition pi_selectedTurnId :: "process_instance \<Rightarrow> string option" where
  "pi_selectedTurnId p = as_string (pi_fields p FSelectedTurnId)"

definition pi_lifecycleStatus :: "process_instance \<Rightarrow> lifecycle_status" where
  "pi_lifecycleStatus p = (case pi_fields p FLifecycleStatus of VLifecycle s \<Rightarrow> s | _ \<Rightarrow> Discovered)"

definition pi_currentExecution :: "process_instance \<Rightarrow> string option" where
  "pi_currentExecution p = (case pi_fields p FCurrentExecution of VExecution i \<Rightarrow> Some i | _ \<Rightarrow> None)"

definition pi_planRevision :: "process_instance \<Rightarrow> int" where
  "pi_planRevision p = (case pi_fields p FPlanRevision of VNum n \<Rightarrow> n | _ \<Rightarrow> 0)"

definition pi_metadata :: "process_instance \<Rightarrow> json_object option" where
  "pi_metadata p = (case pi_fields p FMetadata of VMeta m \<Rightarrow> Some m | _ \<Rightarrow> None)"

definition pi_selectedTurnModelProfileId :: "process_instance \<Rightarrow> string option" where
  "pi_selectedTurnModelProfileId p = as_string (pi_fields p FSelectedTurnModelProfileId)"

definition pi_stateJson :: "process_instance \<Rightarrow> string option" where
  "pi_stateJson p = as_string (pi_fields p FStateJson)"

lemmas pi_defs = pi_selectedTurnId_def pi_lifecycleStatus_def pi_currentExecution_def pi_planRevision_def
  pi_metadata_def pi_selectedTurnModelProfileId_def pi_stateJson_def

text \<open>Values of nullable columns.\<close>

definition nullable :: "string option \<Rightarrow> pvalue" where
  "nullable s = (case s of None \<Rightarrow> VNull | Some x \<Rightarrow> VStr x)"

definition nullable_meta :: "json_object option \<Rightarrow> pvalue" where
  "nullable_meta m = (case m of None \<Rightarrow> VNull | Some x \<Rightarrow> VMeta x)"

text \<open>The declared types of the columns.\<close>

fun field_ok :: "pfield \<Rightarrow> pvalue \<Rightarrow> bool" where
  "field_ok FLifecycleStatus v = (\<exists>s. v = VLifecycle s)"
| "field_ok FCurrentExecution v = (v = VNull \<or> (\<exists>i. v = VExecution i))"
| "field_ok FPlanRevision v = (\<exists>n. v = VNum n)"
| "field_ok FMetadata v = (v = VNull \<or> (\<exists>m. v = VMeta m))"
| "field_ok _ v = (v = VNull \<or> (\<exists>s. v = VStr s))"

text \<open>\<open>{ ...process, ...patch }\<close>, which is also the row after the patch is committed.\<close>

definition with_patch :: "process_instance \<Rightarrow> process_patch \<Rightarrow> process_instance" where
  "with_patch p patch = p\<lparr>pi_fields := \<lambda>f. coalesce (map_of patch f) (pi_fields p f)\<rparr>"

section \<open>Turn starts and plans\<close>

record provenance =
  mp_kind :: string
  mp_source :: string

record resolved_model =
  rm_profileId :: string
  rm_providerId :: string
  rm_modelId :: string
  rm_thinkingLevel :: string

text \<open>A resolved LLM start; the fields that no operation reads are carried in \<open>ls_rest\<close>.\<close>

record llm_start =
  ls_model :: resolved_model
  ls_modelSelectionProvenance :: "provenance option"
  ls_providerOptions :: "(string \<times> string) list"
  ls_piResourceSnapshotDigest :: string
  ls_rest :: json_object

datatype resolved_start = ResolvedLlm llm_start | ResolvedAutomatic

text \<open>
  The counters of automatic recovery are a component of every state of a start; they are kept beside the
  state. Instants are counted in milliseconds.
\<close>

record startup_retry =
  rt_episodeStartRecordId :: string
  rt_starts :: int
  rt_nextRetryAt :: "int option"

datatype start_state =
    PreparationFailed "string option" "(string \<times> string) list" string string "provenance option" "int option"
  | StartingState resolved_start
  | BootstrapFailedState resolved_start "string option" string string
  | AcceptedState resolved_start string string
  | SupersededState "resolved_start option"

datatype start_state_kind = KindPreparationFailed | KindStarting | KindBootstrapFailed | KindAccepted
  | KindSuperseded

datatype start_kind = SelectedTurnStart | RetryStart | ContinueStart | StartupRetryStart

record start_continuation =
  sc_continueFromPiEntryId :: string
  sc_continuePrompt :: string
  sc_savedPrimaryLeafEntryId :: "string option"

record mapped_item_ref =
  mi_runId :: string
  mi_itemKey :: string
  mi_itemIndex :: int

text \<open>The input of a start row; \<open>TurnStartRecord\<close> is such an input with an id.\<close>

record start_input =
  si_id :: string
  si_instanceId :: string
  si_turnId :: string
  si_turnType :: turn_type
  si_proposedTurnRecordId :: string
  si_startKind :: start_kind
  si_recoveryTurnRecordId :: "string option"
  si_continuation :: "start_continuation option"
  si_state :: start_state
  si_iteration :: "mapped_item_ref option"
  si_automaticRetry :: "startup_retry option"

datatype turn_start_write = CreateStart start_input | CasStartState string start_state_kind start_state "startup_retry option"

datatype 'a row_write = CreateRow 'a | UpdateRow string 'a | DeleteRow string

datatype mapped_run_status = RunActive | RunCompleted | RunAborted

text \<open>A frozen item of a mapped turn; its JSON text is the value the text denotes.\<close>

record frozen_item =
  fi_itemIndex :: int
  fi_itemKey :: string
  fi_label :: string
  fi_itemJson :: json

record create_mapped_run =
  cm_id :: string
  cm_instanceId :: string
  cm_turnId :: string
  cm_status :: mapped_run_status
  cm_items :: "frozen_item list"

record complete_mapped_item =
  co_runId :: string
  co_itemIndex :: int
  co_outcome :: string
  co_resultJson :: json
  co_turnRecordId :: string

datatype mapped_run_write = CreateMappedRun create_mapped_run | CompleteMappedItem complete_mapped_item
  | AbortActiveMappedRun

datatype worker_intent = Reconcile | RestartWorker | StartIfNeeded | AbortTurnIntent string
  | StopWithReason string

record actor =
  ac_id :: string
  ac_kind :: string
  ac_provider :: "string option"
  ac_displayName :: "string option"

definition SYSTEM_ACTOR :: actor where
  "SYSTEM_ACTOR = \<lparr>ac_id = ''system'', ac_kind = ''system'', ac_provider = None, ac_displayName = None\<rparr>"

definition json_nullable :: "string option \<Rightarrow> json" where
  "json_nullable s = (case s of None \<Rightarrow> JNull | Some x \<Rightarrow> JStr x)"

definition actor_json :: "actor \<Rightarrow> json" where
  "actor_json a = JObj ([(''id'', JStr (ac_id a)), (''kind'', JStr (ac_kind a)),
     (''provider'', json_nullable (ac_provider a))]
     @ (case ac_displayName a of None \<Rightarrow> [] | Some n \<Rightarrow> [(''displayName'', JStr n)]))"

record process_event =
  pe_instanceId :: string
  pe_eventType :: string
  pe_data :: "json_object option"

record broadcast =
  bc_type :: string
  bc_payload :: json_object
  bc_instanceId :: string

record queued_input =
  qi_source :: string
  qi_kind :: string
  qi_target :: "json_object option"
  qi_bodyMarkdown :: string
  qi_actor :: "actor option"

record writes =
  w_preserveUpdatedAt :: bool
  w_waitForAdmission :: "string option"
  w_processPatch :: process_patch
  w_changedFields :: "pfield list"
  w_projectWrite :: "(string \<times> json) option"
  w_initialProjects :: "json list option"
  w_turnRecordWrites :: "json_object row_write list"
  w_turnStartWrites :: "turn_start_write list"
  w_mappedRunWrites :: "mapped_run_write list"
  w_turnAnnotationWrites :: "json row_write list"
  w_leafOutcomeSnapshotWrites :: "json list"
  w_events :: "process_event list"
  w_broadcasts :: "broadcast list"
  w_queuedInputs :: "queued_input list"
  w_extensionEvents :: "json list"
  w_futureExecutionPlans :: "json list"
  w_pendingExternalSourceFireWrites :: "json row_write list"
  w_workerIntent :: "worker_intent option"

record write_failure =
  wf_code :: string
  wf_msg :: string

text \<open>\<open>WriteBuildResult\<close>: a plan or a failure value; a builder may also throw.\<close>

type_synonym write_result = "write_failure + writes"

section \<open>Operations on plans\<close>

definition no_writes :: writes where
  "no_writes =
     \<lparr>w_preserveUpdatedAt = False, w_waitForAdmission = None, w_processPatch = [], w_changedFields = [],
      w_projectWrite = None, w_initialProjects = None, w_turnRecordWrites = [], w_turnStartWrites = [],
      w_mappedRunWrites = [], w_turnAnnotationWrites = [], w_leafOutcomeSnapshotWrites = [], w_events = [],
      w_broadcasts = [], w_queuedInputs = [], w_extensionEvents = [], w_futureExecutionPlans = [],
      w_pendingExternalSourceFireWrites = [], w_workerIntent = None\<rparr>"

text \<open>\<open>createWrites\<close> on a partial plan, whose missing keys hold the empty value of \<open>no_writes\<close>.\<close>

definition createWrites :: "writes \<Rightarrow> writes" where
  "createWrites init = init\<lparr>w_waitForAdmission :=
     (if truthy (w_waitForAdmission init) then w_waitForAdmission init else None)\<rparr>"

definition merge_patch :: "process_patch \<Rightarrow> process_patch \<Rightarrow> process_patch" where
  "merge_patch target source = fold (\<lambda>(k, v). jsmap_set k v) source target"

definition merge_step :: "writes \<Rightarrow> writes \<Rightarrow> writes throws" where
  "merge_step merged w =
     (if w_projectWrite w \<noteq> None \<and> w_projectWrite merged \<noteq> None
      then Inl ''Cannot merge multiple process-project writes''
      else if w_initialProjects w \<noteq> None \<and> w_initialProjects merged \<noteq> None
      then Inl ''Cannot merge multiple initial repository bindings''
      else Inr (merged
        \<lparr>w_processPatch := merge_patch (w_processPatch merged) (w_processPatch w),
         w_waitForAdmission := (if truthy (w_waitForAdmission w) then w_waitForAdmission w
                                else w_waitForAdmission merged),
         w_changedFields := fold jsset_add (w_changedFields w) (w_changedFields merged),
         w_projectWrite := (if w_projectWrite w \<noteq> None then w_projectWrite w else w_projectWrite merged),
         w_initialProjects := (if w_initialProjects w \<noteq> None then w_initialProjects w
                               else w_initialProjects merged),
         w_turnRecordWrites := w_turnRecordWrites merged @ w_turnRecordWrites w,
         w_turnStartWrites := w_turnStartWrites merged @ w_turnStartWrites w,
         w_mappedRunWrites := w_mappedRunWrites merged @ w_mappedRunWrites w,
         w_turnAnnotationWrites := w_turnAnnotationWrites merged @ w_turnAnnotationWrites w,
         w_leafOutcomeSnapshotWrites := w_leafOutcomeSnapshotWrites merged @ w_leafOutcomeSnapshotWrites w,
         w_events := w_events merged @ w_events w,
         w_broadcasts := w_broadcasts merged @ w_broadcasts w,
         w_queuedInputs := w_queuedInputs merged @ w_queuedInputs w,
         w_extensionEvents := w_extensionEvents merged @ w_extensionEvents w,
         w_futureExecutionPlans := w_futureExecutionPlans merged @ w_futureExecutionPlans w,
         w_pendingExternalSourceFireWrites :=
           w_pendingExternalSourceFireWrites merged @ w_pendingExternalSourceFireWrites w,
         w_workerIntent := (if w_workerIntent w \<noteq> None then w_workerIntent w else w_workerIntent merged)\<rparr>))"

fun merge_from :: "writes \<Rightarrow> writes option list \<Rightarrow> writes throws" where
  "merge_from merged [] = Inr merged"
| "merge_from merged (None # ws) = merge_from merged ws"
| "merge_from merged (Some w # ws) = throws_bind (merge_step merged w) (\<lambda>m. merge_from m ws)"

definition mergeWrites :: "writes option list \<Rightarrow> writes throws" where
  "mergeWrites ws = merge_from (createWrites no_writes) ws"

definition set_field :: "pfield \<Rightarrow> pvalue \<Rightarrow> writes \<Rightarrow> writes" where
  "set_field f v w = w\<lparr>w_processPatch := jsmap_set f v (w_processPatch w),
                      w_changedFields := jsset_add f (w_changedFields w)\<rparr>"

definition applyProcessPatchField :: "writes \<Rightarrow> process_instance \<Rightarrow> pfield \<Rightarrow> pvalue \<Rightarrow> writes" where
  "applyProcessPatchField w p f v = (if js_same (pi_fields p f) v then w else set_field f v w)"

definition applyMetadataPatch :: "writes \<Rightarrow> process_instance \<Rightarrow> json_object option \<Rightarrow> writes" where
  "applyMetadataPatch w p next = (if pi_metadata p = next then w else set_field FMetadata (nullable_meta next) w)"

datatype metadata_group = GroupRetry | GroupContinuation

definition CONTINUE_PROMPT_METADATA_KEY :: string where
  "CONTINUE_PROMPT_METADATA_KEY = ''continuePrompt''"

fun METADATA_KEY_GROUPS :: "metadata_group \<Rightarrow> string list" where
  "METADATA_KEY_GROUPS GroupRetry = [''retryForkPiEntryId'', ''retryFromTurnRecordId'']"
| "METADATA_KEY_GROUPS GroupContinuation = [''continueFromPiEntryId'', ''continueFromTurnRecordId'',
     ''continueSavedPrimaryLeafEntryId'', CONTINUE_PROMPT_METADATA_KEY, FAILED_TURN_RECOVERY_METADATA_KEY]"

definition clear_keys :: "string list \<Rightarrow> json_object \<Rightarrow> json_object" where
  "clear_keys ks m = filter (\<lambda>(k, _). k \<notin> set ks) m"

definition updateProcessMetadata ::
    "writes \<Rightarrow> process_instance \<Rightarrow> metadata_group list \<Rightarrow> (json_object \<Rightarrow> json_object) \<Rightarrow> writes" where
  "updateProcessMetadata w p groups upd =
     (let next = upd (clear_keys (concat (map METADATA_KEY_GROUPS groups)) (coalesce (pi_metadata p) [])) in
      applyMetadataPatch w p (if next \<noteq> [] then Some next else None))"

definition appendProcessEvent ::
    "writes \<Rightarrow> process_instance \<Rightarrow> string \<Rightarrow> string \<Rightarrow> string \<Rightarrow> json_object option \<Rightarrow> writes" where
  "appendProcessEvent w p eventType level message data =
     w\<lparr>w_events := w_events w @ [\<lparr>pe_instanceId = pi_id p, pe_eventType = eventType, pe_data = data\<rparr>],
       w_broadcasts := w_broadcasts w @ [\<lparr>bc_type = ''process.event'',
         bc_payload = [(''eventType'', JStr eventType), (''level'', JStr level), (''message'', JStr message)],
         bc_instanceId = pi_id p\<rparr>]\<rparr>"

definition stamp_event :: "actor \<Rightarrow> string \<Rightarrow> process_event \<Rightarrow> process_event" where
  "stamp_event a eventType e =
     (if pe_eventType e = eventType
      then e\<lparr>pe_data := Some (jsmap_set ''actor'' (actor_json a) (coalesce (pe_data e) []))\<rparr>
      else e)"

definition stampActorOnEvents :: "writes \<Rightarrow> actor option \<Rightarrow> string \<Rightarrow> writes \<times> nat" where
  "stampActorOnEvents w a eventType =
     (w\<lparr>w_events := map (stamp_event (coalesce a SYSTEM_ACTOR) eventType) (w_events w)\<rparr>,
      length (filter (\<lambda>e. pe_eventType e = eventType) (w_events w)))"

definition stampActorOnQueuedInputs :: "writes \<Rightarrow> actor option \<Rightarrow> writes" where
  "stampActorOnQueuedInputs w a =
     (case a of
        None \<Rightarrow> w
      | Some x \<Rightarrow> w\<lparr>w_queuedInputs := map (\<lambda>q. if qi_actor q \<noteq> None then q else q\<lparr>qi_actor := Some x\<rparr>)
          (w_queuedInputs w)\<rparr>)"

record lifecycle_effects =
  le_processPatch :: "process_patch option"
  le_broadcasts :: "(string \<times> json_object) list option"

definition appendProcessEffects :: "writes \<Rightarrow> process_instance \<Rightarrow> lifecycle_effects \<Rightarrow> writes" where
  "appendProcessEffects w p effects =
     (let w' = fold (\<lambda>(f, v) acc. if js_same (pi_fields p f) v then acc else set_field f v acc)
            (coalesce (le_processPatch effects) []) w in
      w'\<lparr>w_broadcasts := w_broadcasts w' @ map (\<lambda>(ty, payload).
           \<lparr>bc_type = ty, bc_payload = payload, bc_instanceId = pi_id p\<rparr>) (coalesce (le_broadcasts effects) [])\<rparr>)"

section \<open>Well-formed plans\<close>

definition wf_plan :: "writes \<Rightarrow> bool" where
  "wf_plan w \<longleftrightarrow> distinct (map fst (w_processPatch w)) \<and> distinct (w_changedFields w) \<and>
     set (w_changedFields w) = fst ` set (w_processPatch w) \<and>
     (\<forall>(f, v) \<in> set (w_processPatch w). field_ok f v)"

text \<open>A plan of the process \<open>inst\<close> only addresses that process.\<close>

definition addressed :: "string \<Rightarrow> writes \<Rightarrow> bool" where
  "addressed inst w \<longleftrightarrow>
     (\<forall>e \<in> set (w_events w). pe_instanceId e = inst) \<and> (\<forall>b \<in> set (w_broadcasts w). bc_instanceId b = inst) \<and>
     (\<forall>si. CreateStart si \<in> set (w_turnStartWrites w) \<longrightarrow> si_instanceId si = inst)"

text \<open>A plan that accepts no start: it creates no record, keeps the records linked to their starts, and moves no start to or from acceptance.\<close>

fun accepted_state :: "start_state \<Rightarrow> bool" where
  "accepted_state (AcceptedState _ _ _) = True"
| "accepted_state _ = False"

fun unaccepting_start :: "turn_start_write \<Rightarrow> bool" where
  "unaccepting_start (CreateStart si) \<longleftrightarrow> \<not> accepted_state (si_state si)"
| "unaccepting_start (CasStartState _ k st _) \<longleftrightarrow> k \<noteq> KindAccepted \<and> \<not> accepted_state st"

definition keeps_link :: "json_object \<Rightarrow> bool" where
  "keeps_link inp \<longleftrightarrow> map_of inp ''turnStartRecordId'' = None \<and> map_of inp ''acceptedWorkerLeaseId'' = None"

fun unaccepting_record :: "json_object row_write \<Rightarrow> bool" where
  "unaccepting_record (UpdateRow _ inp) \<longleftrightarrow> keeps_link inp"
| "unaccepting_record _ \<longleftrightarrow> False"

definition unaccepting :: "writes \<Rightarrow> bool" where
  "unaccepting w \<longleftrightarrow> list_all unaccepting_start (w_turnStartWrites w) \<and> list_all unaccepting_record (w_turnRecordWrites w)"

text \<open>
  The laws by which the builders reason about a plan: an invariant of plans that the primitive
  operations keep is kept by everything built from them.
\<close>

locale plan_invariant =
  fixes P :: "string \<Rightarrow> writes \<Rightarrow> bool"
  assumes inv_empty: "P inst (no_writes\<lparr>w_workerIntent := intent, w_preserveUpdatedAt := keep\<rparr>)"
    and inv_field: "P inst w \<Longrightarrow> field_ok f v \<Longrightarrow> P inst (set_field f v w)"
    and inv_event: "P (pi_id p) w \<Longrightarrow> P (pi_id p) (appendProcessEvent w p ty level msg data)"
    and inv_stamp: "P inst w \<Longrightarrow> P inst (fst (stampActorOnEvents w who ty))"
    and inv_data: "P inst w \<Longrightarrow> (\<And>e. pe_instanceId (g e) = pe_instanceId e) \<Longrightarrow>
      P inst (w\<lparr>w_events := map g (w_events w)\<rparr>)"
    and inv_merge: "P inst a \<Longrightarrow> P inst b \<Longrightarrow> merge_step a b = Inr c \<Longrightarrow> P inst c"
    and inv_start: "P inst w \<Longrightarrow> si_instanceId si = inst \<Longrightarrow> \<not> accepted_state (si_state si) \<Longrightarrow>
      P inst (w\<lparr>w_turnStartWrites := w_turnStartWrites w @ [CreateStart si]\<rparr>)"
    and inv_cas: "P inst w \<Longrightarrow> k \<noteq> KindAccepted \<Longrightarrow> \<not> accepted_state st \<Longrightarrow>
      P inst (w\<lparr>w_turnStartWrites := w_turnStartWrites w @ [CasStartState i k st ar]\<rparr>)"
    and inv_unstart: "P inst w \<Longrightarrow> P inst (w\<lparr>w_turnStartWrites := take n (w_turnStartWrites w) @ drop m (w_turnStartWrites w)\<rparr>)"
    and inv_record: "P inst w \<Longrightarrow> keeps_link inp \<Longrightarrow>
      P inst (w\<lparr>w_turnRecordWrites := w_turnRecordWrites w @ [UpdateRow i inp]\<rparr>)"
    and inv_rows: "P inst w \<Longrightarrow> P inst (w\<lparr>w_mappedRunWrites := ms\<rparr>)"
      "P inst w \<Longrightarrow> P inst (w\<lparr>w_workerIntent := wi\<rparr>)"
begin

lemma inv_patch_field: "P inst w \<Longrightarrow> field_ok f v \<Longrightarrow> P inst (applyProcessPatchField w p f v)"
  by (simp add: applyProcessPatchField_def inv_field)

lemma inv_metadata: "P inst w \<Longrightarrow> P inst (applyMetadataPatch w p m)"
  by (simp add: applyMetadataPatch_def inv_field nullable_meta_def split: option.splits)

lemma inv_update_metadata: "P inst w \<Longrightarrow> P inst (updateProcessMetadata w p gs upd)"
  by (simp add: updateProcessMetadata_def Let_def inv_metadata)

lemma inv_merge_from:
  "P inst m \<Longrightarrow> (\<And>w. Some w \<in> set ws \<Longrightarrow> P inst w) \<Longrightarrow> merge_from m ws = Inr r \<Longrightarrow> P inst r"
proof (induction m ws rule: merge_from.induct)
  case (3 m w ws)
  then show ?case by (auto intro: inv_merge)
qed simp_all

lemma inv_mergeWrites: "(\<And>w. Some w \<in> set ws \<Longrightarrow> P inst w) \<Longrightarrow> mergeWrites ws = Inr r \<Longrightarrow> P inst r"
  using inv_merge_from [of inst no_writes ws r] inv_empty [of inst False None]
  by (simp add: mergeWrites_def createWrites_def no_writes_def)

end

lemma set_field_simps [plan_simps]:
  "w_events (set_field f v w) = w_events w" "w_broadcasts (set_field f v w) = w_broadcasts w"
  "w_turnStartWrites (set_field f v w) = w_turnStartWrites w"
  "w_turnRecordWrites (set_field f v w) = w_turnRecordWrites w"
  "w_mappedRunWrites (set_field f v w) = w_mappedRunWrites w"
  "w_workerIntent (set_field f v w) = w_workerIntent w"
  "w_waitForAdmission (set_field f v w) = w_waitForAdmission w"
  "w_processPatch (set_field f v w) = jsmap_set f v (w_processPatch w)"
  "w_changedFields (set_field f v w) = jsset_add f (w_changedFields w)"
  by (simp_all add: set_field_def)

lemma patch_field_simps [plan_simps]:
  "w_events (applyProcessPatchField w p f v) = w_events w"
  "w_broadcasts (applyProcessPatchField w p f v) = w_broadcasts w"
  "w_turnStartWrites (applyProcessPatchField w p f v) = w_turnStartWrites w"
  "w_turnRecordWrites (applyProcessPatchField w p f v) = w_turnRecordWrites w"
  "w_mappedRunWrites (applyProcessPatchField w p f v) = w_mappedRunWrites w"
  "w_workerIntent (applyProcessPatchField w p f v) = w_workerIntent w"
  by (simp_all add: applyProcessPatchField_def plan_simps)

lemma metadata_simps [plan_simps]:
  "w_events (applyMetadataPatch w p m) = w_events w"
  "w_broadcasts (applyMetadataPatch w p m) = w_broadcasts w"
  "w_turnStartWrites (applyMetadataPatch w p m) = w_turnStartWrites w"
  "w_turnRecordWrites (applyMetadataPatch w p m) = w_turnRecordWrites w"
  "w_mappedRunWrites (applyMetadataPatch w p m) = w_mappedRunWrites w"
  "w_workerIntent (applyMetadataPatch w p m) = w_workerIntent w"
  by (simp_all add: applyMetadataPatch_def plan_simps)

lemma update_metadata_simps [plan_simps]:
  "w_events (updateProcessMetadata w p gs upd) = w_events w"
  "w_broadcasts (updateProcessMetadata w p gs upd) = w_broadcasts w"
  "w_turnStartWrites (updateProcessMetadata w p gs upd) = w_turnStartWrites w"
  "w_turnRecordWrites (updateProcessMetadata w p gs upd) = w_turnRecordWrites w"
  "w_mappedRunWrites (updateProcessMetadata w p gs upd) = w_mappedRunWrites w"
  "w_workerIntent (updateProcessMetadata w p gs upd) = w_workerIntent w"
  by (simp_all add: updateProcessMetadata_def Let_def plan_simps)

lemma event_simps [plan_simps]:
  "w_processPatch (appendProcessEvent w p ty lv m d) = w_processPatch w"
  "w_changedFields (appendProcessEvent w p ty lv m d) = w_changedFields w"
  "w_turnStartWrites (appendProcessEvent w p ty lv m d) = w_turnStartWrites w"
  "w_turnRecordWrites (appendProcessEvent w p ty lv m d) = w_turnRecordWrites w"
  "w_mappedRunWrites (appendProcessEvent w p ty lv m d) = w_mappedRunWrites w"
  "w_workerIntent (appendProcessEvent w p ty lv m d) = w_workerIntent w"
  by (simp_all add: appendProcessEvent_def)

lemma fold_jsmap_set_id_keys: "fst ` set (fold (\<lambda>(k, v). jsmap_set k v) kvs m) = fst ` set m \<union> fst ` set kvs"
  using fold_jsmap_set_keys [of "\<lambda>v. v"] by simp

lemma fold_jsmap_set_distinct:
  "distinct (map fst m) \<Longrightarrow> distinct (map fst (fold (\<lambda>(k, v). jsmap_set k v) kvs m))"
proof (induction kvs arbitrary: m)
  case (Cons kv kvs)
  then show ?case by (cases kv) simp
qed simp

lemma fold_jsmap_set_subset:
  "set (fold (\<lambda>(k, v). jsmap_set k v) kvs m) \<subseteq> set m \<union> set kvs"
proof (induction kvs arbitrary: m)
  case (Cons kv kvs)
  obtain k v where [simp]: "kv = (k, v)" by (cases kv)
  show ?case using Cons.IH [of "jsmap_set k v m"] set_jsmap_set [of k v m] by auto
qed simp

lemma map_of_fold_jsmap_set:
  "distinct (map fst kvs) \<Longrightarrow> map_of (fold (\<lambda>(k, v). jsmap_set k v) kvs m) = map_of m ++ map_of kvs"
proof (induction kvs arbitrary: m)
  case (Cons kv kvs)
  obtain k v where [simp]: "kv = (k, v)" by (cases kv)
  have "k \<notin> dom (map_of kvs)" using Cons.prems by (auto simp: dom_map_of_conv_image_fst)
  with Cons show ?case by (auto simp: fun_eq_iff map_add_def split: option.splits)
qed simp

lemma wf_plan_set_field: "wf_plan w \<Longrightarrow> field_ok f v \<Longrightarrow> wf_plan (set_field f v w)"
  using set_jsmap_set [of f v "w_processPatch w"]
  by (fastforce simp: wf_plan_def plan_simps)

lemma wf_plan_merge_step:
  assumes "wf_plan a" "wf_plan b" "merge_step a b = Inr c"
  shows "wf_plan c"
proof -
  have c: "w_processPatch c = merge_patch (w_processPatch a) (w_processPatch b)"
    "w_changedFields c = fold jsset_add (w_changedFields b) (w_changedFields a)"
    using assms(3) by (auto simp: merge_step_def split: if_splits)
  have sub: "set (w_processPatch c) \<subseteq> set (w_processPatch a) \<union> set (w_processPatch b)"
    unfolding c merge_patch_def by (rule fold_jsmap_set_subset)
  have keys: "distinct (map fst (w_processPatch c))"
      "fst ` set (w_processPatch c) = fst ` set (w_processPatch a) \<union> fst ` set (w_processPatch b)"
    using assms(1) unfolding c merge_patch_def wf_plan_def
    by (simp_all only: fold_jsmap_set_distinct fold_jsmap_set_id_keys)
  have changed: "distinct (w_changedFields c)"
      "set (w_changedFields c) = set (w_changedFields a) \<union> set (w_changedFields b)"
    using assms(1) by (simp_all add: c wf_plan_def)
  have "\<forall>(f, v) \<in> set (w_processPatch c). field_ok f v"
    using sub assms(1,2) unfolding wf_plan_def by blast
  moreover have "set (w_changedFields c) = fst ` set (w_processPatch c)"
    using assms(1,2) unfolding changed keys wf_plan_def by simp
  ultimately show ?thesis using keys(1) changed(1) by (simp add: wf_plan_def)
qed

interpretation typed: plan_invariant "\<lambda>_. wf_plan"
proof
  show "wf_plan c" if "wf_plan a" "wf_plan b" "merge_step a b = Inr c" for a b c
    using that by (rule wf_plan_merge_step)
qed (simp_all add: wf_plan_set_field, simp_all add: wf_plan_def no_writes_def appendProcessEvent_def stampActorOnEvents_def)

lemma addressed_merge_step:
  assumes "addressed inst a" "addressed inst b" "merge_step a b = Inr c"
  shows "addressed inst c"
proof -
  have "w_events c = w_events a @ w_events b" "w_broadcasts c = w_broadcasts a @ w_broadcasts b"
    "w_turnStartWrites c = w_turnStartWrites a @ w_turnStartWrites b"
    using assms(3) by (auto simp: merge_step_def split: if_splits)
  with assms(1,2) show ?thesis by (auto simp: addressed_def)
qed

interpretation own: plan_invariant addressed
proof
  show "addressed inst c" if "addressed inst a" "addressed inst b" "merge_step a b = Inr c" for inst a b c
    using that by (rule addressed_merge_step)
qed (auto simp: addressed_def no_writes_def appendProcessEvent_def stampActorOnEvents_def stamp_event_def plan_simps
      dest: in_set_takeD in_set_dropD)

interpretation silent_starts: plan_invariant "\<lambda>_. unaccepting"
proof
  show "unaccepting c" if "unaccepting a" "unaccepting b" "merge_step a b = Inr c" for a b c
    using that by (auto simp: unaccepting_def merge_step_def split: if_splits)
qed (auto simp: unaccepting_def no_writes_def appendProcessEvent_def stampActorOnEvents_def list_all_iff plan_simps
      dest: in_set_takeD in_set_dropD)

section \<open>Merging plans\<close>

lemma with_patch_merge:
  assumes "distinct (map fst b)"
  shows "with_patch p (merge_patch a b) = with_patch (with_patch p a) b"
proof -
  have "coalesce ((map_of a ++ map_of b) f) x = coalesce (map_of b f) (coalesce (map_of a f) x)" for f and x :: pvalue
    by (cases "map_of b f") (auto simp: map_add_def)
  then show ?thesis unfolding with_patch_def merge_patch_def map_of_fold_jsmap_set [OF assms] by simp
qed

definition writes_project :: "writes \<Rightarrow> bool" where
  "writes_project w \<longleftrightarrow> w_projectWrite w \<noteq> None"

definition binds_projects :: "writes \<Rightarrow> bool" where
  "binds_projects w \<longleftrightarrow> w_initialProjects w \<noteq> None"

lemma merge_step_parts:
  assumes "merge_step a b = Inr c"
  shows "w_processPatch c = merge_patch (w_processPatch a) (w_processPatch b)"
    "w_events c = w_events a @ w_events b" "w_turnStartWrites c = w_turnStartWrites a @ w_turnStartWrites b"
    "w_turnRecordWrites c = w_turnRecordWrites a @ w_turnRecordWrites b"
    "w_workerIntent c = (if w_workerIntent b \<noteq> None then w_workerIntent b else w_workerIntent a)"
    "writes_project c \<longleftrightarrow> writes_project a \<or> writes_project b"
    "binds_projects c \<longleftrightarrow> binds_projects a \<or> binds_projects b"
  using assms by (auto simp: merge_step_def writes_project_def binds_projects_def split: if_splits)

lemma merge_step_ok:
  "(\<exists>c. merge_step a b = Inr c) \<longleftrightarrow> \<not> (writes_project a \<and> writes_project b) \<and> \<not> (binds_projects a \<and> binds_projects b)"
  by (auto simp: merge_step_def writes_project_def binds_projects_def)

definition last_intent :: "worker_intent option \<Rightarrow> writes list \<Rightarrow> worker_intent option" where
  "last_intent i ws = fold (\<lambda>w acc. if w_workerIntent w \<noteq> None then w_workerIntent w else acc) ws i"

definition apply_plans :: "writes list \<Rightarrow> process_instance \<Rightarrow> process_instance" where
  "apply_plans ws p = fold (\<lambda>w q. with_patch q (w_processPatch w)) ws p"

lemma merge_from_sequential:
  assumes "merge_from m (map Some ws) = Inr r" "\<forall>w \<in> set ws. distinct (map fst (w_processPatch w))"
  shows "with_patch p (w_processPatch r) = apply_plans ws (with_patch p (w_processPatch m)) \<and>
    w_events r = w_events m @ concat (map w_events ws) \<and>
    w_turnStartWrites r = w_turnStartWrites m @ concat (map w_turnStartWrites ws) \<and>
    w_turnRecordWrites r = w_turnRecordWrites m @ concat (map w_turnRecordWrites ws) \<and>
    w_workerIntent r = last_intent (w_workerIntent m) ws"
  using assms
proof (induction ws arbitrary: m)
  case Nil
  then show ?case by (simp add: apply_plans_def last_intent_def)
next
  case (Cons w ws)
  then obtain c where c: "merge_step m w = Inr c" "merge_from c (map Some ws) = Inr r" by auto
  with Cons show ?case
    using merge_step_parts [OF c(1)] by (auto simp: with_patch_merge apply_plans_def last_intent_def)
qed

definition at_most_one :: "('a \<Rightarrow> bool) \<Rightarrow> 'a list \<Rightarrow> bool" where
  "at_most_one Q xs \<longleftrightarrow> length (filter Q xs) \<le> 1"

lemma merge_from_defined:
  "(\<exists>r. merge_from m (map Some ws) = Inr r) \<longleftrightarrow>
     at_most_one writes_project (m # ws) \<and> at_most_one binds_projects (m # ws)"
proof (induction ws arbitrary: m)
  case Nil
  then show ?case by (simp add: at_most_one_def)
next
  case (Cons w ws)
  show ?case
  proof (cases "merge_step m w")
    case (Inl e)
    then have "\<not> (\<exists>c. merge_step m w = Inr c)" by simp
    then have "(writes_project m \<and> writes_project w) \<or> (binds_projects m \<and> binds_projects w)"
      unfolding merge_step_ok by blast
    with Inl show ?thesis by (auto simp: at_most_one_def)
  next
    case (Inr c)
    then have "\<exists>c. merge_step m w = Inr c" by simp
    then have "\<not> (writes_project m \<and> writes_project w)" "\<not> (binds_projects m \<and> binds_projects w)"
      unfolding merge_step_ok by blast+
    then have "at_most_one writes_project (c # ws) = at_most_one writes_project (m # w # ws)"
      "at_most_one binds_projects (c # ws) = at_most_one binds_projects (m # w # ws)"
      using merge_step_parts(6,7) [OF Inr] by (auto simp: at_most_one_def)
    with Inr Cons.IH [of c] show ?thesis by simp
  qed
qed

section \<open>Properties\<close>


definition sample_process :: process_instance where
  "sample_process = \<lparr>pi_id = ''p1'', pi_processId = ''review'', pi_fields = (\<lambda>f. case f of
     FLifecycleStatus \<Rightarrow> VLifecycle Discovered | FPlanRevision \<Rightarrow> VNum 0 | _ \<Rightarrow> VNull)\<rparr>"

definition sample_plan :: writes where
  "sample_plan = applyProcessPatchField (createWrites (no_writes\<lparr>w_workerIntent := Some Reconcile\<rparr>))
     sample_process FSelectedTurnId (VStr ''draft'')"

lemma sample_plan_wf: "wf_plan sample_plan" "wf_plan no_writes"
  by (auto simp: sample_plan_def wf_plan_def applyProcessPatchField_def set_field_def createWrites_def
      no_writes_def jsset_add_def sample_process_def)


end
