(* ===== verification/Turn_Selection.thy ===== *)
theory Turn_Selection
  imports Process_Writes
begin

text \<open>
  Selecting the next turn of a process: the plan builders of
  \<^verbatim>\<open>packages/server/src/process-engine/writes\<close> that move a process in its graph
  (\<^verbatim>\<open>build-turn-selection-writes.ts\<close>, \<^verbatim>\<open>reserve-selected-turn-start.ts\<close>, \<^verbatim>\<open>build-server-transition-writes.ts\<close>,
  \<^verbatim>\<open>build-process-abort-writes.ts\<close>), the waiting state that holds a start back
  (\<^verbatim>\<open>turn-wait-state.ts\<close>), whether a turn needs a worker (\<^verbatim>\<open>turn-worker-requirement.ts\<close>) and what a
  change of selection does to the worker (\<^verbatim>\<open>worker-reconciliation.ts\<close>).

  Generated identifiers and the clock are arguments. The outer \<open>Inl\<close> is a thrown error, the inner one
  a failure value (\<open>WriteBuildFailure\<close>).
\<close>

section \<open>Waiting turns\<close>

definition wait_key :: string where
  "wait_key = ''turnWait''"

definition is_json_string :: "json option \<Rightarrow> bool" where
  "is_json_string v = (case v of Some (JStr _) \<Rightarrow> True | _ \<Rightarrow> False)"

definition is_json_number :: "json option \<Rightarrow> bool" where
  "is_json_number v = (case v of Some (JNum _) \<Rightarrow> True | _ \<Rightarrow> False)"

definition valid_wait :: "json_object \<Rightarrow> bool" where
  "valid_wait v \<longleftrightarrow>
     is_json_string (map_of v ''id'') \<and> is_json_string (map_of v ''turnId'') \<and>
     is_json_number (map_of v ''revision'') \<and> is_json_number (map_of v ''nextCheckAt'') \<and>
     (\<exists>s \<in> set_option (map_of v ''start''). json_truthy s \<and>
        json_get (asUnknownRecord (Some s)) ''turnId'' = map_of v ''turnId'') \<and>
     (map_of v ''status'' = Some (JStr ''waiting'') \<or> map_of v ''status'' = Some (JStr ''error''))"

definition pendingTurnWait :: "json_object option \<Rightarrow> json_object option throws" where
  "pendingTurnWait metadata =
     (case json_get metadata wait_key of
        None \<Rightarrow> Inr None
      | Some value \<Rightarrow>
          if \<not> json_truthy value then Inr None
          else (case value of
              JObj v \<Rightarrow> if valid_wait v then Inr (Some v) else Inl ''Invalid persisted turn waiting state''
            | _ \<Rightarrow> Inl ''Invalid persisted turn waiting state''))"

definition turn_binding_of :: "graph_registry \<Rightarrow> string \<Rightarrow> string \<Rightarrow> turn_binding option" where
  "turn_binding_of graphs processId turnId =
     Option.bind (map_of graphs processId) (\<lambda>d. map_of (pd_turns d) turnId)"

definition turnWaitPredicate :: "graph_registry \<Rightarrow> process_instance \<Rightarrow> bool" where
  "turnWaitPredicate graphs p =
     (if \<not> truthy (pi_selectedTurnId p) then False
      else case turn_binding_of graphs (pi_processId p) (the (pi_selectedTurnId p)) of
        Some b \<Rightarrow> tv_turnType (tb_view b) \<in> {LlmTurn, AutomaticTurn} \<and> tb_waitFor b
      | None \<Rightarrow> False)"

definition writeTurnWait :: "writes \<Rightarrow> process_instance \<Rightarrow> json_object option \<Rightarrow> writes" where
  "writeTurnWait w p wait =
     (let base = coalesce (pi_metadata (with_patch p (w_processPatch w))) [];
          next = (case wait of
             Some v \<Rightarrow> jsmap_set wait_key (JObj v) base
           | None \<Rightarrow> clear_keys [wait_key] base) in
      applyMetadataPatch w p (if next \<noteq> [] then Some next else None))"

section \<open>The stored form of a start\<close>

fun turn_type_name :: "turn_type \<Rightarrow> string" where
  "turn_type_name LlmTurn = ''llm''"
| "turn_type_name HumanTurn = ''human''"
| "turn_type_name ExternalTurn = ''external''"
| "turn_type_name AutomaticTurn = ''automatic''"

fun start_kind_name :: "start_kind \<Rightarrow> string" where
  "start_kind_name SelectedTurnStart = ''selected_turn''"
| "start_kind_name RetryStart = ''retry''"
| "start_kind_name ContinueStart = ''continue''"
| "start_kind_name StartupRetryStart = ''startup_retry''"

definition string_map_json :: "(string \<times> string) list \<Rightarrow> json" where
  "string_map_json m = JObj (map (\<lambda>(k, v). (k, JStr v)) m)"

definition provenance_field :: "provenance option \<Rightarrow> json_object" where
  "provenance_field prov = (case prov of None \<Rightarrow> []
     | Some x \<Rightarrow> [(''modelSelectionProvenance'',
         JObj [(''kind'', JStr (mp_kind x)), (''source'', JStr (mp_source x))])])"

fun resolved_json :: "resolved_start \<Rightarrow> json" where
  "resolved_json (ResolvedLlm s) =
     JObj ([(''kind'', JStr ''llm''),
       (''model'', JObj [(''profileId'', JStr (rm_profileId (ls_model s))),
          (''providerId'', JStr (rm_providerId (ls_model s))), (''modelId'', JStr (rm_modelId (ls_model s))),
          (''thinkingLevel'', JStr (rm_thinkingLevel (ls_model s)))])]
     @ provenance_field (ls_modelSelectionProvenance s)
     @ [(''providerOptions'', string_map_json (ls_providerOptions s)),
        (''piResourceSnapshotDigest'', JStr (ls_piResourceSnapshotDigest s))] @ ls_rest s)"
| "resolved_json ResolvedAutomatic = JObj [(''kind'', JStr ''automatic'')]"

fun state_json :: "start_state \<Rightarrow> json" where
  "state_json (PreparationFailed model opts code summary prov revision) =
     JObj ([(''kind'', JStr ''preparation_failed''), (''requestedModelProfileId'', json_nullable model),
            (''providerOptions'', string_map_json opts), (''code'', JStr code), (''safeSummary'', JStr summary)]
       @ provenance_field prov
       @ (case revision of None \<Rightarrow> [] | Some n \<Rightarrow> [(''availabilityRevision'', JNum n)]))"
| "state_json (StartingState r) = JObj [(''kind'', JStr ''starting''), (''start'', resolved_json r)]"
| "state_json (BootstrapFailedState r lease code summary) =
     JObj [(''kind'', JStr ''bootstrap_failed''), (''start'', resolved_json r),
           (''failedWorkerLeaseId'', json_nullable lease), (''code'', JStr code), (''safeSummary'', JStr summary)]"
| "state_json (AcceptedState r turn lease) =
     JObj [(''kind'', JStr ''accepted''), (''start'', resolved_json r), (''turnRecordId'', JStr turn),
           (''acceptedWorkerLeaseId'', JStr lease)]"
| "state_json (SupersededState r) =
     JObj [(''kind'', JStr ''superseded''), (''start'', case r of None \<Rightarrow> JNull | Some x \<Rightarrow> resolved_json x)]"

text \<open>The counters of automatic recovery in the state; their deadline is written as its instant.\<close>

fun with_retry :: "startup_retry option \<Rightarrow> json \<Rightarrow> json" where
  "with_retry (Some r) (JObj fs) = JObj (fs @ [(''automaticRetry'',
     JObj [(''episodeStartRecordId'', JStr (rt_episodeStartRecordId r)), (''starts'', JNum (rt_starts r)),
           (''nextRetryAt'', case rt_nextRetryAt r of None \<Rightarrow> JNull | Some t \<Rightarrow> JNum t)])])"
| "with_retry _ j = j"

definition start_json :: "start_input \<Rightarrow> json" where
  "start_json si =
     JObj ([(''id'', JStr (si_id si)), (''instanceId'', JStr (si_instanceId si)),
       (''turnId'', JStr (si_turnId si)), (''turnType'', JStr (turn_type_name (si_turnType si))),
       (''proposedTurnRecordId'', JStr (si_proposedTurnRecordId si)),
       (''startKind'', JStr (start_kind_name (si_startKind si))),
       (''recoveryTurnRecordId'', json_nullable (si_recoveryTurnRecordId si)),
       (''continuation'', case si_continuation si of None \<Rightarrow> JNull
          | Some c \<Rightarrow> JObj [(''continueFromPiEntryId'', JStr (sc_continueFromPiEntryId c)),
              (''continuePrompt'', JStr (sc_continuePrompt c)),
              (''savedPrimaryLeafEntryId'', json_nullable (sc_savedPrimaryLeafEntryId c))]),
       (''state'', with_retry (si_automaticRetry si) (state_json (si_state si)))]
     @ (case si_iteration si of None \<Rightarrow> []
        | Some m \<Rightarrow> [(''iteration'', JObj [(''runId'', JStr (mi_runId m)), (''itemKey'', JStr (mi_itemKey m)),
            (''itemIndex'', JNum (mi_itemIndex m))])]))"

section \<open>Holding starts back\<close>

fun creates_for :: "string option \<Rightarrow> turn_start_write \<Rightarrow> bool" where
  "creates_for t (CreateStart si) \<longleftrightarrow> t = Some (si_turnId si)"
| "creates_for t (CasStartState _ _ _ _) \<longleftrightarrow> False"

text \<open>The first start for the selected turn, with its position.\<close>

fun find_start :: "string option \<Rightarrow> turn_start_write list \<Rightarrow> (nat \<times> start_input) option" where
  "find_start t [] = None"
| "find_start t (CreateStart si # ws) =
     (if t = Some (si_turnId si) then Some (0, si)
      else map_option (\<lambda>(i, x). (Suc i, x)) (find_start t ws))"
| "find_start t (CasStartState _ _ _ _ # ws) = map_option (\<lambda>(i, x). (Suc i, x)) (find_start t ws)"

definition new_wait :: "string \<Rightarrow> process_instance \<Rightarrow> start_input \<Rightarrow> json option \<Rightarrow> json_object" where
  "new_wait waitId p si metadata =
     [(''id'', JStr waitId), (''turnId'', JStr (si_turnId si)), (''revision'', JNum 0),
      (''status'', JStr ''waiting''), (''nextCheckAt'', JNum 0), (''failures'', JNum 0),
      (''message'', JNull), (''start'', start_json si),
      (''initialSelection'', JBool (pi_selectedTurnId p = None \<and> pi_lifecycleStatus p = Discovered
         \<and> pi_planRevision p = 0))]
     @ (case metadata of None \<Rightarrow> [] | Some m \<Rightarrow> [(''metadata'', m)])"

definition wait_applies :: "json_object \<Rightarrow> start_input \<Rightarrow> bool" where
  "wait_applies previous si \<longleftrightarrow> map_of previous ''turnId'' = Some (JStr (si_turnId si)) \<and>
     si_startKind si = SelectedTurnStart \<and> map_of previous ''status'' = Some (JStr ''waiting'')"

text \<open>\<open>writes.waitForAdmission === previous?.id && previous?.turnId === start.input.turnId\<close>\<close>

definition admitted_start :: "writes \<Rightarrow> json_object option \<Rightarrow> start_input \<Rightarrow> bool" where
  "admitted_start w previous si \<longleftrightarrow>
     (case previous of
        None \<Rightarrow> False
      | Some v \<Rightarrow> map_of v ''id'' = map_option JStr (w_waitForAdmission w) \<and>
                 map_of v ''turnId'' = Some (JStr (si_turnId si)))"

definition clear_stale_wait :: "process_instance \<Rightarrow> process_instance \<Rightarrow> writes \<Rightarrow> writes throws" where
  "clear_stale_wait p next w =
     throws_bind (pendingTurnWait (pi_metadata next)) (\<lambda>current. Inr (
       case current of
         Some v \<Rightarrow>
           if map_of v ''turnId'' \<noteq> map_option JStr (pi_selectedTurnId next)
              \<or> pi_lifecycleStatus next = CompletedProcess \<or> pi_lifecycleStatus next = AbortedProcess
           then writeTurnWait w p None else w
       | None \<Rightarrow> w))"

definition hold_start :: "string \<Rightarrow> process_instance \<Rightarrow> writes \<Rightarrow> json option \<Rightarrow> json_object option \<Rightarrow>
    nat \<Rightarrow> start_input \<Rightarrow> writes" where
  "hold_start waitId p w metadata previous i si =
     (let w1 = w\<lparr>w_turnStartWrites := take i (w_turnStartWrites w) @ drop (Suc i) (w_turnStartWrites w)\<rparr>;
          wait = (case previous of
              Some v \<Rightarrow> if wait_applies v si then v else new_wait waitId p si metadata
            | None \<Rightarrow> new_wait waitId p si metadata);
          w2 = writeTurnWait w1 p (Some wait) in
      (set_field FLifecycleStatus (VLifecycle WaitingProcess) (set_field FCurrentExecution VNull w2))
        \<lparr>w_workerIntent := Some Reconcile\<rparr>)"

definition deferTurnWaitStarts ::
    "string \<Rightarrow> graph_registry \<Rightarrow> process_instance \<Rightarrow> writes \<Rightarrow> json option \<Rightarrow> writes throws" where
  "deferTurnWaitStarts waitId graphs p w metadata =
     (let next = with_patch p (w_processPatch w) in
      throws_bind (pendingTurnWait (pi_metadata p)) (\<lambda>previous.
        case (turnWaitPredicate graphs next, find_start (pi_selectedTurnId next) (w_turnStartWrites w)) of
          (True, Some (i, si)) \<Rightarrow>
            if admitted_start w previous si then Inr w
            else if si_iteration si \<noteq> None \<and> si_startKind si = SelectedTurnStart then Inr w
            else Inr (hold_start waitId p w metadata previous i si)
        | _ \<Rightarrow> clear_stale_wait p next w))"

section \<open>Worker requirement and reconciliation\<close>

definition selectedTurnRequiresWorker ::
    "graph_registry \<Rightarrow> string option \<Rightarrow> string option \<Rightarrow> lifecycle_status \<Rightarrow> json_object option \<Rightarrow> bool throws" where
  "selectedTurnRequiresWorker graphs processId selectedTurnId status metadata =
     (if \<not> truthy selectedTurnId \<or> status \<noteq> ActiveProcess then Inr False
      else throws_bind (pendingTurnWait metadata) (\<lambda>wait.
        if wait \<noteq> None then Inr False
        else Inr (case (if truthy processId then turn_binding_of graphs (the processId) (the selectedTurnId) else None) of
            Some b \<Rightarrow> isWorkerOwnedTurnType (tv_turnType (tb_view b))
          | None \<Rightarrow> True)))"

datatype supervisor_call = StopWorker string | SpawnWorker

record selection_change =
  ch_fromTurnId :: "string option"
  ch_toTurnId :: "string option"
  ch_fromLifecycleStatus :: lifecycle_status
  ch_toLifecycleStatus :: lifecycle_status

text \<open>The supervisor calls, in order, and whether a worker was started.\<close>

definition reconcileWorkerForProcessTurnSelection ::
    "bool \<Rightarrow> bool \<Rightarrow> string \<Rightarrow> graph_registry \<Rightarrow> selection_change \<Rightarrow> (supervisor_call list \<times> bool) throws" where
  "reconcileWorkerForProcessTurnSelection supervised hasWorker processId graphs ch =
     (if \<not> supervised then Inr ([], False)
      else if ch_fromTurnId ch = ch_toTurnId ch \<and> ch_fromLifecycleStatus ch = ch_toLifecycleStatus ch
      then Inr ([], False)
      else
        let reason = ''turn_changed:'' @ coalesce (ch_toTurnId ch) (lifecycle_status_name (ch_toLifecycleStatus ch));
            stop = (if hasWorker then [StopWorker reason] else []) in
        throws_bind (selectedTurnRequiresWorker graphs (Some processId) (ch_toTurnId ch)
            (ch_toLifecycleStatus ch) None) (\<lambda>needed.
          if \<not> needed then Inr (stop, False) else Inr (stop @ [SpawnWorker], True)))"

section \<open>Selecting a turn\<close>

definition reserveSelectedTurnStart ::
    "string \<Rightarrow> string \<Rightarrow> writes \<Rightarrow> process_instance \<Rightarrow> string \<Rightarrow> turn_type \<Rightarrow> mapped_item_ref option \<Rightarrow> writes" where
  "reserveSelectedTurnStart startId recordId w p turnId turnType iteration =
     (let w1 = w\<lparr>w_turnStartWrites := w_turnStartWrites w @ [CreateStart
            \<lparr>si_id = startId, si_instanceId = pi_id p, si_turnId = turnId, si_turnType = turnType,
             si_proposedTurnRecordId = recordId, si_startKind = SelectedTurnStart,
             si_recoveryTurnRecordId = None, si_continuation = None,
             si_state = (if turnType = AutomaticTurn then StartingState ResolvedAutomatic
               else PreparationFailed (pi_selectedTurnModelProfileId p) [] ''model_required''
                      ''LLM start requires model preflight'' None None),
             si_iteration = iteration, si_automaticRetry = None\<rparr>]\<rparr>;
          w2 = applyProcessPatchField w1 p FCurrentExecution (VExecution startId) in
      if turnType = LlmTurn then applyProcessPatchField w2 p FLifecycleStatus (VLifecycle ErrorProcess) else w2)"

record selection_input =
  sel_fromTurnId :: "string option option"
  sel_toTurnId :: "string option"
  sel_trigger :: "string option"
  sel_lifecycleStatus :: "lifecycle_status option"
  sel_workerIntent :: "worker_intent option"

definition shown :: "string option \<Rightarrow> string" where
  "shown s = quoted (coalesce s ''null'')"

definition deriveLifecycleStatusForSelectedTurn ::
    "graph_registry \<Rightarrow> string \<Rightarrow> string \<Rightarrow> lifecycle_status throws" where
  "deriveLifecycleStatusForSelectedTurn graphs processId turnId =
     throws_bind (getProcessTurnGraph graphs processId turnId) (\<lambda>t. Inr (
       case t of Some v \<Rightarrow> lifecycleStatusForSelectedTurnType (tv_turnType v) | None \<Rightarrow> ActiveProcess))"

definition target_status :: "graph_registry \<Rightarrow> process_instance \<Rightarrow> selection_input \<Rightarrow> lifecycle_status throws" where
  "target_status graphs p sel =
     (case sel_lifecycleStatus sel of
        Some s \<Rightarrow> Inr s
      | None \<Rightarrow> (case sel_toTurnId sel of
          None \<Rightarrow> Inr (pi_lifecycleStatus p)
        | Some t \<Rightarrow> deriveLifecycleStatusForSelectedTurn graphs (pi_processId p) t))"

text \<open>The check of the requested move: \<open>None\<close> when it is allowed.\<close>

definition check_move ::
    "graph_registry \<Rightarrow> process_instance \<Rightarrow> selection_input \<Rightarrow> lifecycle_status \<Rightarrow> write_failure option throws" where
  "check_move graphs p sel status =
     (case sel_toTurnId sel of
        None \<Rightarrow> Inr (if status \<notin> {CompletedProcess, AbortedProcess, Discovered}
          then Some \<lparr>wf_code = ''invalid_transition'',
            wf_msg = ''Clearing selectedTurnId requires lifecycleStatus discovered, completed, or aborted''\<rparr>
          else None)
      | Some t \<Rightarrow>
          if sel_toTurnId sel = pi_selectedTurnId p then Inr None
          else throws_bind (tryTransition graphs (pi_processId p) (pi_selectedTurnId p) (sel_trigger sel)
                 (Some (Some t)) (Some (pi_lifecycleStatus p))) (\<lambda>v. Inr (
            case v of
              TransitionOk _ _ _ \<Rightarrow> None
            | TransitionFail code msg _ _ _ \<Rightarrow> Some \<lparr>wf_code =
                (case code of InvalidTransition \<Rightarrow> ''invalid_transition'' | TurnUnreachable \<Rightarrow> ''turn_unreachable''),
                wf_msg = msg\<rparr>)))"

definition selected_data :: "process_instance \<Rightarrow> selection_input \<Rightarrow> lifecycle_status \<Rightarrow> json_object" where
  "selected_data p sel status =
     [(''fromTurnId'', json_nullable (pi_selectedTurnId p)), (''toTurnId'', json_nullable (sel_toTurnId sel)),
      (''fromLifecycleStatus'', JStr (lifecycle_status_name (pi_lifecycleStatus p))),
      (''toLifecycleStatus'', JStr (lifecycle_status_name status))]
     @ (case sel_trigger sel of None \<Rightarrow> [] | Some t \<Rightarrow> [(''trigger'', JStr t)])"

text \<open>Reserving or clearing the execution of the process.\<close>

definition plan_execution ::
    "string \<Rightarrow> string \<Rightarrow> graph_registry \<Rightarrow> process_instance \<Rightarrow> string option \<Rightarrow> lifecycle_status \<Rightarrow> writes \<Rightarrow> writes throws" where
  "plan_execution startId recordId graphs p to status w =
     (if truthy to \<and> status = ActiveProcess then
        throws_bind (getProcessTurnGraph graphs (pi_processId p) (the to)) (\<lambda>target. Inr (
          case map_option tv_turnType target of
            Some LlmTurn \<Rightarrow> reserveSelectedTurnStart startId recordId w p (the to) LlmTurn None
          | Some AutomaticTurn \<Rightarrow> reserveSelectedTurnStart startId recordId w p (the to) AutomaticTurn None
          | _ \<Rightarrow> w))
      else if to = None \<or> status \<in> {WaitingProcess, CompletedProcess, AbortedProcess}
      then Inr (applyProcessPatchField w p FCurrentExecution VNull)
      else Inr w)"

definition selection_base :: "process_instance \<Rightarrow> selection_input \<Rightarrow> lifecycle_status \<Rightarrow> writes" where
  "selection_base p sel status =
     (let w0 = createWrites (no_writes\<lparr>w_workerIntent := Some (coalesce (sel_workerIntent sel) Reconcile)\<rparr>);
          w1 = applyProcessPatchField w0 p FSelectedTurnId (nullable (sel_toTurnId sel)) in
      applyProcessPatchField w1 p FLifecycleStatus (VLifecycle status))"

definition selection_plan ::
    "string \<Rightarrow> string \<Rightarrow> graph_registry \<Rightarrow> process_instance \<Rightarrow> selection_input \<Rightarrow> lifecycle_status \<Rightarrow> writes throws" where
  "selection_plan startId recordId graphs p sel status =
     (throws_bind (plan_execution startId recordId graphs p (sel_toTurnId sel) status (selection_base p sel status))
       (\<lambda>w3. Inr (
        if pi_selectedTurnId p \<noteq> sel_toTurnId sel
        then appendProcessEvent w3 p ''turn_selected'' ''info''
               (case sel_toTurnId sel of
                  None \<Rightarrow> ''Lifecycle moved to '' @ lifecycle_status_name status
                | Some t \<Rightarrow> ''Selected turn '' @ t)
               (Some (selected_data p sel status))
        else w3)))"

definition buildTurnSelectionWrites ::
    "string \<Rightarrow> string \<Rightarrow> graph_registry \<Rightarrow> process_instance \<Rightarrow> selection_input \<Rightarrow> write_result throws" where
  "buildTurnSelectionWrites startId recordId graphs p sel =
     (if (\<exists>from \<in> set_option (sel_fromTurnId sel). from \<noteq> pi_selectedTurnId p)
      then Inr (Inl \<lparr>wf_code = ''stale_turn'',
             wf_msg = ''Process selectedTurnId is '' @ shown (pi_selectedTurnId p) @ '', not ''
               @ shown (the (sel_fromTurnId sel))\<rparr>)
      else throws_bind (target_status graphs p sel) (\<lambda>status.
        throws_bind (if sel_workerIntent sel = Some RestartWorker
            then selectedTurnRequiresWorker graphs (Some (pi_processId p)) (sel_toTurnId sel) status None
            else Inr True) (\<lambda>workerOk.
        if \<not> workerOk then Inr (Inl \<lparr>wf_code = ''invalid_transition'',
             wf_msg = ''restart_worker requires a target selected turn that uses a worker''\<rparr>)
        else throws_bind (check_move graphs p sel status) (\<lambda>bad.
          case bad of
            Some failure \<Rightarrow> Inr (Inl failure)
          | None \<Rightarrow> throws_bind (selection_plan startId recordId graphs p sel status) (\<lambda>w. Inr (Inr w))))))"

section \<open>Aborting a process\<close>

record turn_record =
  rec_id :: string
  rec_turnId :: string
  rec_turnType :: turn_type
  rec_status :: string
  rec_attemptNumber :: int
  rec_pathType :: path_type
  rec_forkPiEntryId :: "string option"
  rec_resultPiEntryId :: "string option"
  rec_modelProfileId :: "string option"
  rec_provenance :: "provenance option"
  rec_iteration :: "mapped_item_ref option"
  rec_errorSummary :: "string option"
  rec_errorClass :: "worker_error_class option"

definition supersedeExecution ::
    "writes \<Rightarrow> turn_record option \<Rightarrow> start_input option \<Rightarrow> string \<Rightarrow> writes" where
  "supersedeExecution w record start recordedAt =
     (let w1 = w\<lparr>w_mappedRunWrites := w_mappedRunWrites w @ [AbortActiveMappedRun]\<rparr>;
          w2 = (case start of
              Some si \<Rightarrow> (case si_state si of
                StartingState r \<Rightarrow> w1\<lparr>w_turnStartWrites := w_turnStartWrites w1
                    @ [CasStartState (si_id si) KindStarting (SupersededState (Some r)) None]\<rparr>
              | _ \<Rightarrow> w1)
            | None \<Rightarrow> w1) in
      case record of
        Some r \<Rightarrow> if rec_status r = ''running''
          then w2\<lparr>w_turnRecordWrites := w_turnRecordWrites w2 @ [UpdateRow (rec_id r)
                 [(''status'', JStr ''superseded''), (''endedAt'', JStr recordedAt)]]\<rparr>
          else w2
      | None \<Rightarrow> w2)"

definition buildAbortProcessWrites ::
    "string \<Rightarrow> string \<Rightarrow> graph_registry \<Rightarrow> process_instance \<Rightarrow> turn_record option \<Rightarrow> start_input option \<Rightarrow> string \<Rightarrow>
     write_result throws" where
  "buildAbortProcessWrites startId recordId graphs p activeTurnRecord currentWorkerStart recordedAt =
     throws_bind (buildTurnSelectionWrites startId recordId graphs p
       \<lparr>sel_fromTurnId = Some (pi_selectedTurnId p), sel_toTurnId = None, sel_trigger = Some ''abort'',
        sel_lifecycleStatus = Some AbortedProcess, sel_workerIntent = None\<rparr>) (\<lambda>r. Inr (
     case r of
       Inl failure \<Rightarrow> Inl failure
     | Inr w0 \<Rightarrow>
         let w1 = supersedeExecution w0 activeTurnRecord currentWorkerStart recordedAt in
         Inr (if pi_selectedTurnId p = None
              then appendProcessEvent w1 p ''process_aborted'' ''info'' ''Process aborted''
                (Some [(''fromTurnId'', json_nullable (pi_selectedTurnId p)), (''toTurnId'', JNull),
                  (''fromLifecycleStatus'', JStr (lifecycle_status_name (pi_lifecycleStatus p))),
                  (''toLifecycleStatus'', JStr ''aborted''), (''trigger'', JStr ''abort'')])
              else w1)))"

section \<open>Transitions requested by the server side of a process\<close>

datatype runtime_effect = RuntimeReconcile | RuntimeRestartWorker | RuntimeNone

record transition_request =
  rq_stateJson :: "string option"
  rq_turnId :: "string option option"
  rq_trigger :: "string option"
  rq_lifecycleStatus :: "lifecycle_status option"
  rq_runtime :: runtime_effect

fun runtime_intent :: "runtime_effect \<Rightarrow> worker_intent option" where
  "runtime_intent RuntimeReconcile = Some Reconcile"
| "runtime_intent RuntimeRestartWorker = Some RestartWorker"
| "runtime_intent RuntimeNone = None"

definition buildServerTransitionWrites ::
    "string \<Rightarrow> string \<Rightarrow> graph_registry \<Rightarrow> process_instance \<Rightarrow> transition_request \<Rightarrow> write_result throws" where
  "buildServerTransitionWrites startId recordId graphs p rq =
     (let w0 = createWrites no_writes;
          stateWrites = (case rq_stateJson rq of
              Some js \<Rightarrow> applyProcessPatchField w0 p FStateJson (VStr js) | None \<Rightarrow> w0);
          intent = runtime_intent (rq_runtime rq) in
      case rq_turnId rq of
        Some target \<Rightarrow>
          throws_bind (buildTurnSelectionWrites startId recordId graphs p
            \<lparr>sel_fromTurnId = Some (pi_selectedTurnId p), sel_toTurnId = target, sel_trigger = rq_trigger rq,
             sel_lifecycleStatus = rq_lifecycleStatus rq, sel_workerIntent = intent\<rparr>) (\<lambda>r.
          case r of
            Inl failure \<Rightarrow> Inr (Inl failure)
          | Inr w \<Rightarrow> throws_bind (mergeWrites [Some w, Some stateWrites]) (\<lambda>m. Inr (Inr m)))
      | None \<Rightarrow>
          throws_bind (if rq_runtime rq = RuntimeRestartWorker
              then selectedTurnRequiresWorker graphs (Some (pi_processId p)) (pi_selectedTurnId p)
                (coalesce (rq_lifecycleStatus rq) (pi_lifecycleStatus p)) None
              else Inr True) (\<lambda>workerOk.
          if \<not> workerOk then Inr (Inl \<lparr>wf_code = ''invalid_transition'',
               wf_msg = ''restart_worker requires a target selected turn that uses a worker''\<rparr>)
          else
            let w1 = (if intent \<noteq> None then stateWrites\<lparr>w_workerIntent := intent\<rparr> else stateWrites);
                w2 = (case rq_lifecycleStatus rq of
                    Some s \<Rightarrow> applyProcessPatchField w1 p FLifecycleStatus (VLifecycle s) | None \<Rightarrow> w1) in
            Inr (Inr w2)))"

definition transitionStartReferences :: "writes \<Rightarrow> (string \<times> string) option" where
  "transitionStartReferences w =
     (case find (\<lambda>x. case x of CreateStart _ \<Rightarrow> True | CasStartState _ _ _ _ \<Rightarrow> False) (w_turnStartWrites w) of
        Some (CreateStart si) \<Rightarrow> Some (si_id si, si_proposedTurnRecordId si)
      | _ \<Rightarrow> None)"

section \<open>The builders keep plan invariants\<close>

text \<open>Reading back through a builder that passes failures on.\<close>

lemma case_result_simps [plan_simps]:
  "(case r of Inl f \<Rightarrow> Inl (h f) | Inr w \<Rightarrow> g w) = Inr y \<longleftrightarrow> (\<exists>w. r = Inr w \<and> g w = Inr y)"
  "(case r of Inl f \<Rightarrow> Inr (Inl (h f)) | Inr w \<Rightarrow> k w) = Inr (Inr z) \<longleftrightarrow> (\<exists>w. r = Inr w \<and> k w = Inr (Inr z))"
  by (cases r; simp)+

lemma plan_execution_cases [consumes 1, case_names reserved cleared kept]:
  assumes "plan_execution startId recordId graphs p to status w = Inr w'"
  obtains t v where "to = Some t" "t \<noteq> []" "status = ActiveProcess"
      "getProcessTurnGraph graphs (pi_processId p) t = Inr (Some v)" "tv_turnType v \<in> {LlmTurn, AutomaticTurn}"
      "w' = reserveSelectedTurnStart startId recordId w p t (tv_turnType v) None"
    | "to = None \<or> status \<in> {WaitingProcess, CompletedProcess, AbortedProcess}"
      "w' = applyProcessPatchField w p FCurrentExecution VNull"
    | "to \<noteq> None" "status \<notin> {WaitingProcess, CompletedProcess, AbortedProcess}" "w' = w"
proof (cases "truthy to \<and> status = ActiveProcess")
  case True
  then obtain t where t: "to = Some t" "t \<noteq> []" by (cases to) auto
  from assms True obtain target where
      g: "getProcessTurnGraph graphs (pi_processId p) t = Inr target"
      and w': "w' = (case map_option tv_turnType target of
            Some LlmTurn \<Rightarrow> reserveSelectedTurnStart startId recordId w p t LlmTurn None
          | Some AutomaticTurn \<Rightarrow> reserveSelectedTurnStart startId recordId w p t AutomaticTurn None
          | _ \<Rightarrow> w)"
    unfolding plan_execution_def t option.sel by auto
  show thesis
  proof (cases "map_option tv_turnType target \<in> {Some LlmTurn, Some AutomaticTurn}")
    case True
    then obtain v where v: "target = Some v" "tv_turnType v \<in> {LlmTurn, AutomaticTurn}" by auto
    then have "w' = reserveSelectedTurnStart startId recordId w p t (tv_turnType v) None" using w' by auto
    with v g \<open>truthy to \<and> status = ActiveProcess\<close> show thesis by (intro that(1) [OF t]) auto
  next
    case False
    then have "w' = w" using w' by (auto split: option.splits turn_type.splits)
    with t True show thesis by (intro that(3)) auto
  qed
next
  case False
  with assms show thesis
    using that(2,3) by (auto simp: plan_execution_def split: if_splits)
qed

context plan_invariant
begin

lemma inv_write_wait: "P inst w \<Longrightarrow> P inst (writeTurnWait w p wait)"
  by (simp add: writeTurnWait_def Let_def inv_metadata)

lemma inv_hold_start: "P inst w \<Longrightarrow> P inst (hold_start waitId p w metadata previous i si)"
  unfolding hold_start_def Let_def by (intro inv_rows inv_field inv_write_wait inv_unstart) simp_all

lemma inv_deferTurnWaitStarts:
  assumes "P inst w" "deferTurnWaitStarts waitId graphs p w metadata = Inr w'"
  shows "P inst w'"
  using assms
  by (auto simp: deferTurnWaitStarts_def clear_stale_wait_def Let_def inv_hold_start inv_write_wait
      split: option.splits prod.splits bool.splits if_splits)

lemma inv_reserve:
  "P (pi_id p) w \<Longrightarrow> P (pi_id p) (reserveSelectedTurnStart startId recordId w p turnId turnType it)"
  by (simp add: reserveSelectedTurnStart_def Let_def inv_patch_field inv_start)

lemma inv_plan_execution:
  "P (pi_id p) w \<Longrightarrow> plan_execution startId recordId graphs p to status w = Inr w' \<Longrightarrow> P (pi_id p) w'"
  by (erule plan_execution_cases) (simp_all add: inv_reserve inv_patch_field)

lemma inv_selection_base: "P inst (selection_base p sel status)"
  using inv_empty [of inst False "Some (coalesce (sel_workerIntent sel) Reconcile)"]
  by (auto simp: selection_base_def Let_def createWrites_def no_writes_def nullable_def
      intro!: inv_patch_field split: option.splits)

lemma inv_selection_plan:
  assumes "selection_plan startId recordId graphs p sel status = Inr w"
  shows "P (pi_id p) w"
proof -
  obtain w3 where w3: "plan_execution startId recordId graphs p (sel_toTurnId sel) status
        (selection_base p sel status) = Inr w3"
      and w: "w = w3 \<or> (\<exists>m. w = appendProcessEvent w3 p ''turn_selected'' ''info'' m (Some (selected_data p sel status)))"
    using assms by (auto simp: selection_plan_def split: if_splits)
  have "P (pi_id p) w3" using inv_plan_execution [OF inv_selection_base w3] .
  with w show ?thesis by (auto intro: inv_event)
qed

lemma inv_buildTurnSelectionWrites:
  "buildTurnSelectionWrites startId recordId graphs p sel = Inr (Inr w) \<Longrightarrow> P (pi_id p) w"
  by (auto simp: buildTurnSelectionWrites_def intro: inv_selection_plan split: if_splits option.splits)

lemma inv_supersede:
  assumes "P inst w"
  shows "P inst (supersedeExecution w r st at)"
proof -
  define w1 where "w1 = w\<lparr>w_mappedRunWrites := w_mappedRunWrites w @ [AbortActiveMappedRun]\<rparr>"
  define w2 where "w2 = (case st of
      Some si \<Rightarrow> (case si_state si of
        StartingState x \<Rightarrow> w1\<lparr>w_turnStartWrites := w_turnStartWrites w1
            @ [CasStartState (si_id si) KindStarting (SupersededState (Some x)) None]\<rparr>
      | _ \<Rightarrow> w1) | None \<Rightarrow> w1)"
  have "P inst w1" using assms by (simp add: w1_def inv_rows)
  then have "P inst w2" by (auto simp: w2_def intro: inv_cas split: option.splits start_state.splits)
  moreover have "keeps_link [(''status'', JStr ''superseded''), (''endedAt'', JStr at)]" by (simp add: keeps_link_def)
  moreover have "supersedeExecution w r st at = (case r of
      Some x \<Rightarrow> if rec_status x = ''running''
        then w2\<lparr>w_turnRecordWrites := w_turnRecordWrites w2 @ [UpdateRow (rec_id x)
          [(''status'', JStr ''superseded''), (''endedAt'', JStr at)]]\<rparr> else w2
    | None \<Rightarrow> w2)"
    by (simp only: supersedeExecution_def Let_def w2_def w1_def)
  ultimately show ?thesis by (simp add: inv_record split: option.split)
qed

lemma inv_buildAbortProcessWrites:
  assumes "buildAbortProcessWrites startId recordId graphs p r st at = Inr (Inr w)"
  shows "P (pi_id p) w"
  using assms
  by (auto simp: buildAbortProcessWrites_def Let_def case_result_simps
      intro!: inv_event inv_supersede intro: inv_buildTurnSelectionWrites split: sum.split_asm if_splits)

lemma inv_buildServerTransitionWrites:
  assumes "buildServerTransitionWrites startId recordId graphs p rq = Inr (Inr w)"
  shows "P (pi_id p) w"
proof -
  have 0: "P (pi_id p) (createWrites no_writes)"
    using inv_empty [of "pi_id p" False None] by (simp add: createWrites_def no_writes_def)
  define sw where "sw = (case rq_stateJson rq of
      Some js \<Rightarrow> applyProcessPatchField (createWrites no_writes) p FStateJson (VStr js) | None \<Rightarrow> createWrites no_writes)"
  have 1: "P (pi_id p) sw" using 0 by (auto simp: sw_def inv_patch_field split: option.splits)
  show ?thesis
  proof (cases "rq_turnId rq")
    case None
    with assms 1 show ?thesis
      unfolding buildServerTransitionWrites_def Let_def sw_def [symmetric]
      by (auto intro!: inv_rows inv_patch_field split: option.splits if_splits)
  next
    case (Some target)
    with assms obtain w' where "buildTurnSelectionWrites startId recordId graphs p
        \<lparr>sel_fromTurnId = Some (pi_selectedTurnId p), sel_toTurnId = target, sel_trigger = rq_trigger rq,
         sel_lifecycleStatus = rq_lifecycleStatus rq, sel_workerIntent = runtime_intent (rq_runtime rq)\<rparr> = Inr (Inr w')"
      and m: "mergeWrites [Some w', Some sw] = Inr w"
      unfolding buildServerTransitionWrites_def Let_def sw_def [symmetric] by (auto simp: case_result_simps)
    then have "P (pi_id p) w'" by (blast intro: inv_buildTurnSelectionWrites)
    with 1 show ?thesis by (intro inv_mergeWrites [OF _ m]) auto
  qed
qed

end

end
