(* ===== verification/Process_Position.thy ===== *)
theory Process_Position
  imports Turn_Selection
begin

text \<open>
  Where a process stands: the selected turn, the lifecycle status and the current execution, through
  every sequence of turn selections and aborts of the engine, each followed by the wait check of
  \<^verbatim>\<open>deferTurnWaitStarts\<close> that every start-producing path of the engine passes before it commits.
\<close>

section \<open>The row after a plan\<close>

definition patched :: "writes \<Rightarrow> process_instance \<Rightarrow> pfield \<Rightarrow> pvalue" where
  "patched w p f = coalesce (map_of (w_processPatch w) f) (pi_fields p f)"

definition committed :: "process_instance \<Rightarrow> writes \<Rightarrow> process_instance" where
  "committed p w = with_patch p (w_processPatch w)"

lemma committed_simps [simp]:
  "pi_fields (committed p w) f = patched w p f" "pi_id (committed p w) = pi_id p"
  "pi_processId (committed p w) = pi_processId p"
  by (simp_all add: committed_def with_patch_def patched_def)

lemma js_same_eq: "js_same a b \<Longrightarrow> a = b"
  by (cases "(a, b)" rule: js_same.cases) auto

lemma patched_set_field [plan_simps]: "patched (set_field f v w) p g = (if g = f then v else patched w p g)"
  by (simp add: patched_def plan_simps)

lemma patched_apply [plan_simps]:
  "patched (applyProcessPatchField w p f v) p g =
     (if g = f \<and> \<not> js_same (pi_fields p f) v then v else patched w p g)"
  by (simp add: applyProcessPatchField_def plan_simps)

lemma patched_apply_first:
  "patched w p f = pi_fields p f \<Longrightarrow> patched (applyProcessPatchField w p f v) p f = v"
  using js_same_eq by (auto simp: plan_simps)

lemma patched_metadata [plan_simps]: "g \<noteq> FMetadata \<Longrightarrow> patched (applyMetadataPatch w p m) p g = patched w p g"
  by (simp add: applyMetadataPatch_def plan_simps)

lemma patched_rows [plan_simps]:
  "patched (w\<lparr>w_turnStartWrites := a\<rparr>) p g = patched w p g" "patched (w\<lparr>w_turnRecordWrites := b\<rparr>) p g = patched w p g"
  "patched (w\<lparr>w_mappedRunWrites := c\<rparr>) p g = patched w p g" "patched (w\<lparr>w_workerIntent := d\<rparr>) p g = patched w p g"
  "patched (appendProcessEvent w q ty lv m x) p g = patched w p g"
  by (simp_all add: patched_def plan_simps)

lemma patched_empty: "patched (createWrites (no_writes\<lparr>w_workerIntent := i\<rparr>)) p g = pi_fields p g"
  by (simp add: patched_def createWrites_def no_writes_def)

lemma patched_write_wait [plan_simps]: "g \<noteq> FMetadata \<Longrightarrow> patched (writeTurnWait w p x) p g = patched w p g"
  by (simp add: writeTurnWait_def Let_def plan_simps)

lemma patched_supersede [plan_simps]: "patched (supersedeExecution w r st at) p g = patched w p g"
  by (simp add: supersedeExecution_def Let_def plan_simps split: option.splits start_state.splits)

lemma patched_selection_base:
  "patched (selection_base p sel status) p g =
     (if g = FSelectedTurnId then nullable (sel_toTurnId sel)
      else if g = FLifecycleStatus then VLifecycle status else pi_fields p g)"
  using js_same_eq by (auto simp: selection_base_def Let_def plan_simps patched_empty)

section \<open>The effect of a selection\<close>

text \<open>The status a granted selection leaves: a reserved LLM start is parked until its model is preflighted.\<close>

definition reserved_status :: "process_instance \<Rightarrow> turn_type \<Rightarrow> lifecycle_status" where
  "reserved_status p ty =
     (if ty = LlmTurn \<and> pi_lifecycleStatus p \<noteq> ErrorProcess then ErrorProcess else ActiveProcess)"

definition typed_position :: "process_instance \<Rightarrow> bool" where
  "typed_position p \<longleftrightarrow> (\<forall>f \<in> {FSelectedTurnId, FLifecycleStatus, FCurrentExecution}. field_ok f (pi_fields p f))"

lemma typed_status: "typed_position p \<Longrightarrow> pi_fields p FLifecycleStatus = VLifecycle (pi_lifecycleStatus p)"
  by (auto simp: typed_position_def pi_lifecycleStatus_def)

lemma selection_cases [consumes 1, case_names plan]:
  assumes "buildTurnSelectionWrites startId recordId graphs p sel = Inr (Inr w)"
  obtains status where "target_status graphs p sel = Inr status" "check_move graphs p sel status = Inr None"
    "selection_plan startId recordId graphs p sel status = Inr w"
  using assms that by (auto simp: buildTurnSelectionWrites_def split: if_splits option.splits)

lemma selection_plan_patched:
  assumes "selection_plan startId recordId graphs p sel status = Inr w"
  obtains w3 where "plan_execution startId recordId graphs p (sel_toTurnId sel) status (selection_base p sel status) = Inr w3"
    "\<And>g. patched w p g = patched w3 p g" "w_turnStartWrites w = w_turnStartWrites w3"
  using assms that by (auto simp: selection_plan_def plan_simps split: if_splits)

text \<open>A plan leaves the selection as requested, and one of three pairs of status and execution.\<close>

lemma selection_effect:
  assumes "selection_plan startId recordId graphs p sel status = Inr w" "typed_position p"
  shows "pi_selectedTurnId (committed p w) = sel_toTurnId sel" (is ?sel)
    and "(\<exists>t v. sel_toTurnId sel = Some t \<and> status = ActiveProcess \<and>
            getProcessTurnGraph graphs (pi_processId p) t = Inr (Some v) \<and> isWorkerOwnedTurnType (tv_turnType v) \<and>
            pi_lifecycleStatus (committed p w) = reserved_status p (tv_turnType v) \<and>
            pi_currentExecution (committed p w) = Some startId) \<or>
         (sel_toTurnId sel = None \<or> status \<in> {WaitingProcess, CompletedProcess, AbortedProcess}) \<and>
            pi_lifecycleStatus (committed p w) = status \<and> pi_currentExecution (committed p w) = None \<or>
         sel_toTurnId sel \<noteq> None \<and> status \<notin> {WaitingProcess, CompletedProcess, AbortedProcess} \<and>
            pi_lifecycleStatus (committed p w) = status" (is ?rest)
    and "typed_position (committed p w)" (is ?typed)
proof -
  obtain w3 where w3: "plan_execution startId recordId graphs p (sel_toTurnId sel) status (selection_base p sel status) = Inr w3"
    and eq: "\<And>g. patched w p g = patched w3 p g" using assms(1) by (rule selection_plan_patched) auto
  have null: "as_string (nullable x) = x" for x by (cases x) (simp_all add: nullable_def)
  have "?sel \<and> ?rest \<and> ?typed"
    using w3
  proof (cases rule: plan_execution_cases)
    case (reserved t v)
    have l: "patched w p FLifecycleStatus = VLifecycle (reserved_status p (tv_turnType v))"
      using reserved(5) typed_status [OF assms(2)]
      by (auto simp: eq reserved(6) reserveSelectedTurnStart_def Let_def plan_simps patched_selection_base
          reserved_status_def reserved(3))
    have e: "patched w p FCurrentExecution = VExecution startId"
      by (auto simp: eq reserved(6) reserveSelectedTurnStart_def Let_def plan_simps patched_selection_base
          dest: js_same_eq)
    have s: "patched w p FSelectedTurnId = nullable (sel_toTurnId sel)"
      by (auto simp: eq reserved(6) reserveSelectedTurnStart_def Let_def plan_simps patched_selection_base)
    show ?thesis using l e s reserved null
      by (auto simp: pi_defs typed_position_def nullable_def isWorkerOwnedTurnType_def)
  next
    case cleared
    have f: "patched w p FLifecycleStatus = VLifecycle status" "patched w p FCurrentExecution = VNull"
      "patched w p FSelectedTurnId = nullable (sel_toTurnId sel)"
      by (auto simp: eq cleared(2) plan_simps patched_selection_base dest: js_same_eq)
    show ?thesis using f null cleared(1) by (auto simp: pi_defs typed_position_def nullable_def split: option.splits)
  next
    case kept
    have f: "patched w p FLifecycleStatus = VLifecycle status"
      "patched w p FCurrentExecution = pi_fields p FCurrentExecution"
      "patched w p FSelectedTurnId = nullable (sel_toTurnId sel)"
      by (simp_all add: eq kept(3) patched_selection_base)
    show ?thesis using f null kept assms(2) by (auto simp: pi_defs typed_position_def nullable_def split: option.splits)
  qed
  then show ?sel ?rest ?typed by blast+
qed

section \<open>The wait check\<close>

lemma find_start_some:
  assumes "find_start t ws = Some (i, si)"
  shows "i < length ws" "ws ! i = CreateStart si" "t = Some (si_turnId si)"
  using assms by (induction t ws arbitrary: i rule: find_start.induct) (auto split: if_splits)

lemma hold_start_patched:
  "patched (hold_start waitId p w md previous i si) p g =
     (if g = FLifecycleStatus then VLifecycle WaitingProcess else if g = FCurrentExecution then VNull
      else patched (writeTurnWait (w\<lparr>w_turnStartWrites := take i (w_turnStartWrites w) @ drop (Suc i) (w_turnStartWrites w)\<rparr>)
        p (Some (case previous of
              Some v \<Rightarrow> if wait_applies v si then v else new_wait waitId p si md
            | None \<Rightarrow> new_wait waitId p si md))) p g)"
  by (simp add: hold_start_def Let_def plan_simps)

lemma defer_found:
  assumes "deferTurnWaitStarts waitId graphs p w md = Inr w'" "pendingTurnWait (pi_metadata p) = Inr previous"
    and "turnWaitPredicate graphs (committed p w)"
    and "find_start (pi_selectedTurnId (committed p w)) (w_turnStartWrites w) = Some (i, si)"
  shows "w' = (if admitted_start w previous si \<or> si_iteration si \<noteq> None \<and> si_startKind si = SelectedTurnStart
    then w else hold_start waitId p w md previous i si)"
proof -
  have "deferTurnWaitStarts waitId graphs p w md =
      (if admitted_start w previous si then Inr w
       else if si_iteration si \<noteq> None \<and> si_startKind si = SelectedTurnStart then Inr w
       else Inr (hold_start waitId p w md previous i si))"
    using assms(2-4) unfolding deferTurnWaitStarts_def Let_def committed_def by simp
  then show ?thesis using assms(1) by (cases "admitted_start w previous si") (auto split: if_splits)
qed

lemma defer_cases [consumes 1]:
  assumes "deferTurnWaitStarts waitId graphs p w md = Inr w'"
  obtains (held) previous i si where "pendingTurnWait (pi_metadata p) = Inr previous"
      "turnWaitPredicate graphs (committed p w)"
      "find_start (pi_selectedTurnId (committed p w)) (w_turnStartWrites w) = Some (i, si)"
      "\<not> admitted_start w previous si" "w' = hold_start waitId p w md previous i si"
    | (kept) "w' = w"
    | (cleared) "w' = writeTurnWait w p None"
proof -
  let ?next = "committed p w"
  let ?found = "find_start (pi_selectedTurnId ?next) (w_turnStartWrites w)"
  obtain previous where previous: "pendingTurnWait (pi_metadata p) = Inr previous"
    using assms by (auto simp: deferTurnWaitStarts_def Let_def)
  have stale: thesis if "clear_stale_wait p ?next w = Inr w'"
  proof -
    from that obtain current where "pendingTurnWait (pi_metadata ?next) = Inr current"
      "w' = w \<or> w' = writeTurnWait w p None"
      by (cases "pendingTurnWait (pi_metadata ?next)") (auto simp: clear_stale_wait_def split: option.splits if_splits)
    then show thesis using kept cleared by blast
  qed
  show thesis
  proof (cases "turnWaitPredicate graphs ?next \<and> ?found \<noteq> None")
    case True
    then obtain i si where f: "?found = Some (i, si)" by auto
    note w' = defer_found [OF assms previous _ f]
    from True f previous held kept w' show thesis by (auto split: if_splits)
  next
    case False
    with assms previous have "clear_stale_wait p ?next w = Inr w'"
      by (auto simp: deferTurnWaitStarts_def Let_def committed_def split: bool.splits option.splits)
    then show thesis by (rule stale)
  qed
qed

text \<open>The check either leaves the position alone or parks the process as waiting on its selected turn.\<close>

lemma defer_position:
  assumes "deferTurnWaitStarts waitId graphs p w md = Inr w'"
  shows "(\<forall>g. g \<noteq> FMetadata \<longrightarrow> patched w' p g = patched w p g) \<or>
    pi_selectedTurnId (committed p w) \<noteq> None \<and> patched w' p FSelectedTurnId = patched w p FSelectedTurnId \<and>
    patched w' p FLifecycleStatus = VLifecycle WaitingProcess \<and> patched w' p FCurrentExecution = VNull"
  using assms
proof (cases rule: defer_cases)
  case (held previous i si)
  have "pi_selectedTurnId (committed p w) \<noteq> None" using find_start_some(3) [OF held(3)] by simp
  then show ?thesis by (simp add: held(5) hold_start_patched plan_simps)
next
  case kept
  then show ?thesis by simp
next
  case cleared
  then show ?thesis by (simp add: plan_simps)
qed

section \<open>Positions\<close>

definition position_ok :: "graph_view \<Rightarrow> process_instance \<Rightarrow> bool" where
  "position_ok g p \<longleftrightarrow> typed_position p \<and>
     (case pi_selectedTurnId p of
        None \<Rightarrow> pi_lifecycleStatus p \<in> {Discovered, CompletedProcess, AbortedProcess} \<and> pi_currentExecution p = None
      | Some t \<Rightarrow> declared g t) \<and>
     (pi_lifecycleStatus p \<in> {WaitingProcess, CompletedProcess, AbortedProcess} \<longrightarrow> pi_currentExecution p = None)"

lemma moved_turn_declared:
  assumes "map_of graphs (pi_processId p) = Some d" "entries_declared (toProcessGraphView d)"
    and "check_move graphs p sel status = Inr None" "sel_toTurnId sel = Some t" "sel_toTurnId sel \<noteq> pi_selectedTurnId p"
  shows "declared (toProcessGraphView d) t"
proof -
  from assms(3-5) obtain v where
    v: "tryTransition graphs (pi_processId p) (pi_selectedTurnId p) (sel_trigger sel) (Some (Some t))
       (Some (pi_lifecycleStatus p)) = Inr v"
    and ok: "(case v of TransitionOk _ _ _ \<Rightarrow> None
            | TransitionFail code msg _ _ _ \<Rightarrow> Some \<lparr>wf_code =
                (case code of InvalidTransition \<Rightarrow> ''invalid_transition'' | TurnUnreachable \<Rightarrow> ''turn_unreachable''),
                wf_msg = msg\<rparr>) = None"
    by (auto simp: check_move_def split: if_splits)
  then obtain src dest trig where
    tr: "tryTransition graphs (pi_processId p) (pi_selectedTurnId p) (sel_trigger sel) (Some (Some t))
       (Some (pi_lifecycleStatus p)) = Inr (TransitionOk src dest trig)"
    by (cases v) auto
  show ?thesis
  proof (cases "pi_selectedTurnId p")
    case None
    with tr assms(2) show ?thesis
      by (auto simp: tryTransition_discovered [OF assms(1)] Let_def entries_declared_def list_all_iff)
  next
    case (Some c)
    with tr show ?thesis by (auto simp: tryTransition_selected [OF assms(1)] Let_def)
  qed
qed

lemma selection_keeps_position:
  assumes "map_of graphs (pi_processId p) = Some d" "entries_declared (toProcessGraphView d)"
    and "position_ok (toProcessGraphView d) p"
    and "buildTurnSelectionWrites startId recordId graphs p sel = Inr (Inr w)"
  shows "position_ok (toProcessGraphView d) (committed p w)"
proof -
  from assms(4) obtain status where st: "check_move graphs p sel status = Inr None"
      "selection_plan startId recordId graphs p sel status = Inr w"
    by (rule selection_cases) auto
  have typed: "typed_position p" using assms(3) by (simp add: position_ok_def)
  note eff = selection_effect [OF st(2) typed]
  have d: "declared (toProcessGraphView d) t" if "sel_toTurnId sel = Some t" for t
    using that assms(3) moved_turn_declared [OF assms(1,2) st(1) that]
    by (cases "sel_toTurnId sel = pi_selectedTurnId p") (auto simp: position_ok_def)
  have none: "status \<in> {CompletedProcess, AbortedProcess, Discovered}" if "sel_toTurnId sel = None"
    using st(1) that by (auto simp: check_move_def split: if_splits)
  show ?thesis
    using eff(2) eff(1,3) d none
    by (cases "sel_toTurnId sel") (auto simp: position_ok_def reserved_status_def split: if_splits)
qed

lemma abort_is_selection:
  assumes "buildAbortProcessWrites startId recordId graphs p r start at = Inr (Inr w)"
  obtains w0 where "buildTurnSelectionWrites startId recordId graphs p
       \<lparr>sel_fromTurnId = Some (pi_selectedTurnId p), sel_toTurnId = None, sel_trigger = Some ''abort'',
        sel_lifecycleStatus = Some AbortedProcess, sel_workerIntent = None\<rparr> = Inr (Inr w0)"
    "\<And>g. patched w p g = patched w0 p g"
  using assms that
  by (auto simp: buildAbortProcessWrites_def Let_def case_result_simps plan_simps split: if_splits)

lemma position_ok_cong:
  assumes "\<And>f. f \<in> {FSelectedTurnId, FLifecycleStatus, FCurrentExecution} \<Longrightarrow> pi_fields p f = pi_fields q f"
  shows "position_ok g p = position_ok g q"
proof -
  have "pi_selectedTurnId p = pi_selectedTurnId q" "pi_lifecycleStatus p = pi_lifecycleStatus q"
    "pi_currentExecution p = pi_currentExecution q" "typed_position p = typed_position q"
    using assms by (simp_all add: typed_position_def pi_defs)
  then show ?thesis unfolding position_ok_def by (simp only:)
qed

text \<open>The life of a process of one definition, as the engine commits its plans.\<close>

inductive process_reachable :: "graph_registry \<Rightarrow> string \<Rightarrow> process_instance \<Rightarrow> bool" for graphs processId where
  created: "pi_processId p = processId \<Longrightarrow> typed_position p \<Longrightarrow> pi_selectedTurnId p = None \<Longrightarrow>
    pi_lifecycleStatus p = Discovered \<Longrightarrow> pi_currentExecution p = None \<Longrightarrow> process_reachable graphs processId p"
| selected: "process_reachable graphs processId p \<Longrightarrow>
    buildTurnSelectionWrites startId recordId graphs p sel = Inr (Inr w) \<Longrightarrow>
    deferTurnWaitStarts waitId graphs p w md = Inr w' \<Longrightarrow> process_reachable graphs processId (committed p w')"
| aborted: "process_reachable graphs processId p \<Longrightarrow>
    buildAbortProcessWrites startId recordId graphs p r start at = Inr (Inr w) \<Longrightarrow>
    deferTurnWaitStarts waitId graphs p w md = Inr w' \<Longrightarrow> process_reachable graphs processId (committed p w')"

lemma defer_keeps_position:
  assumes "deferTurnWaitStarts waitId graphs p w md = Inr w'" "position_ok g (committed p w)"
  shows "position_ok g (committed p w')"
  using defer_position [OF assms(1)]
proof
  assume "\<forall>f. f \<noteq> FMetadata \<longrightarrow> patched w' p f = patched w p f"
  then show ?thesis using assms(2) by (subst position_ok_cong [of _ "committed p w"]) auto
next
  assume *: "pi_selectedTurnId (committed p w) \<noteq> None \<and> patched w' p FSelectedTurnId = patched w p FSelectedTurnId \<and>
    patched w' p FLifecycleStatus = VLifecycle WaitingProcess \<and> patched w' p FCurrentExecution = VNull"
  then have "pi_selectedTurnId (committed p w') = pi_selectedTurnId (committed p w)"
    "pi_lifecycleStatus (committed p w') = WaitingProcess" "pi_currentExecution (committed p w') = None"
    "typed_position (committed p w) \<Longrightarrow> typed_position (committed p w')"
    by (simp_all add: pi_defs typed_position_def)
  with * assms(2) show ?thesis by (auto simp: position_ok_def split: option.splits)
qed

lemma reachable_position:
  assumes "process_reachable graphs processId p"
    and "map_of graphs processId = Some d" "entries_declared (toProcessGraphView d)"
  shows "position_ok (toProcessGraphView d) p \<and> pi_processId p = processId"
  using assms(1)
proof (induction rule: process_reachable.induct)
  case (created p)
  then show ?case by (simp add: position_ok_def)
next
  case (selected p startId recordId sel w waitId md w')
  then have "position_ok (toProcessGraphView d) (committed p w)"
    using assms(2,3) selection_keeps_position by blast
  with selected show ?case using defer_keeps_position by simp
next
  case (aborted p startId recordId r start at w waitId md w')
  from aborted(2) obtain w0 where w0: "buildTurnSelectionWrites startId recordId graphs p
       \<lparr>sel_fromTurnId = Some (pi_selectedTurnId p), sel_toTurnId = None, sel_trigger = Some ''abort'',
        sel_lifecycleStatus = Some AbortedProcess, sel_workerIntent = None\<rparr> = Inr (Inr w0)"
      "\<And>g. patched w p g = patched w0 p g" by (rule abort_is_selection) auto
  then have "position_ok (toProcessGraphView d) (committed p w0)"
    using aborted.IH assms(2,3) selection_keeps_position by blast
  then have "position_ok (toProcessGraphView d) (committed p w)"
    using w0(2) by (subst position_ok_cong [of _ "committed p w0"]) simp_all
  with aborted show ?case using defer_keeps_position by simp
qed

section \<open>Properties\<close>

text \<open>
  C4. Through every sequence of turn selections, waits and aborts, a process stays well placed: its
  selected turn is declared in its graph; without a selected turn it is discovered, completed or
  aborted; and, as the domain model states of \<open>currentExecution\<close>, it owns no execution while it
  waits or once it is completed or aborted.
\<close>

theorem reachable_processes_are_well_placed:
  assumes "process_reachable graphs processId p"
    and "map_of graphs processId = Some d" "entries_declared (toProcessGraphView d)"
  shows "(case pi_selectedTurnId p of
       None \<Rightarrow> pi_lifecycleStatus p \<in> {Discovered, CompletedProcess, AbortedProcess} \<and> pi_currentExecution p = None
     | Some t \<Rightarrow> declared (toProcessGraphView d) t) \<and>
    (pi_lifecycleStatus p \<in> {WaitingProcess, CompletedProcess, AbortedProcess} \<longrightarrow> pi_currentExecution p = None)"
  using reachable_position [OF assms] by (simp add: position_ok_def)


definition sample_selection :: "string \<Rightarrow> selection_input" where
  "sample_selection t = \<lparr>sel_fromTurnId = None, sel_toTurnId = Some t, sel_trigger = None,
     sel_lifecycleStatus = None, sel_workerIntent = None\<rparr>"

definition planned :: "write_result throws \<Rightarrow> writes" where
  "planned r = (case r of Inr (Inr w) \<Rightarrow> w | _ \<Rightarrow> no_writes)"

definition sample_selection_plan :: writes where
  "sample_selection_plan =
     planned (buildTurnSelectionWrites ''s1'' ''r1'' sample_registry sample_process (sample_selection ''draft''))"

lemma sample_facts:
  "map_of sample_registry ''review'' = Some sample_definition"
  "entries_declared (toProcessGraphView sample_definition)"
  "typed_position sample_process"
  "buildTurnSelectionWrites ''s1'' ''r1'' sample_registry sample_process (sample_selection ''draft'') =
     Inr (Inr sample_selection_plan)"
  "deferTurnWaitStarts ''w1'' sample_registry sample_process sample_selection_plan None = Inr sample_selection_plan"
  subgoal by (simp add: sample_registry_def)
  subgoal by code_simp
  subgoal by (simp add: typed_position_def sample_process_def)
  subgoal by code_simp
  subgoal by code_simp
  done

theorem reachable_processes_are_well_placed_witness:
  "\<exists>p. process_reachable sample_registry ''review'' p \<and> pi_selectedTurnId p = Some ''draft'' \<and>
     declared (toProcessGraphView sample_definition) ''draft''"
proof -
  have "process_reachable sample_registry ''review'' sample_process"
    by (rule process_reachable.created) (simp_all add: sample_facts(3), simp_all add: sample_process_def pi_defs)
  then have r: "process_reachable sample_registry ''review'' (committed sample_process sample_selection_plan)"
    using sample_facts(4,5) by (rule process_reachable.selected)
  have "pi_selectedTurnId (committed sample_process sample_selection_plan) = Some ''draft''" by code_simp
  with r reachable_processes_are_well_placed [OF r sample_facts(1,2)] show ?thesis by auto
qed

definition abort_selection :: "process_instance \<Rightarrow> selection_input" where
  "abort_selection p = \<lparr>sel_fromTurnId = Some (pi_selectedTurnId p), sel_toTurnId = None,
     sel_trigger = Some ''abort'', sel_lifecycleStatus = Some AbortedProcess, sel_workerIntent = None\<rparr>"

lemma abort_selection_plan:
  obtains w0 where "buildTurnSelectionWrites startId recordId graphs p (abort_selection p) = Inr (Inr w0)"
    "\<And>g. patched w0 p g = (if g = FSelectedTurnId then VNull else if g = FLifecycleStatus
      then VLifecycle AbortedProcess else if g = FCurrentExecution then VNull else pi_fields p g)"
    "w_turnStartWrites w0 = []" "w_turnRecordWrites w0 = []" "w_mappedRunWrites w0 = []"
    "w_workerIntent w0 = Some Reconcile"
    "map pe_eventType (w_events w0) = (if pi_selectedTurnId p = None then [] else [''turn_selected''])"
proof (rule that)
  let ?base = "selection_base p (abort_selection p) AbortedProcess"
  let ?w3 = "applyProcessPatchField ?base p FCurrentExecution VNull"
  let ?w0 = "if pi_selectedTurnId p = None then ?w3 else
    appendProcessEvent ?w3 p ''turn_selected'' ''info''
      (''Lifecycle moved to '' @ lifecycle_status_name AbortedProcess)
      (Some (selected_data p (abort_selection p) AbortedProcess))"
  show "buildTurnSelectionWrites startId recordId graphs p (abort_selection p) = Inr (Inr ?w0)"
    by (simp add: buildTurnSelectionWrites_def target_status_def check_move_def selection_plan_def
        plan_execution_def abort_selection_def)
  show "patched ?w0 p g = (if g = FSelectedTurnId then VNull else if g = FLifecycleStatus
      then VLifecycle AbortedProcess else if g = FCurrentExecution then VNull else pi_fields p g)" for g
    by (auto simp: plan_simps patched_selection_base abort_selection_def nullable_def dest: js_same_eq)
  have base: "w_turnStartWrites ?base = []" "w_turnRecordWrites ?base = []" "w_mappedRunWrites ?base = []"
    "w_workerIntent ?base = Some Reconcile" "w_events ?base = []"
    by (simp_all add: selection_base_def Let_def plan_simps createWrites_def no_writes_def abort_selection_def)
  show "w_turnStartWrites ?w0 = []" "w_turnRecordWrites ?w0 = []" "w_mappedRunWrites ?w0 = []"
    "w_workerIntent ?w0 = Some Reconcile"
    by (simp_all add: plan_simps base)
  show "map pe_eventType (w_events ?w0) = (if pi_selectedTurnId p = None then [] else [''turn_selected''])"
    by (simp add: plan_simps base appendProcessEvent_def)
qed

lemma supersede_parts:
  "w_turnStartWrites (supersedeExecution w r st at) = w_turnStartWrites w @
     (case map_option (\<lambda>s. (si_id s, si_state s)) st of
        Some (i, StartingState x) \<Rightarrow> [CasStartState i KindStarting (SupersededState (Some x)) None] | _ \<Rightarrow> [])"
  "w_turnRecordWrites (supersedeExecution w r st at) = w_turnRecordWrites w @
     (case r of
        Some x \<Rightarrow> if rec_status x = ''running''
          then [UpdateRow (rec_id x) [(''status'', JStr ''superseded''), (''endedAt'', JStr at)]] else []
      | None \<Rightarrow> [])"
  "w_mappedRunWrites (supersedeExecution w r st at) = w_mappedRunWrites w @ [AbortActiveMappedRun]"
  "w_workerIntent (supersedeExecution w r st at) = w_workerIntent w"
  "w_events (supersedeExecution w r st at) = w_events w"
  by (simp_all add: supersedeExecution_def Let_def split: option.splits start_state.splits)


lemma selection_base_rows:
  "w_turnStartWrites (selection_base p sel status) = []" "w_turnRecordWrites (selection_base p sel status) = []"
  by (simp_all add: selection_base_def Let_def plan_simps createWrites_def no_writes_def)

lemma reserve_starts:
  "w_turnStartWrites (reserveSelectedTurnStart startId recordId w p t ty it) = w_turnStartWrites w @ [CreateStart
     \<lparr>si_id = startId, si_instanceId = pi_id p, si_turnId = t, si_turnType = ty,
      si_proposedTurnRecordId = recordId, si_startKind = SelectedTurnStart,
      si_recoveryTurnRecordId = None, si_continuation = None,
      si_state = (if ty = AutomaticTurn then StartingState ResolvedAutomatic
        else PreparationFailed (pi_selectedTurnModelProfileId p) [] ''model_required''
               ''LLM start requires model preflight'' None None),
      si_iteration = it, si_automaticRetry = None\<rparr>]"
  by (simp add: reserveSelectedTurnStart_def Let_def plan_simps)

text \<open>The start that a selection of turn \<open>t\<close> reserves.\<close>

definition reserves :: "string \<Rightarrow> string \<Rightarrow> process_instance \<Rightarrow> string \<Rightarrow> turn_type \<Rightarrow> start_input \<Rightarrow> bool" where
  "reserves startId recordId p t ty si \<longleftrightarrow>
     si_id si = startId \<and> si_instanceId si = pi_id p \<and> si_turnId si = t \<and> si_turnType si = ty \<and>
     si_proposedTurnRecordId si = recordId \<and> si_startKind si = SelectedTurnStart \<and>
     (si_state si = StartingState ResolvedAutomatic \<longleftrightarrow> ty = AutomaticTurn)"



lemma find_start_removes:
  assumes "find_start t ws = Some (i, si)" "at_most_one (creates_for t) ws"
  shows "\<not> list_ex (creates_for t) (take i ws @ drop (Suc i) ws)"
  using assms
  by (induction t ws arbitrary: i rule: find_start.induct)
    (auto simp: at_most_one_def list_ex_iff filter_empty_conv split: if_splits)

text \<open>
  A selected turn with a wait condition is started only by the admission of its wait: unless the
  plan carries the identifier of the pending wait of this very turn, or the start continues a mapped
  run that was already admitted, the start is taken out of the plan, the process is committed as
  waiting without an execution and with its worker reconciled, and whatever its metadata holds no
  worker is required for it.
\<close>

lemma waiting_turn_starts_only_when_admitted:
  assumes "deferTurnWaitStarts waitId graphs p w md = Inr w'"
    and "turnWaitPredicate graphs (committed p w)"
    and "find_start (pi_selectedTurnId (committed p w)) (w_turnStartWrites w) = Some (i, si)"
    and "at_most_one (creates_for (pi_selectedTurnId (committed p w))) (w_turnStartWrites w)"
  shows "(\<exists>v. pendingTurnWait (pi_metadata p) = Inr (Some v) \<and>
            map_of v ''id'' = map_option JStr (w_waitForAdmission w) \<and>
            map_of v ''turnId'' = Some (JStr (si_turnId si)) \<and> w' = w) \<or>
    si_iteration si \<noteq> None \<and> si_startKind si = SelectedTurnStart \<and> w' = w \<or>
    \<not> list_ex (creates_for (pi_selectedTurnId (committed p w'))) (w_turnStartWrites w') \<and>
    pi_selectedTurnId (committed p w') = pi_selectedTurnId (committed p w) \<and>
    pi_lifecycleStatus (committed p w') = WaitingProcess \<and> pi_currentExecution (committed p w') = None \<and>
    w_workerIntent w' = Some Reconcile \<and>
    selectedTurnRequiresWorker graphs (Some (pi_processId p)) (pi_selectedTurnId (committed p w'))
      (pi_lifecycleStatus (committed p w')) m = Inr False"
proof -
  obtain previous where previous: "pendingTurnWait (pi_metadata p) = Inr previous"
    using assms(1) by (auto simp: deferTurnWaitStarts_def Let_def)
  note w' = defer_found [OF assms(1) previous assms(2,3)]
  show ?thesis
  proof (cases "admitted_start w previous si \<or> si_iteration si \<noteq> None \<and> si_startKind si = SelectedTurnStart")
    case True
    with w' previous show ?thesis by (auto simp: admitted_start_def split: option.splits)
  next
    case False
    have h: "w' = hold_start waitId p w md previous i si" unfolding w' using False by (rule if_not_P)
    have sel: "pi_selectedTurnId (committed p w') = pi_selectedTurnId (committed p w)"
      "pi_lifecycleStatus (committed p w') = WaitingProcess" "pi_currentExecution (committed p w') = None"
      by (simp_all add: pi_defs h hold_start_patched plan_simps)
    have "w_turnStartWrites w' = take i (w_turnStartWrites w) @ drop (Suc i) (w_turnStartWrites w)"
      "w_workerIntent w' = Some Reconcile"
      by (simp_all add: h hold_start_def Let_def writeTurnWait_def plan_simps)
    with sel find_start_removes [OF assms(3,4)] show ?thesis
      by (simp add: selectedTurnRequiresWorker_def)
  qed
qed

definition waiting_registry :: graph_registry where
  "waiting_registry = [(''review'', sample_definition\<lparr>pd_turns :=
     map (\<lambda>(t, b). (t, b\<lparr>tb_waitFor := True\<rparr>)) (pd_turns sample_definition)\<rparr>)]"

end
