(* ===== verification/Failure_Writes.thy ===== *)
theory Failure_Writes
  imports Process_Position State_Json
begin

text \<open>
  Failure and recovery of worker turns: the plan builders of
  \<^verbatim>\<open>packages/server/src/process-engine/writes\<close> that park a process
  (\<^verbatim>\<open>build-process-park-writes.ts\<close>), record a failed turn (\<^verbatim>\<open>build-turn-failed-writes.ts\<close>,
  \<^verbatim>\<open>build-worker-failure-writes.ts\<close>) and start it again, from its fork point or from where it stopped
  (\<^verbatim>\<open>build-recovery-start-writes.ts\<close>, \<^verbatim>\<open>build-retry-writes.ts\<close>, \<^verbatim>\<open>build-continue-failed-turn-writes.ts\<close>).

  Generated identifiers and the clock are arguments; keys whose value is \<open>undefined\<close> are left out of
  event data, as their serialisation leaves them out.
\<close>

section \<open>Parking a process\<close>

record park_payload =
  park_selectedTurnId :: "string option"
  park_reason :: "string option"
  park_errorClass :: "worker_error_class option"

definition optional_key :: "string \<Rightarrow> json option \<Rightarrow> json_object" where
  "optional_key k v = (case v of None \<Rightarrow> [] | Some x \<Rightarrow> [(k, x)])"

definition error_class_json :: "worker_error_class option \<Rightarrow> json option" where
  "error_class_json c = map_option (\<lambda>x. JStr (worker_error_class_name x)) c"

text \<open>An absent and a \<open>null\<close> \<open>selectedTurnId\<close> both skip the staleness check.\<close>

definition buildParkProcessWrites :: "process_instance \<Rightarrow> park_payload \<Rightarrow> bool \<Rightarrow> write_result" where
  "buildParkProcessWrites p payload allowInactiveLifecycle =
     (if park_selectedTurnId payload \<noteq> None \<and> park_selectedTurnId payload \<noteq> pi_selectedTurnId p
      then Inl \<lparr>wf_code = ''stale_turn'',
             wf_msg = ''Process selectedTurnId is '' @ shown (pi_selectedTurnId p) @ '', not ''
               @ shown (park_selectedTurnId payload)\<rparr>
      else if \<not> allowInactiveLifecycle \<and> pi_lifecycleStatus p \<noteq> ActiveProcess
      then Inl \<lparr>wf_code = ''invalid_transition'',
             wf_msg = ''No lifecycle park transition from lifecycleStatus ''
               @ quoted (lifecycle_status_name (pi_lifecycleStatus p))\<rparr>
      else
        let w0 = createWrites (no_writes\<lparr>w_workerIntent := Some (StopWithReason (''lifecycle_parked:''
                   @ coalesce (pi_selectedTurnId p) (lifecycle_status_name (pi_lifecycleStatus p))))\<rparr>);
            w1 = applyProcessPatchField w0 p FLifecycleStatus (VLifecycle ErrorProcess) in
        Inr (appendProcessEvent w1 p ''lifecycle_parked'' ''warn''
          (if truthy (park_reason payload) then ''Lifecycle parked with error: '' @ the (park_reason payload)
           else ''Lifecycle parked with error'')
          (Some ([(''selectedTurnId'', json_nullable (pi_selectedTurnId p))]
             @ optional_key ''reason'' (map_option JStr (park_reason payload))
             @ optional_key ''errorClass'' (error_class_json (park_errorClass payload))))))"

section \<open>Recording a failed turn\<close>

record turn_failed_input =
  tf_turnRecordId :: string
  tf_turnId :: string
  tf_turnType :: turn_type
  tf_resultPiEntryId :: "string option"
  tf_errorSummary :: string
  tf_errorClass :: "worker_error_class option"
  tf_failureCode :: "turn_failure_code option"
  tf_failureDetails :: "json_object option"
  tf_recoveryContext :: "recovery_context option"

definition context_overrides :: "recovery_context \<Rightarrow> recovery_overrides" where
  "context_overrides c = \<lparr>ov_suggestedContinuePrompt = Some (suggestedContinuePrompt c),
     ov_failureCode = Some (failureCode c), ov_missingToolNames = missingToolNames c\<rparr>"

text \<open>\<open>Object.assign\<close>\<close>

definition assign_object :: "json_object \<Rightarrow> json_object \<Rightarrow> json_object" where
  "assign_object target source = fold (\<lambda>(k, v). jsmap_set k v) source target"

definition recovery_update :: "turn_failed_input \<Rightarrow> json_object \<Rightarrow> json_object" where
  "recovery_update payload metadata =
     (case (if tf_turnType payload = LlmTurn \<and> tf_failureCode payload \<noteq> Some BranchDrift
            then tf_recoveryContext payload else None) of
        Some c \<Rightarrow> assign_object metadata (buildFailedTurnRecoveryMetadata (tf_turnRecordId payload) (context_overrides c))
      | None \<Rightarrow> metadata)"

definition failed_turn_fields :: "process_instance \<Rightarrow> turn_failed_input \<Rightarrow> turn_record \<Rightarrow> string \<Rightarrow> json_object" where
  "failed_turn_fields p payload existing endedAt =
     (let modelProfileId = (case rec_modelProfileId existing of
              Some m \<Rightarrow> Some m | None \<Rightarrow> pi_selectedTurnModelProfileId p);
          resultPiEntryId = (if tf_failureCode payload = Some BranchDrift then None else tf_resultPiEntryId payload) in
      [(''turnType'', JStr (turn_type_name (tf_turnType payload))), (''status'', JStr ''failed''),
       (''resultPiEntryId'', json_nullable resultPiEntryId)]
      @ optional_key ''modelProfileId'' (map_option JStr modelProfileId)
      @ [(''errorSummary'', JStr (tf_errorSummary payload))]
      @ optional_key ''errorClass'' (error_class_json (tf_errorClass payload))
      @ [(''endedAt'', JStr endedAt)])"

fun failure_code_name :: "turn_failure_code \<Rightarrow> string" where
  "failure_code_name BranchDrift = ''branch_drift''"

definition buildTurnFailedWrites :: "process_instance \<Rightarrow> turn_failed_input \<Rightarrow> turn_record \<Rightarrow> string \<Rightarrow> writes" where
  "buildTurnFailedWrites p payload existing endedAt =
     (let w0 = createWrites no_writes;
          w1 = w0\<lparr>w_turnRecordWrites := w_turnRecordWrites w0
                 @ [UpdateRow (tf_turnRecordId payload) (failed_turn_fields p payload existing endedAt)]\<rparr>;
          w2 = applyProcessPatchField w1 p FSelectedTurnId (VStr (tf_turnId payload));
          w3 = applyProcessPatchField w2 p FLifecycleStatus (VLifecycle ErrorProcess);
          w4 = updateProcessMetadata w3 p [GroupRetry, GroupContinuation] (recovery_update payload) in
      appendProcessEvent w4 p ''turn_failed'' ''warn'' (''Turn failed: '' @ tf_turnId payload)
        (Some ([(''turnRecordId'', JStr (tf_turnRecordId payload)), (''turnId'', JStr (tf_turnId payload)),
                (''turnType'', JStr (turn_type_name (tf_turnType payload))),
                (''errorSummary'', JStr (tf_errorSummary payload))]
           @ optional_key ''errorClass'' (error_class_json (tf_errorClass payload))
           @ optional_key ''failureCode'' (map_option (\<lambda>c. JStr (failure_code_name c)) (tf_failureCode payload))
           @ optional_key ''failureDetails'' (map_option JObj (tf_failureDetails payload)))))"

section \<open>Recording a failed worker\<close>

record worker_failure_input =
  wfi_message :: string
  wfi_errorCode :: string
  wfi_errorClass :: "worker_error_class option"
  wfi_activeTurnRecord :: "turn_record option"
  wfi_resultPiEntryId :: "string option"
  wfi_recoveryContext :: "recovery_context option"
  wfi_endedAt :: string

definition buildWorkerFailureParkWrites :: "process_instance \<Rightarrow> worker_failure_input \<Rightarrow> writes throws" where
  "buildWorkerFailureParkWrites p inp =
     (case buildParkProcessWrites p \<lparr>park_selectedTurnId = pi_selectedTurnId p,
          park_reason = Some (wfi_message inp), park_errorClass = wfi_errorClass inp\<rparr> True of
        Inr w \<Rightarrow> Inr w
      | Inl f \<Rightarrow> Inl (''Invariant violation: worker failure park unexpectedly failed with '' @ quoted (wf_code f)))"

definition toTurnFailedPayload :: "worker_failure_input \<Rightarrow> turn_failed_input option" where
  "toTurnFailedPayload inp =
     (case wfi_activeTurnRecord inp of
        None \<Rightarrow> None
      | Some r \<Rightarrow>
          if rec_status r \<noteq> ''running'' then None
          else Some \<lparr>tf_turnRecordId = rec_id r, tf_turnId = rec_turnId r, tf_turnType = rec_turnType r,
            tf_resultPiEntryId = (case wfi_resultPiEntryId inp of
               Some e \<Rightarrow> Some e | None \<Rightarrow> rec_resultPiEntryId r),
            tf_errorSummary = wfi_message inp, tf_errorClass = wfi_errorClass inp, tf_failureCode = None,
            tf_failureDetails = None, tf_recoveryContext = wfi_recoveryContext inp\<rparr>)"

definition stamp_error_code :: "string \<Rightarrow> string \<Rightarrow> process_event \<Rightarrow> process_event" where
  "stamp_error_code instanceId errorCode e =
     (if pe_instanceId e \<noteq> instanceId \<or> pe_eventType e \<noteq> ''lifecycle_parked'' then e
      else e\<lparr>pe_data := Some (jsmap_set ''errorCode'' (JStr errorCode) (coalesce (pe_data e) []))\<rparr>)"

definition turn_failure_writes :: "process_instance \<Rightarrow> worker_failure_input \<Rightarrow> writes option" where
  "turn_failure_writes p inp =
     (case (toTurnFailedPayload inp, wfi_activeTurnRecord inp) of
        (Some payload, Some r) \<Rightarrow> Some (buildTurnFailedWrites p payload r (wfi_endedAt inp))
      | _ \<Rightarrow> None)"

definition worker_failed_intent :: "worker_failure_input \<Rightarrow> writes" where
  "worker_failed_intent inp =
     createWrites (no_writes\<lparr>w_workerIntent := Some (StopWithReason (''worker_failed:'' @ wfi_errorCode inp))\<rparr>)"

definition buildWorkerFailureWrites :: "process_instance \<Rightarrow> worker_failure_input \<Rightarrow> writes throws" where
  "buildWorkerFailureWrites p inp =
     throws_bind (buildWorkerFailureParkWrites p inp) (\<lambda>parkWrites.
     throws_bind (mergeWrites [turn_failure_writes p inp, Some parkWrites, Some (worker_failed_intent inp)]) (\<lambda>w.
     Inr (w\<lparr>w_events := map (stamp_error_code (pi_id p) (wfi_errorCode inp)) (w_events w)\<rparr>)))"

section \<open>Starting a failed turn again\<close>

text \<open>The recovery is a retry of the given turn type, or a continuation of an LLM turn.\<close>

datatype recovery = RecoverRetry turn_type | RecoverContinue start_continuation

fun recovery_turnType :: "recovery \<Rightarrow> turn_type" where
  "recovery_turnType (RecoverRetry ty) = ty"
| "recovery_turnType (RecoverContinue _) = LlmTurn"

fun recovery_startKind :: "recovery \<Rightarrow> start_kind" where
  "recovery_startKind (RecoverRetry _) = RetryStart"
| "recovery_startKind (RecoverContinue _) = ContinueStart"

fun recovery_continuation :: "recovery \<Rightarrow> start_continuation option" where
  "recovery_continuation (RecoverRetry _) = None"
| "recovery_continuation (RecoverContinue c) = Some c"

definition legacy_provenance :: provenance where
  "legacy_provenance = \<lparr>mp_kind = ''inherited'', mp_source = ''legacy_persisted''\<rparr>"

definition recovery_start :: "string \<Rightarrow> string \<Rightarrow> process_instance \<Rightarrow> turn_record \<Rightarrow> resolved_start \<Rightarrow> recovery \<Rightarrow> start_input" where
  "recovery_start startId recordId p failedRun start recovery =
     \<lparr>si_id = startId, si_instanceId = pi_id p, si_turnId = rec_turnId failedRun,
      si_turnType = recovery_turnType recovery, si_proposedTurnRecordId = recordId,
      si_startKind = recovery_startKind recovery, si_recoveryTurnRecordId = Some (rec_id failedRun),
      si_continuation = recovery_continuation recovery,
      si_state = (if recovery_turnType recovery = AutomaticTurn then StartingState ResolvedAutomatic
        else PreparationFailed (rec_modelProfileId failedRun)
          (case start of ResolvedLlm s \<Rightarrow> ls_providerOptions s | ResolvedAutomatic \<Rightarrow> []) ''model_required''
          (''Model selection is pending '' @ start_kind_name (recovery_startKind recovery) @ '' preparation'')
          (Some (coalesce (rec_provenance failedRun) legacy_provenance)) None),
      si_iteration = rec_iteration failedRun, si_automaticRetry = None\<rparr>"

definition recovery_plan :: "string \<Rightarrow> string \<Rightarrow> process_instance \<Rightarrow> turn_record \<Rightarrow> resolved_start \<Rightarrow> recovery \<Rightarrow> writes" where
  "recovery_plan startId recordId p failedRun start recovery =
     (let w0 = createWrites (no_writes\<lparr>w_workerIntent := Some RestartWorker\<rparr>);
          prov = coalesce (rec_provenance failedRun) legacy_provenance;
          w1 = w0\<lparr>w_turnStartWrites := w_turnStartWrites w0
                 @ [CreateStart (recovery_start startId recordId p failedRun start recovery)]\<rparr>;
          w2 = applyProcessPatchField w1 p FSelectedTurnId (VStr (rec_turnId failedRun));
          w3 = applyProcessPatchField w2 p FLifecycleStatus (VLifecycle ActiveProcess);
          w4 = applyProcessPatchField w3 p FCurrentExecution (VExecution startId) in
      case rec_modelProfileId failedRun of
        None \<Rightarrow> w4
      | Some m \<Rightarrow>
          let w5 = applyProcessPatchField w4 p FSelectedTurnModelProfileId (VStr m);
              w6 = applyProcessPatchField w5 p FSelectedTurnModelKind (VStr (mp_kind prov)) in
          applyProcessPatchField w6 p FSelectedTurnModelSource (VStr (mp_source prov)))"

definition is_llm_start :: "resolved_start \<Rightarrow> bool" where
  "is_llm_start r = (case r of ResolvedLlm _ \<Rightarrow> True | ResolvedAutomatic \<Rightarrow> False)"

definition buildRecoveryStartWrites ::
    "string \<Rightarrow> string \<Rightarrow> process_instance \<Rightarrow> turn_record \<Rightarrow> start_input \<Rightarrow> recovery \<Rightarrow> writes throws" where
  "buildRecoveryStartWrites startId recordId p failedRun acceptedStart recovery =
     (case si_state acceptedStart of
        AcceptedState start _ _ \<Rightarrow>
          if recovery_startKind recovery = ContinueStart \<and> \<not> is_llm_start start
          then Inl ''Continue requires an accepted LLM start''
          else Inr (recovery_plan startId recordId p failedRun start recovery)
      | _ \<Rightarrow> Inl (if recovery_startKind recovery = RetryStart then ''Retry requires an accepted start''
                 else ''Continue requires an accepted LLM start''))"

definition retry_update :: "turn_record \<Rightarrow> json_object \<Rightarrow> json_object" where
  "retry_update failedRun metadata =
     (if truthy (rec_forkPiEntryId failedRun)
      then jsmap_set ''retryFromTurnRecordId'' (JStr (rec_id failedRun))
             (jsmap_set ''retryForkPiEntryId'' (JStr (the (rec_forkPiEntryId failedRun))) metadata)
      else metadata)"

definition buildRetryWrites ::
    "string \<Rightarrow> string \<Rightarrow> graph_registry \<Rightarrow> process_instance \<Rightarrow> turn_record \<Rightarrow> start_input \<Rightarrow> writes throws" where
  "buildRetryWrites startId recordId graphs p failedRun acceptedStart =
     throws_bind (getProcessTurnGraph graphs (pi_processId p) (rec_turnId failedRun)) (\<lambda>retryTurn.
     case retryTurn of
       None \<Rightarrow> Inl (''Could not derive a retryable selected turn for '' @ quoted (rec_turnId failedRun)
                 @ '' on process '' @ quoted (pi_processId p))
     | Some v \<Rightarrow>
         if tv_turnType v \<noteq> LlmTurn \<and> tv_turnType v \<noteq> AutomaticTurn
         then Inl (''Worker retry cannot target '' @ quoted (turn_type_name (tv_turnType v)) @ '' turn ''
                @ quoted (rec_turnId failedRun))
         else throws_bind (buildRecoveryStartWrites startId recordId p failedRun acceptedStart
                (RecoverRetry (tv_turnType v))) (\<lambda>w0.
           let w1 = updateProcessMetadata w0 p [GroupRetry, GroupContinuation] (retry_update failedRun) in
           Inr (appendProcessEvent w1 p ''retry_scheduled'' ''info''
             (''Retry scheduled for turn '' @ rec_turnId failedRun)
             (Some [(''fromTurnId'', json_nullable (pi_selectedTurnId p)), (''toTurnId'', JStr (rec_turnId failedRun)),
                (''selectedTurnId'', JStr (rec_turnId failedRun)), (''failedTurnRecord'', JStr (rec_id failedRun)),
                (''retryForkPiEntryId'', json_nullable (rec_forkPiEntryId failedRun)),
                (''attemptNumber'', JNum (rec_attemptNumber failedRun))]))))"

definition continue_update :: "turn_record \<Rightarrow> string \<Rightarrow> string \<Rightarrow> string option \<Rightarrow> json_object \<Rightarrow> json_object" where
  "continue_update failedRun entryId prompt leaf metadata =
     (let m = jsmap_set CONTINUE_PROMPT_METADATA_KEY (JStr prompt)
            (jsmap_set ''continueFromPiEntryId'' (JStr entryId)
              (jsmap_set ''continueFromTurnRecordId'' (JStr (rec_id failedRun)) metadata)) in
      if rec_pathType failedRun \<noteq> PrimaryPath \<and> truthy leaf \<and> leaf \<noteq> Some entryId
      then jsmap_set ''continueSavedPrimaryLeafEntryId'' (JStr (the leaf)) m
      else clear_keys [''continueSavedPrimaryLeafEntryId''] m)"

definition continue_prompt :: "process_instance \<Rightarrow> string option \<Rightarrow> recovery_context \<Rightarrow> string" where
  "continue_prompt p prompt c =
     (case trimToNull (map_option JStr prompt) of
        Some s \<Rightarrow> s
      | None \<Rightarrow> coalesce (trimToNull (json_get (pi_metadata p) CONTINUE_PROMPT_METADATA_KEY))
                  (suggestedContinuePrompt c))"

definition failed_turn_recovery :: "process_instance \<Rightarrow> turn_record \<Rightarrow> recovery_context option" where
  "failed_turn_recovery p failedRun =
     (case readFailedTurnRecoveryContext (pi_metadata p) (Some (rec_id failedRun)) of
        Some c \<Rightarrow> Some c
      | None \<Rightarrow> inferTerminalRecordingFailedTurnRecoveryContext (rec_errorSummary failedRun)
                  (map_option worker_error_class_name (rec_errorClass failedRun)))"

definition buildContinueFailedTurnWrites ::
    "(string \<Rightarrow> json throws) \<Rightarrow> string \<Rightarrow> string \<Rightarrow> graph_registry \<Rightarrow> process_instance \<Rightarrow> turn_record \<Rightarrow> start_input \<Rightarrow>
     string \<Rightarrow> string option \<Rightarrow> writes throws" where
  "buildContinueFailedTurnWrites parseJson startId recordId graphs p failedRun acceptedStart continueFromPiEntryId prompt =
     throws_bind (isTurnAvailableForProcessGraph graphs (pi_processId p) (rec_turnId failedRun)) (\<lambda>available.
     if \<not> available
     then Inl (''Could not derive a continuable selected turn for '' @ quoted (rec_turnId failedRun)
            @ '' on process '' @ quoted (pi_processId p))
     else case failed_turn_recovery p failedRun of
       None \<Rightarrow> Inl (''Failed turn '' @ quoted (rec_id failedRun) @ '' is missing recovery context'')
     | Some c \<Rightarrow>
         let continuePrompt = continue_prompt p prompt c;
             leaf = readCurrentPrimaryPathLeafEntryId parseJson (pi_stateJson p) in
         throws_bind (buildRecoveryStartWrites startId recordId p failedRun acceptedStart (RecoverContinue
             \<lparr>sc_continueFromPiEntryId = continueFromPiEntryId, sc_continuePrompt = continuePrompt,
              sc_savedPrimaryLeafEntryId = leaf\<rparr>)) (\<lambda>w0.
         let w1 = updateProcessMetadata w0 p [GroupRetry]
               (continue_update failedRun continueFromPiEntryId continuePrompt leaf) in
         Inr (appendProcessEvent w1 p ''continue_scheduled'' ''info''
           (''Continue scheduled for turn '' @ rec_turnId failedRun)
           (Some [(''fromTurnId'', json_nullable (pi_selectedTurnId p)), (''toTurnId'', JStr (rec_turnId failedRun)),
              (''selectedTurnId'', JStr (rec_turnId failedRun)), (''failedTurnRecord'', JStr (rec_id failedRun)),
              (''continueFromTurnRecordId'', JStr (rec_id failedRun)),
              (''continueFromPiEntryId'', JStr continueFromPiEntryId), (''continuePrompt'', JStr continuePrompt),
              (''attemptNumber'', JNum (rec_attemptNumber failedRun))]))))"

section \<open>The builders keep plan invariants\<close>

lemma stamp_error_code_instance [simp]: "pe_instanceId (stamp_error_code i c e) = pe_instanceId e"
  by (simp add: stamp_error_code_def)

lemma park_parts:
  assumes "buildParkProcessWrites p payload allow = Inr w"
  obtains w0 m d where
    "w0 = no_writes\<lparr>w_workerIntent := Some (StopWithReason (''lifecycle_parked:''
       @ coalesce (pi_selectedTurnId p) (lifecycle_status_name (pi_lifecycleStatus p))))\<rparr>"
    "w = appendProcessEvent (applyProcessPatchField w0 p FLifecycleStatus (VLifecycle ErrorProcess)) p
       ''lifecycle_parked'' ''warn'' m d"
  using assms by (auto simp: buildParkProcessWrites_def Let_def createWrites_def no_writes_def split: if_splits)

lemma failed_turn_fields_keep: "keeps_link (failed_turn_fields p payload existing endedAt)"
  by (simp add: keeps_link_def failed_turn_fields_def Let_def optional_key_def split: option.splits)

context plan_invariant
begin

lemma inv_no_writes: "P inst no_writes" "P inst (no_writes\<lparr>w_workerIntent := i\<rparr>)"
  using inv_empty [of inst False None] inv_empty [of inst False i] by (simp_all add: no_writes_def)

lemma inv_createWrites: "P inst (createWrites no_writes)" "P inst (createWrites (no_writes\<lparr>w_workerIntent := i\<rparr>))"
  using inv_no_writes(1) [of inst] inv_no_writes(2) [of inst i] by (simp_all add: createWrites_def no_writes_def)

lemma inv_park: "buildParkProcessWrites p payload allow = Inr w \<Longrightarrow> P (pi_id p) w"
  by (erule park_parts) (simp add: inv_event inv_patch_field inv_no_writes)

lemma inv_turn_failed: "P (pi_id p) (buildTurnFailedWrites p payload existing endedAt)"
  by (simp add: buildTurnFailedWrites_def Let_def inv_event inv_update_metadata inv_patch_field inv_record failed_turn_fields_keep
      inv_createWrites)

lemma inv_worker_failure:
  assumes "buildWorkerFailureWrites p inp = Inr w"
  shows "P (pi_id p) w"
proof -
  obtain park m where park: "buildWorkerFailureParkWrites p inp = Inr park"
    and m: "mergeWrites [turn_failure_writes p inp, Some park, Some (worker_failed_intent inp)] = Inr m"
    and w: "w = m\<lparr>w_events := map (stamp_error_code (pi_id p) (wfi_errorCode inp)) (w_events m)\<rparr>"
    using assms by (auto simp: buildWorkerFailureWrites_def)
  have "P (pi_id p) park"
    using park by (auto simp: buildWorkerFailureParkWrites_def intro: inv_park split: sum.splits)
  then have "P (pi_id p) m"
    by (intro inv_mergeWrites [OF _ m])
      (auto simp: turn_failure_writes_def worker_failed_intent_def inv_turn_failed inv_createWrites split: option.splits)
  then show ?thesis unfolding w by (rule inv_data) simp
qed

lemma inv_recovery_plan: "P (pi_id p) (recovery_plan startId recordId p failedRun start recovery)"
  by (auto simp: recovery_plan_def Let_def recovery_start_def intro!: inv_patch_field inv_start inv_createWrites
      split: option.splits)

lemma inv_recovery:
  "buildRecoveryStartWrites startId recordId p failedRun acc recovery = Inr w \<Longrightarrow> P (pi_id p) w"
  by (auto simp: buildRecoveryStartWrites_def inv_recovery_plan split: start_state.splits if_splits)

lemma inv_retry: "buildRetryWrites startId recordId graphs p failedRun acc = Inr w \<Longrightarrow> P (pi_id p) w"
  by (auto simp: buildRetryWrites_def Let_def intro!: inv_event inv_update_metadata intro: inv_recovery
      split: option.splits if_splits)

lemma inv_continue:
  "buildContinueFailedTurnWrites parseJson startId recordId graphs p failedRun acc entry prompt = Inr w \<Longrightarrow> P (pi_id p) w"
  by (auto simp: buildContinueFailedTurnWrites_def Let_def intro!: inv_event inv_update_metadata intro: inv_recovery
      split: option.splits if_splits)

end

section \<open>The effect of a worker failure\<close>

text \<open>The running record of the failed worker, if it has one.\<close>

definition running_record :: "worker_failure_input \<Rightarrow> turn_record option" where
  "running_record inp = (case wfi_activeTurnRecord inp of
     Some r \<Rightarrow> if rec_status r = ''running'' then Some r else None | None \<Rightarrow> None)"

definition failure_payload :: "worker_failure_input \<Rightarrow> turn_record \<Rightarrow> turn_failed_input" where
  "failure_payload inp r =
     \<lparr>tf_turnRecordId = rec_id r, tf_turnId = rec_turnId r, tf_turnType = rec_turnType r,
      tf_resultPiEntryId = (case wfi_resultPiEntryId inp of Some e \<Rightarrow> Some e | None \<Rightarrow> rec_resultPiEntryId r),
      tf_errorSummary = wfi_message inp, tf_errorClass = wfi_errorClass inp, tf_failureCode = None,
      tf_failureDetails = None, tf_recoveryContext = wfi_recoveryContext inp\<rparr>"

lemma turn_failure_writes_running:
  "turn_failure_writes p inp = map_option (\<lambda>r. buildTurnFailedWrites p (failure_payload inp r) r (wfi_endedAt inp))
     (running_record inp)"
  by (auto simp: turn_failure_writes_def toTurnFailedPayload_def running_record_def failure_payload_def
      split: option.splits)

lemma project_simps [plan_simps]:
  "writes_project (applyProcessPatchField w p f v) = writes_project w"
  "writes_project (updateProcessMetadata w p gs upd) = writes_project w"
  "writes_project (appendProcessEvent w p ty lv m d) = writes_project w"
  "binds_projects (applyProcessPatchField w p f v) = binds_projects w"
  "binds_projects (updateProcessMetadata w p gs upd) = binds_projects w"
  "binds_projects (appendProcessEvent w p ty lv m d) = binds_projects w"
  by (simp_all add: writes_project_def binds_projects_def applyProcessPatchField_def updateProcessMetadata_def Let_def
      applyMetadataPatch_def appendProcessEvent_def set_field_def)

lemma patched_update_metadata [plan_simps]:
  "g \<noteq> FMetadata \<Longrightarrow> patched (updateProcessMetadata w p gs upd) p g = patched w p g"
  by (simp add: updateProcessMetadata_def Let_def plan_simps)

lemma patched_none: "patched (createWrites no_writes) p g = pi_fields p g"
  "patched (createWrites (no_writes\<lparr>w_workerIntent := i\<rparr>)) p g = pi_fields p g"
  by (simp_all add: patched_def createWrites_def no_writes_def)

lemma turn_failed_parts:
  "patched (buildTurnFailedWrites p payload r at) p FLifecycleStatus = VLifecycle ErrorProcess"
  "patched (buildTurnFailedWrites p payload r at) p FSelectedTurnId = VStr (tf_turnId payload)"
  "g \<notin> {FLifecycleStatus, FSelectedTurnId, FMetadata} \<Longrightarrow> patched (buildTurnFailedWrites p payload r at) p g = pi_fields p g"
  "w_turnStartWrites (buildTurnFailedWrites p payload r at) = []"
  "w_turnRecordWrites (buildTurnFailedWrites p payload r at) =
     [UpdateRow (tf_turnRecordId payload) (failed_turn_fields p payload r at)]"
  "map pe_eventType (w_events (buildTurnFailedWrites p payload r at)) = [''turn_failed'']"
  "\<not> writes_project (buildTurnFailedWrites p payload r at)" "\<not> binds_projects (buildTurnFailedWrites p payload r at)"
  "w_workerIntent (buildTurnFailedWrites p payload r at) = None"
proof -
  define w0 where "w0 = createWrites no_writes"
  have w0: "w_turnStartWrites w0 = []" "w_turnRecordWrites w0 = []" "w_events w0 = []" "w_workerIntent w0 = None"
    "\<not> writes_project (w0\<lparr>w_turnRecordWrites := x\<rparr>)" "\<not> binds_projects (w0\<lparr>w_turnRecordWrites := x\<rparr>)"
    "patched w0 p g = pi_fields p g" for x g
    by (simp_all add: w0_def createWrites_def no_writes_def writes_project_def binds_projects_def patched_def)
  note d = buildTurnFailedWrites_def Let_def w0_def [symmetric] plan_simps w0
  show "patched (buildTurnFailedWrites p payload r at) p FLifecycleStatus = VLifecycle ErrorProcess"
    "patched (buildTurnFailedWrites p payload r at) p FSelectedTurnId = VStr (tf_turnId payload)"
    by (auto simp: d dest: js_same_eq)
  show "g \<notin> {FLifecycleStatus, FSelectedTurnId, FMetadata} \<Longrightarrow>
      patched (buildTurnFailedWrites p payload r at) p g = pi_fields p g"
    "w_turnStartWrites (buildTurnFailedWrites p payload r at) = []"
    "w_turnRecordWrites (buildTurnFailedWrites p payload r at) =
      [UpdateRow (tf_turnRecordId payload) (failed_turn_fields p payload r at)]"
    "\<not> writes_project (buildTurnFailedWrites p payload r at)" "\<not> binds_projects (buildTurnFailedWrites p payload r at)"
    "w_workerIntent (buildTurnFailedWrites p payload r at) = None"
    by (simp_all add: d)
  show "map pe_eventType (w_events (buildTurnFailedWrites p payload r at)) = [''turn_failed'']"
    by (simp add: d, simp add: appendProcessEvent_def d)
qed

lemma worker_park_parts:
  obtains park where "buildWorkerFailureParkWrites p inp = Inr park" "wf_plan park"
    "\<And>f. map_of (w_processPatch park) f = (if f = FLifecycleStatus \<and> \<not> js_same (pi_fields p f) (VLifecycle ErrorProcess)
       then Some (VLifecycle ErrorProcess) else None)"
    "w_turnStartWrites park = []" "w_turnRecordWrites park = []" "\<not> writes_project park" "\<not> binds_projects park"
    "map pe_eventType (w_events park) = [''lifecycle_parked'']" "map pe_instanceId (w_events park) = [pi_id p]"
proof -
  obtain park where b: "buildParkProcessWrites p \<lparr>park_selectedTurnId = pi_selectedTurnId p,
      park_reason = Some (wfi_message inp), park_errorClass = wfi_errorClass inp\<rparr> True = Inr park"
    by (auto simp: buildParkProcessWrites_def Let_def)
  from b obtain w0 m d where w0: "w0 = no_writes\<lparr>w_workerIntent := Some (StopWithReason (''lifecycle_parked:''
       @ coalesce (pi_selectedTurnId p) (lifecycle_status_name (pi_lifecycleStatus p))))\<rparr>"
    and park: "park = appendProcessEvent (applyProcessPatchField w0 p FLifecycleStatus (VLifecycle ErrorProcess)) p
       ''lifecycle_parked'' ''warn'' m d" by (rule park_parts)
  have n: "w_processPatch w0 = []" "w_turnStartWrites w0 = []" "w_turnRecordWrites w0 = []" "w_events w0 = []"
    "\<not> writes_project w0" "\<not> binds_projects w0"
    by (simp_all add: w0 no_writes_def writes_project_def binds_projects_def)
  show thesis
  proof (rule that)
    show "buildWorkerFailureParkWrites p inp = Inr park" by (simp add: buildWorkerFailureParkWrites_def b)
    show "wf_plan park" by (rule typed.inv_park [OF b])
    show "map_of (w_processPatch park) f = (if f = FLifecycleStatus \<and> \<not> js_same (pi_fields p f) (VLifecycle ErrorProcess)
       then Some (VLifecycle ErrorProcess) else None)" for f
      by (simp add: park plan_simps n applyProcessPatchField_def)
  qed (simp_all add: park plan_simps n, simp_all add: appendProcessEvent_def plan_simps n)
qed

lemma worker_failure_plan:
  obtains w and park :: writes where "buildWorkerFailureWrites p inp = Inr w"
    "\<And>g. pi_fields (committed p w) g = coalesce (if g = FLifecycleStatus \<and> \<not> js_same (pi_fields p g) (VLifecycle ErrorProcess)
       then Some (VLifecycle ErrorProcess) else None)
       (case turn_failure_writes p inp of None \<Rightarrow> pi_fields p g | Some x \<Rightarrow> patched x p g)"
    "w_turnStartWrites w = []" "w_workerIntent w = Some (StopWithReason (''worker_failed:'' @ wfi_errorCode inp))"
    "w_turnRecordWrites w = (case turn_failure_writes p inp of None \<Rightarrow> [] | Some x \<Rightarrow> w_turnRecordWrites x)"
    "w_events w = map (stamp_error_code (pi_id p) (wfi_errorCode inp))
       ((case turn_failure_writes p inp of None \<Rightarrow> [] | Some x \<Rightarrow> w_events x) @ w_events park)"
    "map pe_eventType (w_events park) = [''lifecycle_parked'']" "map pe_instanceId (w_events park) = [pi_id p]"
proof -
  obtain park where park: "buildWorkerFailureParkWrites p inp = Inr park" "wf_plan park"
    "\<And>f. map_of (w_processPatch park) f = (if f = FLifecycleStatus \<and> \<not> js_same (pi_fields p f) (VLifecycle ErrorProcess)
       then Some (VLifecycle ErrorProcess) else None)"
    "w_turnStartWrites park = []" "w_turnRecordWrites park = []" "\<not> writes_project park" "\<not> binds_projects park"
    "map pe_eventType (w_events park) = [''lifecycle_parked'']" "map pe_instanceId (w_events park) = [pi_id p]"
    by (rule worker_park_parts [of p inp]) (rule that)
  define i where "i = worker_failed_intent inp"
  have i: "wf_plan i" "w_processPatch i = []" "w_turnStartWrites i = []" "w_turnRecordWrites i = []" "w_events i = []"
    "\<not> writes_project i" "\<not> binds_projects i" "w_workerIntent i = Some (StopWithReason (''worker_failed:'' @ wfi_errorCode inp))"
    by (simp_all add: i_def worker_failed_intent_def createWrites_def no_writes_def wf_plan_def writes_project_def binds_projects_def)
  define ws where "ws = (case turn_failure_writes p inp of None \<Rightarrow> [] | Some x \<Rightarrow> [x]) @ [park, i]"
  have m: "mergeWrites [turn_failure_writes p inp, Some park, Some i] = merge_from no_writes (map Some ws)"
    by (simp add: mergeWrites_def createWrites_def ws_def no_writes_def split: option.splits)
  let ?f = "turn_failure_writes p inp"
  have f: "\<not> writes_project x" "\<not> binds_projects x" "wf_plan x" "w_turnStartWrites x = []" if "?f = Some x" for x
    using that turn_failed_parts typed.inv_turn_failed by (auto simp: turn_failure_writes_running)
  have "at_most_one writes_project (no_writes # ws)" "at_most_one binds_projects (no_writes # ws)"
    using f park(6,7) i(6,7)
    by (auto simp: at_most_one_def ws_def writes_project_def [of no_writes] binds_projects_def [of no_writes] no_writes_def
        split: option.splits)
  then obtain r where r: "merge_from no_writes (map Some ws) = Inr r" using merge_from_defined by blast
  have "\<forall>w \<in> set ws. distinct (map fst (w_processPatch w))"
    using f(3) park(2) i(1) by (auto simp: ws_def wf_plan_def split: option.splits)
  note seq = merge_from_sequential [OF r this, of p]
  define w where "w = r\<lparr>w_events := map (stamp_error_code (pi_id p) (wfi_errorCode inp)) (w_events r)\<rparr>"
  have b: "buildWorkerFailureWrites p inp = Inr w"
    using m r by (simp add: buildWorkerFailureWrites_def park(1) i_def w_def)
  have "pi_fields (committed p w) g = coalesce (map_of (w_processPatch park) g)
      (case ?f of None \<Rightarrow> pi_fields p g | Some x \<Rightarrow> patched x p g)" for g
    using seq by (simp add: committed_def w_def apply_plans_def ws_def with_patch_def patched_def i(2) no_writes_def
        split: option.splits)
  moreover have "w_turnStartWrites w = []" "w_workerIntent w = Some (StopWithReason (''worker_failed:'' @ wfi_errorCode inp))"
    "w_turnRecordWrites w = (case ?f of None \<Rightarrow> [] | Some x \<Rightarrow> w_turnRecordWrites x)"
    "w_events w = map (stamp_error_code (pi_id p) (wfi_errorCode inp))
       ((case ?f of None \<Rightarrow> [] | Some x \<Rightarrow> w_events x) @ w_events park)"
    using seq f(4) park(4,5) i(3-5,8)
    by (auto simp: w_def ws_def last_intent_def no_writes_def split: option.splits)
  ultimately show thesis using that [of w park] b park(3,8,9) by simp
qed

lemma stamp_error_code_type [simp]: "pe_eventType (stamp_error_code i c e) = pe_eventType e"
  by (simp add: stamp_error_code_def)


section \<open>Recovery after a failure\<close>

lemma committed_metadata:
  assumes "patched w p FMetadata = pi_fields p FMetadata" "field_ok FMetadata (pi_fields p FMetadata)"
  shows "pi_metadata (committed p (updateProcessMetadata w p gs upd)) =
     (let next = upd (clear_keys (concat (map METADATA_KEY_GROUPS gs)) (coalesce (pi_metadata p) []))
      in if next \<noteq> [] then Some next else None)"
  using assms
  by (auto simp: updateProcessMetadata_def applyMetadataPatch_def Let_def pi_metadata_def nullable_meta_def plan_simps)

lemma map_of_clear_keys: "map_of (clear_keys ks m) k = (if k \<in> set ks then None else map_of m k)"
  by (induction m) (auto simp: clear_keys_def)

text \<open>What a failed turn leaves behind for its continuation.\<close>

definition left_context :: "turn_failed_input \<Rightarrow> recovery_context option" where
  "left_context payload =
     (if tf_turnType payload = LlmTurn \<and> tf_failureCode payload \<noteq> Some BranchDrift
      then tf_recoveryContext payload else None)"

lemma failed_metadata:
  assumes "field_ok FMetadata (pi_fields p FMetadata)" "q = committed p (buildTurnFailedWrites p payload existing at)"
  shows "json_get (pi_metadata q) CONTINUE_PROMPT_METADATA_KEY = None" (is ?prompt)
    and "json_get (pi_metadata q) FAILED_TURN_RECOVERY_METADATA_KEY = (case left_context payload of
        None \<Rightarrow> None
      | Some c \<Rightarrow> json_get (Some (buildFailedTurnRecoveryMetadata (tf_turnRecordId payload) (context_overrides c)))
                   FAILED_TURN_RECOVERY_METADATA_KEY)" (is ?key)
proof -
  have q: "pi_metadata q =
     (let next = recovery_update payload (clear_keys (concat (map METADATA_KEY_GROUPS [GroupRetry, GroupContinuation]))
            (coalesce (pi_metadata p) []))
      in if next \<noteq> [] then Some next else None)"
    unfolding assms(2) buildTurnFailedWrites_def Let_def
    by (subst committed_metadata [unfolded Let_def, symmetric, OF _ assms(1)])
      (simp_all add: plan_simps patched_none pi_metadata_def)
  have k: "CONTINUE_PROMPT_METADATA_KEY \<noteq> FAILED_TURN_RECOVERY_METADATA_KEY"
    by (simp add: CONTINUE_PROMPT_METADATA_KEY_def FAILED_TURN_RECOVERY_METADATA_KEY_def)
  have get: "json_get (if m \<noteq> [] then Some m else None) key = map_of m key" for m key by (simp add: json_get_def)
  have u: "recovery_update payload m = (case left_context payload of
      Some c \<Rightarrow> assign_object m (buildFailedTurnRecoveryMetadata (tf_turnRecordId payload) (context_overrides c))
    | None \<Rightarrow> m)" for m by (simp add: recovery_update_def left_context_def)
  show ?prompt ?key
    unfolding q Let_def get u
    by (auto simp: assign_object_def buildFailedTurnRecoveryMetadata_def Let_def map_of_clear_keys k json_get_def
        split: option.splits)
qed

lemma read_depends_on_key:
  "json_get m FAILED_TURN_RECOVERY_METADATA_KEY = json_get m' FAILED_TURN_RECOVERY_METADATA_KEY \<Longrightarrow>
   readFailedTurnRecoveryContext m e = readFailedTurnRecoveryContext m' e"
  by (simp add: readFailedTurnRecoveryContext_def)

lemma recovery_of_failed_turn:
  assumes "field_ok FMetadata (pi_fields p FMetadata)" "rec_id failedRun = tf_turnRecordId payload"
    and "js_trim (tf_turnRecordId payload) = tf_turnRecordId payload"
  shows "failed_turn_recovery (committed p (buildTurnFailedWrites p payload existing at)) failedRun =
     (case left_context payload of
        Some c \<Rightarrow> if js_trim (suggestedContinuePrompt c) = []
          then inferTerminalRecordingFailedTurnRecoveryContext (rec_errorSummary failedRun)
                 (map_option worker_error_class_name (rec_errorClass failedRun))
          else Some (c\<lparr>suggestedContinuePrompt := js_trim (suggestedContinuePrompt c),
                      missingToolNames := normalizeUniqueStringArray
                        (map_option (\<lambda>ts. JArr (map JStr ts)) (missingToolNames c))\<rparr>)
      | None \<Rightarrow> inferTerminalRecordingFailedTurnRecoveryContext (rec_errorSummary failedRun)
                 (map_option worker_error_class_name (rec_errorClass failedRun)))"
proof (cases "left_context payload")
  case None
  have "json_get (pi_metadata (committed p (buildTurnFailedWrites p payload existing at)))
      FAILED_TURN_RECOVERY_METADATA_KEY = json_get None FAILED_TURN_RECOVERY_METADATA_KEY"
    using failed_metadata(2) [OF assms(1) refl] None by (simp add: json_get_def)
  from read_depends_on_key [OF this] show ?thesis
    by (simp add: failed_turn_recovery_def None readFailedTurnRecoveryContext_def json_get_def asUnknownRecord_def)
next
  case (Some c)
  have "json_get (pi_metadata (committed p (buildTurnFailedWrites p payload existing at)))
      FAILED_TURN_RECOVERY_METADATA_KEY = json_get (Some (buildFailedTurnRecoveryMetadata
        (tf_turnRecordId payload) (context_overrides c))) FAILED_TURN_RECOVERY_METADATA_KEY"
    using failed_metadata(2) [OF assms(1) refl] Some by simp
  from read_depends_on_key [OF this] show ?thesis
    unfolding failed_turn_recovery_def
    by (simp add: recovery_metadata_read Some assms(2,3) Let_def createGenericFailedTurnRecoveryContext_def context_overrides_def
        split: option.splits)
qed

lemma recovery_plan_parts:
  "w_turnStartWrites (recovery_plan startId recordId p r start recovery) =
     [CreateStart (recovery_start startId recordId p r start recovery)]"
  "w_workerIntent (recovery_plan startId recordId p r start recovery) = Some RestartWorker"
  "patched (recovery_plan startId recordId p r start recovery) p FSelectedTurnId = VStr (rec_turnId r)"
  "patched (recovery_plan startId recordId p r start recovery) p FLifecycleStatus = VLifecycle ActiveProcess"
  "patched (recovery_plan startId recordId p r start recovery) p FCurrentExecution = VExecution startId"
  "patched (recovery_plan startId recordId p r start recovery) p FMetadata = pi_fields p FMetadata"
proof -
  define w0 where "w0 = createWrites (no_writes\<lparr>w_workerIntent := Some RestartWorker\<rparr>)"
  have w0: "w_turnStartWrites w0 = []" "w_workerIntent w0 = Some RestartWorker" "patched w0 p g = pi_fields p g" for g
    by (simp_all add: w0_def createWrites_def no_writes_def patched_def)
  note d = recovery_plan_def Let_def w0_def [symmetric] plan_simps w0
  show "w_turnStartWrites (recovery_plan startId recordId p r start recovery) =
     [CreateStart (recovery_start startId recordId p r start recovery)]"
    "w_workerIntent (recovery_plan startId recordId p r start recovery) = Some RestartWorker"
    "patched (recovery_plan startId recordId p r start recovery) p FMetadata = pi_fields p FMetadata"
    by (simp_all add: d split: option.splits)
  show "patched (recovery_plan startId recordId p r start recovery) p FSelectedTurnId = VStr (rec_turnId r)"
    "patched (recovery_plan startId recordId p r start recovery) p FLifecycleStatus = VLifecycle ActiveProcess"
    "patched (recovery_plan startId recordId p r start recovery) p FCurrentExecution = VExecution startId"
    by (auto simp: d split: option.splits dest: js_same_eq)
qed

text \<open>
  C9. A failure can be continued: when an LLM turn fails with a recovery context (and its branch did not
  drift), then on the committed row a continuation without a prompt of its own succeeds; it creates
  exactly one start, for the failed turn and its mapped item, which refers to the failed record and
  continues from the requested entry with the suggested prompt, trimmed (a prompt left from an earlier
  continuation is not reused); the process is active again, owns that start, and its worker is
  restarted.
\<close>

theorem failed_turn_can_be_continued:
  assumes "tf_turnType payload = LlmTurn" "tf_failureCode payload \<noteq> Some BranchDrift"
    and "tf_recoveryContext payload = Some c" "js_trim (suggestedContinuePrompt c) \<noteq> []"
    and "rec_id failedRun = tf_turnRecordId payload" "js_trim (tf_turnRecordId payload) = tf_turnRecordId payload"
    and "field_ok FMetadata (pi_fields p FMetadata)" "q = committed p (buildTurnFailedWrites p payload existing at)"
    and "map_of graphs (pi_processId p) = Some d" "declared (toProcessGraphView d) (rec_turnId failedRun)"
    and "si_state accepted = AcceptedState (ResolvedLlm s) turn lease"
  shows "\<exists>w si cont. buildContinueFailedTurnWrites parseJson startId recordId graphs q failedRun accepted entry None = Inr w \<and>
    w_turnStartWrites w = [CreateStart si] \<and> si_id si = startId \<and> si_turnId si = rec_turnId failedRun \<and>
    si_startKind si = ContinueStart \<and> si_recoveryTurnRecordId si = Some (rec_id failedRun) \<and>
    si_iteration si = rec_iteration failedRun \<and> si_continuation si = Some cont \<and>
    sc_continueFromPiEntryId cont = entry \<and> sc_continuePrompt cont = js_trim (suggestedContinuePrompt c) \<and>
    pi_selectedTurnId (committed q w) = Some (rec_turnId failedRun) \<and>
    pi_lifecycleStatus (committed q w) = ActiveProcess \<and> pi_currentExecution (committed q w) = Some startId \<and>
    w_workerIntent w = Some RestartWorker"
proof -
  have av: "isTurnAvailableForProcessGraph graphs (pi_processId q) (rec_turnId failedRun) = Inr True"
    using assms(8,10) graph_lookups(1) [OF assms(9)] by simp
  have left: "left_context payload = Some c" using assms(1-3) by (simp add: left_context_def)
  have rec: "failed_turn_recovery q failedRun = Some (c\<lparr>suggestedContinuePrompt := js_trim (suggestedContinuePrompt c),
      missingToolNames := normalizeUniqueStringArray (map_option (\<lambda>ts. JArr (map JStr ts)) (missingToolNames c))\<rparr>)"
    unfolding assms(8) using recovery_of_failed_turn [OF assms(7,5,6)] left assms(4) by simp
  have prompt: "continue_prompt q None (c\<lparr>suggestedContinuePrompt := s, missingToolNames := ts\<rparr>) = s" for s ts
    using failed_metadata(1) [OF assms(7,8)] by (simp add: continue_prompt_def trimToNull_def trimString_def)
  show ?thesis
    unfolding buildContinueFailedTurnWrites_def av rec
    by (simp add: Let_def prompt buildRecoveryStartWrites_def assms(11) is_llm_start_def plan_simps
        recovery_plan_parts pi_defs) (simp add: recovery_start_def)
qed

definition sample_record :: turn_record where
  "sample_record = \<lparr>rec_id = ''r1'', rec_turnId = ''draft'', rec_turnType = LlmTurn, rec_status = ''failed'',
     rec_attemptNumber = 1, rec_pathType = PrimaryPath, rec_forkPiEntryId = Some ''e1'', rec_resultPiEntryId = None,
     rec_modelProfileId = None, rec_provenance = None, rec_iteration = None, rec_errorSummary = None,
     rec_errorClass = None\<rparr>"

definition sample_failure :: turn_failed_input where
  "sample_failure = \<lparr>tf_turnRecordId = ''r1'', tf_turnId = ''draft'', tf_turnType = LlmTurn,
     tf_resultPiEntryId = None, tf_errorSummary = ''no outcome'', tf_errorClass = Some LlmError,
     tf_failureCode = None, tf_failureDetails = None,
     tf_recoveryContext = Some \<lparr>suggestedContinuePrompt = '' go on '', failureCode = GenericContinue,
       missingToolNames = None\<rparr>\<rparr>"

definition sample_llm :: llm_start where
  "sample_llm = \<lparr>ls_model = \<lparr>rm_profileId = ''fast'', rm_providerId = ''prov'', rm_modelId = ''m'', rm_thinkingLevel = ''low''\<rparr>,
     ls_modelSelectionProvenance = None, ls_providerOptions = [], ls_piResourceSnapshotDigest = ''sha'', ls_rest = []\<rparr>"

definition sample_accepted :: start_input where
  "sample_accepted = \<lparr>si_id = ''s1'', si_instanceId = ''p1'', si_turnId = ''draft'', si_turnType = LlmTurn,
     si_proposedTurnRecordId = ''r1'', si_startKind = SelectedTurnStart, si_recoveryTurnRecordId = None,
     si_continuation = None, si_state = AcceptedState (ResolvedLlm sample_llm) ''r1'' ''l1'', si_iteration = None,
     si_automaticRetry = None\<rparr>"

theorem failed_turn_can_be_continued_witness:
  "\<exists>w si cont. buildContinueFailedTurnWrites (\<lambda>_. Inl ''syntax'') ''s2'' ''r2'' sample_registry
       (committed sample_process (buildTurnFailedWrites sample_process sample_failure sample_record ''now''))
       sample_record sample_accepted ''e2'' None = Inr w \<and>
     w_turnStartWrites w = [CreateStart si] \<and> si_continuation si = Some cont \<and> sc_continuePrompt cont = ''go on''"
proof -
  have d: "declared (toProcessGraphView sample_definition) (rec_turnId sample_record)" by code_simp
  have g: "map_of sample_registry (pi_processId sample_process) = Some sample_definition"
    by (simp add: sample_registry_def sample_process_def)
  have t: "js_trim '' go on '' = ''go on''" by code_simp
  note can = failed_turn_can_be_continued [where payload = sample_failure and p = sample_process and graphs = sample_registry
      and failedRun = sample_record and accepted = sample_accepted and existing = sample_record and at = "''now''",
      OF _ _ _ _ _ _ _ refl g d, where entry = "''e2''" and startId = "''s2''" and recordId = "''r2''"
      and parseJson = "\<lambda>_. Inl ''syntax''"]
  have "js_trim ''r1'' = ''r1''" by code_simp
  with can t show ?thesis
    by (fastforce simp: sample_failure_def sample_record_def sample_accepted_def sample_process_def)
qed

section \<open>Retries\<close>

text \<open>The turn can be retried: it is a worker-owned turn of the graph and its start had been accepted.\<close>

definition retryable :: "graph_view \<Rightarrow> turn_record \<Rightarrow> start_input \<Rightarrow> bool" where
  "retryable g failedRun accepted \<longleftrightarrow>
     (\<exists>v \<in> set_option (map_of (gv_turns g) (rec_turnId failedRun)). isWorkerOwnedTurnType (tv_turnType v)) \<and>
     (case si_state accepted of AcceptedState _ _ _ \<Rightarrow> True | _ \<Rightarrow> False)"



section \<open>All plans of the engine\<close>

text \<open>The plans the engine builds for a process, and what it makes of them before they are committed.\<close>

inductive engine_plan :: "graph_registry \<Rightarrow> process_instance \<Rightarrow> writes \<Rightarrow> bool" for graphs p where
  selection: "buildTurnSelectionWrites startId recordId graphs p sel = Inr (Inr w) \<Longrightarrow> engine_plan graphs p w"
| abort: "buildAbortProcessWrites startId recordId graphs p r st at = Inr (Inr w) \<Longrightarrow> engine_plan graphs p w"
| transition: "buildServerTransitionWrites startId recordId graphs p rq = Inr (Inr w) \<Longrightarrow> engine_plan graphs p w"
| park: "buildParkProcessWrites p pay allow = Inr w \<Longrightarrow> engine_plan graphs p w"
| turn_failed: "engine_plan graphs p (buildTurnFailedWrites p payload existing at)"
| worker_failed: "buildWorkerFailureWrites p inp = Inr w \<Longrightarrow> engine_plan graphs p w"
| retried: "buildRetryWrites startId recordId graphs p r acc = Inr w \<Longrightarrow> engine_plan graphs p w"
| continued: "buildContinueFailedTurnWrites parseJson startId recordId graphs p r acc entry prompt = Inr w \<Longrightarrow>
    engine_plan graphs p w"
| merged: "engine_plan graphs p a \<Longrightarrow> engine_plan graphs p b \<Longrightarrow> mergeWrites [Some a, Some b] = Inr w \<Longrightarrow>
    engine_plan graphs p w"
| stamped: "engine_plan graphs p w \<Longrightarrow> engine_plan graphs p (fst (stampActorOnEvents w actor ty))"
| deferred: "engine_plan graphs p w \<Longrightarrow> deferTurnWaitStarts waitId graphs p w md = Inr w' \<Longrightarrow> engine_plan graphs p w'"

context plan_invariant
begin

lemma inv_engine_plan: "engine_plan graphs p w \<Longrightarrow> P (pi_id p) w"
proof (induction rule: engine_plan.induct)
  case (merged a b w)
  from merged(3) show ?case by (rule inv_mergeWrites [rotated]) (use merged in auto)
qed (blast intro: inv_buildTurnSelectionWrites inv_buildAbortProcessWrites inv_buildServerTransitionWrites inv_park
    inv_turn_failed inv_worker_failure inv_retry inv_continue inv_stamp inv_deferTurnWaitStarts)+

end

lemma committed_typed:
  assumes "wf_plan w" "\<And>f. field_ok f (pi_fields p f)"
  shows "field_ok f (pi_fields (committed p w) f)"
  using assms by (cases "map_of (w_processPatch w) f") (auto simp: patched_def wf_plan_def dest!: map_of_SomeD)



end
