(* ===== verification/Future_Execution.thy ===== *)
theory Future_Execution
  imports Process_Writes "HOL-Library.List_Lexorder" "HOL-Library.Char_ord" "HOL-Library.Product_Lexorder"
begin

text \<open>
  Scheduled launches and actions: the table of future executions with its repository
  (\<^verbatim>\<open>packages/server/src/db/future-execution-repo.ts\<close>, \<^verbatim>\<open>schema.ts\<close>) and the compare-and-set
  transitions by which the scheduler consumes, advances, blocks, retries and cancels them
  (\<^verbatim>\<open>packages/server/src/future-execution/transition-planner.ts\<close>).

  The table is the list of its rows in insertion order. A JSON text column holds the value its text
  denotes. The primary key and the unique index on scheduled actions are checked as SQLite checks
  them; the foreign key to the process instances is outside of this table. Rows that compare equal
  in an \<open>order by\<close> keep their insertion order. The clock and generated identifiers are arguments.
\<close>

section \<open>Rows\<close>

datatype future_kind = LaunchExecution | ActionExecution

datatype schedule_kind = ScheduleOnce | ScheduleCron

record durable_selection =
  ds_modelProfileId :: string
  ds_provenance :: provenance

text \<open>\<open>FutureExecutionBlockReason\<close>, as the JSON object it is stored as.\<close>

type_synonym block_reason = json_object

record future_row =
  fr_id :: string
  fr_kind :: future_kind
  fr_scheduleKind :: schedule_kind
  fr_processId :: string
  fr_instanceId :: "string option"
  fr_launcherId :: "string option"
  fr_actionId :: "string option"
  fr_payloadJson :: string
  fr_cronExpression :: "string option"
  fr_nextRunAt :: string
  fr_createdAt :: string
  fr_updatedAt :: string
  fr_modelProfileId :: "string option"
  fr_modelSelectionKind :: "string option"
  fr_modelSelectionSource :: "string option"
  fr_blockedReasonJson :: "json option"

type_synonym future_table = "future_row list"

record future_execution =
  fe_id :: string
  fe_kind :: future_kind
  fe_scheduleKind :: schedule_kind
  fe_processId :: string
  fe_instanceId :: "string option"
  fe_launcherId :: "string option"
  fe_actionId :: "string option"
  fe_payloadJson :: string
  fe_cronExpression :: "string option"
  fe_nextRunAt :: string
  fe_modelSelection :: "durable_selection option"
  fe_blockedReason :: "block_reason option"
  fe_createdAt :: string
  fe_updatedAt :: string

definition has_string :: "json_object \<Rightarrow> string \<Rightarrow> bool" where
  "has_string v k = (case map_of v k of Some (JStr _) \<Rightarrow> True | _ \<Rightarrow> False)"

definition valid_block_reason :: "block_reason \<Rightarrow> bool" where
  "valid_block_reason v \<longleftrightarrow> has_string v ''code'' \<and> has_string v ''summary'' \<and> has_string v ''detectedAt'' \<and>
     (case map_of v ''availabilityRevision'' of None \<Rightarrow> True | Some (JNum _) \<Rightarrow> True | _ \<Rightarrow> False)"

definition parseBlockReason :: "json option \<Rightarrow> block_reason option throws" where
  "parseBlockReason value =
     (case value of
        None \<Rightarrow> Inr None
      | Some (JObj v) \<Rightarrow> if valid_block_reason v then Inr (Some v)
                        else Inl ''Invalid persisted future execution block reason''
      | Some _ \<Rightarrow> Inl ''Invalid persisted future execution block reason'')"

definition selectionFromRow :: "future_row \<Rightarrow> durable_selection option throws" where
  "selectionFromRow row =
     (case (fr_modelProfileId row, fr_modelSelectionKind row, fr_modelSelectionSource row) of
        (None, None, None) \<Rightarrow> Inr None
      | (Some profile, Some kind, Some source) \<Rightarrow>
          if kind \<in> {''explicit'', ''inherited''}
          then Inr (Some \<lparr>ds_modelProfileId = profile, ds_provenance = \<lparr>mp_kind = kind, mp_source = source\<rparr>\<rparr>)
          else Inl (''Incomplete model selection provenance for future execution '' @ quoted (fr_id row))
      | _ \<Rightarrow> Inl (''Incomplete model selection provenance for future execution '' @ quoted (fr_id row)))"

definition modelSelectionColumns :: "durable_selection option \<Rightarrow> future_row \<Rightarrow> future_row" where
  "modelSelectionColumns selection row = row
     \<lparr>fr_modelProfileId := map_option ds_modelProfileId selection,
      fr_modelSelectionKind := map_option (\<lambda>s. mp_kind (ds_provenance s)) selection,
      fr_modelSelectionSource := map_option (\<lambda>s. mp_source (ds_provenance s)) selection\<rparr>"

definition rowToFutureExecution :: "future_row \<Rightarrow> future_execution throws" where
  "rowToFutureExecution row =
     throws_bind (selectionFromRow row) (\<lambda>selection.
     throws_bind (parseBlockReason (fr_blockedReasonJson row)) (\<lambda>reason. Inr
       \<lparr>fe_id = fr_id row, fe_kind = fr_kind row, fe_scheduleKind = fr_scheduleKind row,
        fe_processId = fr_processId row, fe_instanceId = fr_instanceId row, fe_launcherId = fr_launcherId row,
        fe_actionId = fr_actionId row, fe_payloadJson = fr_payloadJson row,
        fe_cronExpression = fr_cronExpression row, fe_nextRunAt = fr_nextRunAt row,
        fe_modelSelection = selection, fe_blockedReason = reason,
        fe_createdAt = fr_createdAt row, fe_updatedAt = fr_updatedAt row\<rparr>))"

fun decode_rows :: "future_row list \<Rightarrow> future_execution list throws" where
  "decode_rows [] = Inr []"
| "decode_rows (r # rs) = throws_bind (rowToFutureExecution r) (\<lambda>e. throws_bind (decode_rows rs) (\<lambda>es. Inr (e # es)))"

section \<open>The table\<close>

definition row_of :: "future_table \<Rightarrow> string \<Rightarrow> future_row option" where
  "row_of t i = find (\<lambda>r. fr_id r = i) t"

definition update_rows :: "future_table \<Rightarrow> string \<Rightarrow> (future_row \<Rightarrow> future_row) \<Rightarrow> future_table" where
  "update_rows t i f = map (\<lambda>r. if fr_id r = i then f r else r) t"

definition delete_rows :: "future_table \<Rightarrow> string \<Rightarrow> future_table" where
  "delete_rows t i = filter (\<lambda>r. fr_id r \<noteq> i) t"

text \<open>The unique index over the process instance of scheduled actions; \<open>NULL\<close> never collides.\<close>

definition action_instances :: "future_table \<Rightarrow> string list" where
  "action_instances t = List.map_filter (\<lambda>r. if fr_kind r = ActionExecution then fr_instanceId r else None) t"

definition constraints_ok :: "future_table \<Rightarrow> bool" where
  "constraints_ok t \<longleftrightarrow> distinct (map fr_id t) \<and> distinct (action_instances t)"

definition checked :: "future_table \<Rightarrow> future_table throws" where
  "checked t = (if constraints_ok t then Inr t else Inl ''UNIQUE constraint failed'')"

section \<open>The repository\<close>

text \<open>\<open>create\<close>, with the values of the new row; its identifier is the given or a generated one.\<close>

record create_future_input =
  cf_id :: "string option"
  cf_kind :: future_kind
  cf_scheduleKind :: schedule_kind
  cf_processId :: string
  cf_instanceId :: "string option"
  cf_launcherId :: "string option"
  cf_actionId :: "string option"
  cf_payloadJson :: string
  cf_cronExpression :: "string option"
  cf_nextRunAt :: string
  cf_modelSelection :: "durable_selection option"
  cf_blockedReason :: "block_reason option"

definition createFutureExecution ::
    "string \<Rightarrow> string \<Rightarrow> future_table \<Rightarrow> create_future_input \<Rightarrow> (future_execution \<times> future_table) throws" where
  "createFutureExecution newId ts t inp =
     (let row = modelSelectionColumns (cf_modelSelection inp)
            \<lparr>fr_id = coalesce (cf_id inp) newId, fr_kind = cf_kind inp, fr_scheduleKind = cf_scheduleKind inp,
             fr_processId = cf_processId inp, fr_instanceId = cf_instanceId inp, fr_launcherId = cf_launcherId inp,
             fr_actionId = cf_actionId inp, fr_payloadJson = cf_payloadJson inp,
             fr_cronExpression = cf_cronExpression inp, fr_nextRunAt = cf_nextRunAt inp,
             fr_createdAt = ts, fr_updatedAt = ts,
             fr_modelProfileId = None, fr_modelSelectionKind = None, fr_modelSelectionSource = None,
             fr_blockedReasonJson = map_option JObj (cf_blockedReason inp)\<rparr> in
      throws_bind (checked (t @ [row])) (\<lambda>t'. throws_bind (rowToFutureExecution row) (\<lambda>e. Inr (e, t'))))"

definition getById :: "future_table \<Rightarrow> string \<Rightarrow> future_execution option throws" where
  "getById t i =
     (case row_of t i of
        None \<Rightarrow> Inr None
      | Some r \<Rightarrow> throws_bind (rowToFutureExecution r) (\<lambda>e. Inr (Some e)))"

definition by_time :: "future_row \<Rightarrow> string \<times> string" where
  "by_time r = (fr_nextRunAt r, fr_createdAt r)"

definition listAll :: "future_table \<Rightarrow> future_execution list throws" where
  "listAll t = decode_rows (sort_key by_time t)"

definition listByInstance :: "future_table \<Rightarrow> string \<Rightarrow> future_execution list throws" where
  "listByInstance t instanceId = decode_rows (sort_key by_time (filter (\<lambda>r. fr_instanceId r = Some instanceId) t))"

definition listRunnableDue :: "future_table \<Rightarrow> string \<Rightarrow> future_execution list throws" where
  "listRunnableDue t asOf =
     decode_rows (sort_key by_time (filter (\<lambda>r. fr_nextRunAt r \<le> asOf \<and> fr_blockedReasonJson r = None) t))"

definition listBlockedCronDue :: "future_table \<Rightarrow> string \<Rightarrow> future_execution list throws" where
  "listBlockedCronDue t asOf =
     decode_rows (sort_key by_time (filter (\<lambda>r. fr_nextRunAt r \<le> asOf \<and> fr_scheduleKind r = ScheduleCron \<and>
       fr_blockedReasonJson r \<noteq> None) t))"

definition getScheduledActionByInstance :: "future_table \<Rightarrow> string \<Rightarrow> future_execution option throws" where
  "getScheduledActionByInstance t instanceId =
     (case sort_key by_time (filter (\<lambda>r. fr_instanceId r = Some instanceId \<and> fr_kind r = ActionExecution) t) of
        [] \<Rightarrow> Inr None
      | r # _ \<Rightarrow> throws_bind (rowToFutureExecution r) (\<lambda>e. Inr (Some e)))"

definition updatePayloadJsonIfUnchanged ::
    "string \<Rightarrow> future_table \<Rightarrow> string \<Rightarrow> string \<Rightarrow> string \<Rightarrow> (future_execution option \<times> future_table) throws" where
  "updatePayloadJsonIfUnchanged ts t i expected payload =
     (if list_ex (\<lambda>r. fr_id r = i \<and> fr_payloadJson r = expected) t
      then let t' = map (\<lambda>r. if fr_id r = i \<and> fr_payloadJson r = expected
                  then r\<lparr>fr_payloadJson := payload, fr_updatedAt := ts\<rparr> else r) t in
           throws_bind (getById t' i) (\<lambda>e. Inr (e, t'))
      else Inr (None, t))"

text \<open>\<open>UpdateFutureExecutionInput\<close>: the outer option is an absent key.\<close>

record update_input =
  uf_scheduleKind :: "schedule_kind option"
  uf_processId :: "string option"
  uf_instanceId :: "string option option"
  uf_launcherId :: "string option option"
  uf_actionId :: "string option option"
  uf_payloadJson :: "string option"
  uf_cronExpression :: "string option option"
  uf_nextRunAt :: "string option"
  uf_modelSelection :: "durable_selection option option"
  uf_blockedReason :: "block_reason option option"

definition no_update :: update_input where
  "no_update = \<lparr>uf_scheduleKind = None, uf_processId = None, uf_instanceId = None, uf_launcherId = None,
     uf_actionId = None, uf_payloadJson = None, uf_cronExpression = None, uf_nextRunAt = None,
     uf_modelSelection = None, uf_blockedReason = None\<rparr>"

definition set_values :: "string \<Rightarrow> update_input \<Rightarrow> future_row \<Rightarrow> future_row" where
  "set_values ts inp r =
     (let r1 = r\<lparr>fr_updatedAt := ts,
            fr_scheduleKind := coalesce (uf_scheduleKind inp) (fr_scheduleKind r),
            fr_processId := coalesce (uf_processId inp) (fr_processId r),
            fr_instanceId := coalesce (uf_instanceId inp) (fr_instanceId r),
            fr_launcherId := coalesce (uf_launcherId inp) (fr_launcherId r),
            fr_actionId := coalesce (uf_actionId inp) (fr_actionId r),
            fr_payloadJson := coalesce (uf_payloadJson inp) (fr_payloadJson r),
            fr_cronExpression := coalesce (uf_cronExpression inp) (fr_cronExpression r),
            fr_nextRunAt := coalesce (uf_nextRunAt inp) (fr_nextRunAt r)\<rparr>;
          r2 = (case uf_modelSelection inp of None \<Rightarrow> r1 | Some sel \<Rightarrow> modelSelectionColumns sel r1) in
      case uf_blockedReason inp of None \<Rightarrow> r2 | Some reason \<Rightarrow> r2\<lparr>fr_blockedReasonJson := map_option JObj reason\<rparr>)"

definition updateFutureExecution ::
    "string \<Rightarrow> future_table \<Rightarrow> string \<Rightarrow> update_input \<Rightarrow> (future_execution option \<times> future_table) throws" where
  "updateFutureExecution ts t i inp =
     throws_bind (checked (update_rows t i (set_values ts inp))) (\<lambda>t'.
     throws_bind (getById t' i) (\<lambda>e. Inr (e, t')))"

definition deleteFutureExecution :: "future_table \<Rightarrow> string \<Rightarrow> bool \<times> future_table" where
  "deleteFutureExecution t i = (row_of t i \<noteq> None, delete_rows t i)"

section \<open>Transition plans\<close>

record occurrence =
  oc_futureExecutionId :: string
  oc_expectedKind :: future_kind
  oc_expectedNextRunAt :: string

datatype transition_plan =
    Consume occurrence
  | Advance occurrence string
  | Block occurrence block_reason "durable_selection option" "string option"
  | RetryLater occurrence string
  | CancelAction string string

datatype application = Applied future_execution "future_execution option" | Stale

definition expectedOccurrence :: "future_execution \<Rightarrow> occurrence \<Rightarrow> bool" where
  "expectedOccurrence e oc \<longleftrightarrow> fe_id e = oc_futureExecutionId oc \<and> fe_kind e = oc_expectedKind oc \<and>
     fe_nextRunAt e = oc_expectedNextRunAt oc"

definition occurrencePlan :: "future_execution \<Rightarrow> occurrence" where
  "occurrencePlan e = \<lparr>oc_futureExecutionId = fe_id e, oc_expectedKind = fe_kind e, oc_expectedNextRunAt = fe_nextRunAt e\<rparr>"

definition planConsumeFutureExecution :: "future_execution \<Rightarrow> transition_plan" where
  "planConsumeFutureExecution e = Consume (occurrencePlan e)"

definition planAdvanceFutureExecution :: "future_execution \<Rightarrow> string \<Rightarrow> transition_plan" where
  "planAdvanceFutureExecution e nextRunAt = Advance (occurrencePlan e) nextRunAt"

definition planBlockFutureExecution ::
    "future_execution \<Rightarrow> block_reason \<Rightarrow> durable_selection option \<Rightarrow> string option \<Rightarrow> transition_plan" where
  "planBlockFutureExecution e reason selection nextRunAt =
     Block (occurrencePlan e) reason selection (if truthy nextRunAt then nextRunAt else None)"

definition planRetryFutureExecution :: "future_execution \<Rightarrow> string \<Rightarrow> transition_plan" where
  "planRetryFutureExecution e nextRunAt = RetryLater (occurrencePlan e) nextRunAt"

definition planCancelScheduledAction :: "future_execution \<Rightarrow> string \<Rightarrow> transition_plan option" where
  "planCancelScheduledAction e instanceId =
     (if fe_kind e \<noteq> ActionExecution \<or> fe_instanceId e \<noteq> Some instanceId then None
      else Some (CancelAction (fe_id e) instanceId))"

fun plan_id :: "transition_plan \<Rightarrow> string" where
  "plan_id (CancelAction i _) = i"
| "plan_id (Consume oc) = oc_futureExecutionId oc"
| "plan_id (Advance oc _) = oc_futureExecutionId oc"
| "plan_id (Block oc _ _ _) = oc_futureExecutionId oc"
| "plan_id (RetryLater oc _) = oc_futureExecutionId oc"

fun plan_update :: "transition_plan \<Rightarrow> update_input" where
  "plan_update (Advance _ n) = no_update\<lparr>uf_nextRunAt := if n \<noteq> [] then Some n else None\<rparr>"
| "plan_update (RetryLater _ n) = no_update\<lparr>uf_nextRunAt := if n \<noteq> [] then Some n else None\<rparr>"
| "plan_update (Block _ reason sel n) = no_update\<lparr>uf_blockedReason := Some (Some reason),
     uf_modelSelection := Some sel, uf_nextRunAt := if truthy n then n else None\<rparr>"
| "plan_update _ = no_update"

definition delete_current :: "future_table \<Rightarrow> future_execution \<Rightarrow> application \<times> future_table" where
  "delete_current t current =
     (case deleteFutureExecution t (fe_id current) of
        (True, t') \<Rightarrow> (Applied current None, t')
      | (False, t') \<Rightarrow> (Stale, t'))"

definition update_current ::
    "string \<Rightarrow> future_table \<Rightarrow> future_execution \<Rightarrow> transition_plan \<Rightarrow> (application \<times> future_table) throws" where
  "update_current ts t current pl =
     throws_bind (updateFutureExecution ts t (fe_id current) (plan_update pl)) (\<lambda>(e, t'). Inr (
       case e of Some x \<Rightarrow> (Applied current (Some x), t') | None \<Rightarrow> (Stale, t')))"

definition applyFutureExecutionTransitionPlan ::
    "string \<Rightarrow> future_table \<Rightarrow> transition_plan \<Rightarrow> (application \<times> future_table) throws" where
  "applyFutureExecutionTransitionPlan ts t pl =
     throws_bind (getById t (plan_id pl)) (\<lambda>found.
       case found of
         None \<Rightarrow> Inr (Stale, t)
       | Some current \<Rightarrow>
           (case pl of
              CancelAction _ expectedInstanceId \<Rightarrow>
                if fe_kind current \<noteq> ActionExecution \<or> fe_instanceId current \<noteq> Some expectedInstanceId
                then Inr (Stale, t) else Inr (delete_current t current)
            | Consume oc \<Rightarrow>
                if \<not> expectedOccurrence current oc then Inr (Stale, t) else Inr (delete_current t current)
            | Advance oc _ \<Rightarrow>
                if \<not> expectedOccurrence current oc then Inr (Stale, t) else update_current ts t current pl
            | Block oc _ _ _ \<Rightarrow>
                if \<not> expectedOccurrence current oc then Inr (Stale, t) else update_current ts t current pl
            | RetryLater oc _ \<Rightarrow>
                if \<not> expectedOccurrence current oc then Inr (Stale, t) else update_current ts t current pl))"

definition applyRequiredFutureExecutionTransitionPlan ::
    "string \<Rightarrow> future_table \<Rightarrow> transition_plan \<Rightarrow> (application \<times> future_table) throws" where
  "applyRequiredFutureExecutionTransitionPlan ts t pl =
     throws_bind (applyFutureExecutionTransitionPlan ts t pl) (\<lambda>(result, t').
       if result = Stale then Inl ''Future execution changed before atomic commit'' else Inr (result, t'))"

section \<open>Rows under a key\<close>

text \<open>
  What the transitions need of a store of rows: an update or a delete is seen under its key and
  nowhere else.
\<close>

locale row_store =
  fixes key :: "'r \<Rightarrow> 'k"
    and get :: "'s \<Rightarrow> 'k \<Rightarrow> 'r option"
    and upd :: "'s \<Rightarrow> 'k \<Rightarrow> ('r \<Rightarrow> 'r) \<Rightarrow> 's"
    and del :: "'s \<Rightarrow> 'k \<Rightarrow> 's"
  assumes get_key: "get s k = Some r \<Longrightarrow> key r = k"
    and get_upd: "(\<And>r. key (f r) = key r) \<Longrightarrow> get (upd s k f) k' = (if k' = k then map_option f (get s k) else get s k')"
    and get_del: "get (del s k) k' = (if k' = k then None else get s k')"
begin

lemma upd_as_map: "(\<And>r. key (f r) = key r) \<Longrightarrow> get (upd s k f) = (get s)(k := map_option f (get s k))"
  by (rule ext) (simp add: get_upd)

lemma del_as_map: "get (del s k) = (get s)(k := None)"
  by (rule ext) (simp add: get_del)

lemma get_cong_upd:
  "(\<And>r. key (f r) = key r) \<Longrightarrow> get s = get s' \<Longrightarrow> get (upd s k f) = get (upd s' k f)"
  by (simp add: upd_as_map)

end

lemma row_of_append [simp]: "row_of (t @ u) i = (case row_of t i of Some r \<Rightarrow> Some r | None \<Rightarrow> row_of u i)"
  by (induction t) (auto simp: row_of_def)

lemma row_of_Cons [simp]: "row_of (r # t) i = (if fr_id r = i then Some r else row_of t i)" "row_of [] i = None"
  by (simp_all add: row_of_def)

lemma row_of_Some: "row_of t i = Some r \<Longrightarrow> r \<in> set t \<and> fr_id r = i"
  by (induction t) (auto split: if_splits)

interpretation futures: row_store fr_id row_of update_rows delete_rows
proof
  show "row_of s k = Some r \<Longrightarrow> fr_id r = k" for s k r using row_of_Some by blast
  show "row_of (update_rows s k f) k' = (if k' = k then map_option f (row_of s k) else row_of s k')"
    if "\<And>r. fr_id (f r) = fr_id r" for f :: "future_row \<Rightarrow> future_row" and s k k'
    using that by (induction s) (auto simp: update_rows_def)
  show "row_of (delete_rows s k) k' = (if k' = k then None else row_of s k')" for s k k'
    by (induction s) (auto simp: delete_rows_def)
qed

section \<open>Well-formed tables\<close>

definition decodable :: "future_row \<Rightarrow> bool" where
  "decodable r = (case rowToFutureExecution r of Inl _ \<Rightarrow> False | Inr _ \<Rightarrow> True)"

definition wf_table :: "future_table \<Rightarrow> bool" where
  "wf_table t \<longleftrightarrow> constraints_ok t \<and> list_all decodable t"

text \<open>A block plan carries a reason and a selection of their declared types.\<close>

fun valid_plan :: "transition_plan \<Rightarrow> bool" where
  "valid_plan (Block _ reason sel _) \<longleftrightarrow> valid_block_reason reason \<and>
     (case sel of None \<Rightarrow> True | Some s \<Rightarrow> mp_kind (ds_provenance s) \<in> {''explicit'', ''inherited''})"
| "valid_plan _ \<longleftrightarrow> True"

lemma decoded:
  assumes "rowToFutureExecution r = Inr e"
  shows "fe_id e = fr_id r" "fe_kind e = fr_kind r" "fe_instanceId e = fr_instanceId r" "fe_nextRunAt e = fr_nextRunAt r"
    "fe_createdAt e = fr_createdAt r"
  using assms by (auto simp: rowToFutureExecution_def)

lemma decodable_iff: "decodable r \<longleftrightarrow> (\<exists>e. rowToFutureExecution r = Inr e)"
  by (simp add: decodable_def split: sum.splits)

lemma decodable_columns:
  "decodable r \<longleftrightarrow> (\<exists>s. selectionFromRow r = Inr s) \<and> (\<exists>b. parseBlockReason (fr_blockedReasonJson r) = Inr b)"
  by (auto simp: decodable_iff rowToFutureExecution_def)

lemma set_values_kept:
  "fr_id (set_values ts (plan_update pl) r) = fr_id r" "fr_kind (set_values ts (plan_update pl) r) = fr_kind r"
  "fr_instanceId (set_values ts (plan_update pl) r) = fr_instanceId r"
  by (cases pl; simp add: set_values_def no_update_def modelSelectionColumns_def Let_def)+

lemma selection_cong:
  assumes "fr_modelProfileId r = fr_modelProfileId q" "fr_modelSelectionKind r = fr_modelSelectionKind q"
    "fr_modelSelectionSource r = fr_modelSelectionSource q" "fr_id r = fr_id q"
  shows "selectionFromRow r = selectionFromRow q"
  unfolding selectionFromRow_def assms ..

lemma set_values_decodable:
  assumes "decodable r" "valid_plan pl"
  shows "decodable (set_values ts (plan_update pl) r)"
proof -
  have same: "selectionFromRow (set_values ts (no_update\<lparr>uf_nextRunAt := n\<rparr>) r) = selectionFromRow r"
    "fr_blockedReasonJson (set_values ts (no_update\<lparr>uf_nextRunAt := n\<rparr>) r) = fr_blockedReasonJson r"
    "selectionFromRow (set_values ts no_update r) = selectionFromRow r"
    "fr_blockedReasonJson (set_values ts no_update r) = fr_blockedReasonJson r" for n
    by (auto intro!: selection_cong simp: set_values_def no_update_def Let_def)
  show ?thesis
  proof (cases pl)
    case (Block oc reason sel n)
    with assms(2) show ?thesis
      by (cases sel) (auto simp: decodable_columns set_values_def no_update_def modelSelectionColumns_def
          selectionFromRow_def parseBlockReason_def Let_def)
  next
    case (Advance oc n)
    then show ?thesis using assms(1) by (simp add: decodable_columns same)
  next
    case (RetryLater oc n)
    then show ?thesis using assms(1) by (simp add: decodable_columns same)
  qed (use assms(1) in \<open>simp_all add: decodable_columns same\<close>)
qed

lemma action_instances_update:
  "(\<And>r. fr_kind (f r) = fr_kind r \<and> fr_instanceId (f r) = fr_instanceId r) \<Longrightarrow>
   action_instances (update_rows t i f) = action_instances t"
  by (induction t) (auto simp: action_instances_def update_rows_def List.map_filter_simps split: option.split)

lemma update_rows_ids: "(\<And>r. fr_id (f r) = fr_id r) \<Longrightarrow> map fr_id (update_rows t i f) = map fr_id t"
  by (induction t) (auto simp: update_rows_def)

lemma action_instances_delete: "set (action_instances (delete_rows t i)) \<subseteq> set (action_instances t) \<and>
    (distinct (action_instances t) \<longrightarrow> distinct (action_instances (delete_rows t i)))"
  by (induction t) (auto simp: action_instances_def delete_rows_def List.map_filter_simps split: option.splits)

lemma wf_update:
  assumes "wf_table t" "valid_plan pl"
  shows "wf_table (update_rows t i (set_values ts (plan_update pl)))"
proof -
  have "list_all decodable (update_rows t i (set_values ts (plan_update pl)))"
    using assms by (auto simp: wf_table_def list_all_iff update_rows_def set_values_decodable)
  then show ?thesis
    using assms(1) by (simp add: wf_table_def constraints_ok_def update_rows_ids action_instances_update set_values_kept)
qed

lemma wf_delete: "wf_table t \<Longrightarrow> wf_table (delete_rows t i)"
  using action_instances_delete [of t i]
  by (auto simp: wf_table_def constraints_ok_def list_all_iff delete_rows_def distinct_map_filter)

section \<open>Transitions as compare-and-set\<close>

fun expects :: "transition_plan \<Rightarrow> future_row \<Rightarrow> bool" where
  "expects (CancelAction _ inst) r \<longleftrightarrow> fr_kind r = ActionExecution \<and> fr_instanceId r = Some inst"
| "expects (Consume oc) r \<longleftrightarrow> fr_kind r = oc_expectedKind oc \<and> fr_nextRunAt r = oc_expectedNextRunAt oc"
| "expects (Advance oc _) r \<longleftrightarrow> fr_kind r = oc_expectedKind oc \<and> fr_nextRunAt r = oc_expectedNextRunAt oc"
| "expects (Block oc _ _ _) r \<longleftrightarrow> fr_kind r = oc_expectedKind oc \<and> fr_nextRunAt r = oc_expectedNextRunAt oc"
| "expects (RetryLater oc _) r \<longleftrightarrow> fr_kind r = oc_expectedKind oc \<and> fr_nextRunAt r = oc_expectedNextRunAt oc"

fun planned_row :: "string \<Rightarrow> transition_plan \<Rightarrow> future_row \<Rightarrow> future_row option" where
  "planned_row ts (CancelAction _ _) r = None"
| "planned_row ts (Consume _) r = None"
| "planned_row ts pl r = Some (set_values ts (plan_update pl) r)"

fun removes :: "transition_plan \<Rightarrow> bool" where
  "removes (CancelAction _ _) = True"
| "removes (Consume _) = True"
| "removes _ = False"

lemma apply_missing: "row_of t (plan_id pl) = None \<Longrightarrow> applyFutureExecutionTransitionPlan ts t pl = Inr (Stale, t)"
  by (simp add: applyFutureExecutionTransitionPlan_def getById_def)

lemma apply_present:
  assumes "row_of t (plan_id pl) = Some r" "rowToFutureExecution r = Inr e"
  shows "applyFutureExecutionTransitionPlan ts t pl =
    (if \<not> expects pl r then Inr (Stale, t)
     else if removes pl then Inr (Applied e None, delete_rows t (plan_id pl))
     else update_current ts t e pl)"
proof -
  have i: "fr_id r = plan_id pl" using row_of_Some [OF assms(1)] by simp
  have del: "delete_current t e = (Applied e None, delete_rows t (plan_id pl))"
    using assms(1) by (simp add: delete_current_def deleteFutureExecution_def decoded [OF assms(2)] i)
  have g: "getById t (plan_id pl) = Inr (Some e)" by (simp add: getById_def assms)
  show ?thesis
    unfolding applyFutureExecutionTransitionPlan_def g throws_bind_simps option.case
    using i by (cases pl) (simp_all add: del expectedOccurrence_def decoded [OF assms(2)])
qed

lemma apply_update:
  assumes "wf_table t" "valid_plan pl" "row_of t (plan_id pl) = Some r" "rowToFutureExecution r = Inr e"
  obtains x where "rowToFutureExecution (set_values ts (plan_update pl) r) = Inr x"
    "update_current ts t e pl = Inr (Applied e (Some x), update_rows t (plan_id pl) (set_values ts (plan_update pl)))"
proof -
  let ?f = "set_values ts (plan_update pl)"
  have i: "fe_id e = plan_id pl" using row_of_Some [OF assms(3)] decoded(1) [OF assms(4)] by simp
  have "decodable r" using assms(4) by (auto simp: decodable_iff)
  then obtain x where x: "rowToFutureExecution (?f r) = Inr x"
    using set_values_decodable assms(2) decodable_iff by blast
  have c: "constraints_ok (update_rows t (plan_id pl) ?f)" using wf_update [OF assms(1,2)] by (simp add: wf_table_def)
  have "update_current ts t e pl = Inr (Applied e (Some x), update_rows t (plan_id pl) ?f)"
    by (simp add: update_current_def updateFutureExecution_def i checked_def c getById_def futures.get_upd
        set_values_kept assms(3) x)
  with x show thesis by (rule that)
qed

lemma transition_spec:
  assumes "wf_table t" "valid_plan pl"
  shows "case applyFutureExecutionTransitionPlan ts t pl of
      Inl _ \<Rightarrow> False
    | Inr (Stale, t') \<Rightarrow> t' = t \<and> (\<forall>r. row_of t (plan_id pl) = Some r \<longrightarrow> \<not> expects pl r)
    | Inr (Applied found after, t') \<Rightarrow> (\<exists>r. row_of t (plan_id pl) = Some r \<and> expects pl r \<and>
        rowToFutureExecution r = Inr found \<and>
        row_of t' = (row_of t)(plan_id pl := planned_row ts pl r) \<and>
        map_option Inr after = map_option rowToFutureExecution (planned_row ts pl r) \<and> wf_table t')"
proof (cases "row_of t (plan_id pl)")
  case None
  then show ?thesis by (simp add: apply_missing)
next
  case (Some r)
  then obtain e where e: "rowToFutureExecution r = Inr e"
    using assms(1) row_of_Some [OF Some] by (auto simp: wf_table_def list_all_iff decodable_iff)
  obtain x where x: "rowToFutureExecution (set_values ts (plan_update pl) r) = Inr x"
    "update_current ts t e pl = Inr (Applied e (Some x), update_rows t (plan_id pl) (set_values ts (plan_update pl)))"
    using apply_update [OF assms Some e] .
  have upd: "row_of (update_rows t (plan_id pl) (set_values ts (plan_update pl))) =
      (row_of t)(plan_id pl := Some (set_values ts (plan_update pl) r))"
    using Some by (simp add: futures.upd_as_map set_values_kept)
  show ?thesis
  proof (cases "expects pl r")
    case False
    then show ?thesis by (simp add: apply_present [OF Some e] Some)
  next
    case True
    show ?thesis
    proof (cases "removes pl")
      case True
      then have "planned_row ts pl r = None" by (cases pl) simp_all
      with True \<open>expects pl r\<close> Some e wf_delete [OF assms(1)] show ?thesis
        by (simp add: apply_present [OF Some e] futures.del_as_map)
    next
      case False
      then have "planned_row ts pl r = Some (set_values ts (plan_update pl) r)" by (cases pl) simp_all
      with False \<open>expects pl r\<close> Some e x wf_update [OF assms] upd show ?thesis
        by (simp add: apply_present [OF Some e])
    qed
  qed
qed

text \<open>The transition of the row under the plan's key, as a function of that row alone.\<close>

definition cas :: "string \<Rightarrow> transition_plan \<Rightarrow> future_row option \<Rightarrow> application \<times> future_row option" where
  "cas ts pl ro =
     (case ro of
        None \<Rightarrow> (Stale, None)
      | Some r \<Rightarrow> if expects pl r
          then (Applied (projr (rowToFutureExecution r)) (map_option (\<lambda>x. projr (rowToFutureExecution x)) (planned_row ts pl r)),
                planned_row ts pl r)
          else (Stale, Some r))"

lemma transition_cas:
  assumes "wf_table t" "valid_plan pl"
  obtains t' where
    "applyFutureExecutionTransitionPlan ts t pl = Inr (fst (cas ts pl (row_of t (plan_id pl))), t')"
    "row_of t' = (row_of t)(plan_id pl := snd (cas ts pl (row_of t (plan_id pl))))" "wf_table t'"
proof -
  note spec = transition_spec [OF assms, of ts]
  show thesis
  proof (cases "applyFutureExecutionTransitionPlan ts t pl")
    case (Inl e)
    with spec show thesis by simp
  next
    case (Inr res)
    obtain a t' where res: "res = (a, t')" by (cases res)
    show thesis
    proof (cases a)
      case Stale
      with spec Inr res have "t' = t" "\<forall>r. row_of t (plan_id pl) = Some r \<longrightarrow> \<not> expects pl r" by simp_all
      with that [of t'] Inr res Stale assms(1) show thesis by (simp add: cas_def fun_upd_idem split: option.splits)
    next
      case (Applied found after)
      with spec Inr res obtain r where r: "row_of t (plan_id pl) = Some r" "expects pl r"
          "rowToFutureExecution r = Inr found" "row_of t' = (row_of t)(plan_id pl := planned_row ts pl r)"
          "map_option Inr after = map_option rowToFutureExecution (planned_row ts pl r)" "wf_table t'" by auto
      have "after = map_option (\<lambda>x. projr (rowToFutureExecution x)) (planned_row ts pl r)"
        using r(5) by (cases after; cases "planned_row ts pl r") (auto dest: sym)
      with that [of t'] r Inr res Applied show thesis by (simp add: cas_def)
    qed
  qed
qed

text \<open>
  C7. A transition plan is a compare-and-set on one row. On a well-formed table it never fails; it is
  stale exactly when the row is gone or no longer is what the plan expects, and then the table is
  unchanged; otherwise it reports the row it found, deletes it (consume, cancel) or updates it (advance,
  retry, block), touches no other row, and keeps the table well formed: identifiers stay unique and a
  process instance keeps at most one scheduled action.
\<close>

theorem transition_is_compare_and_set:
  assumes "wf_table t" "valid_plan pl"
  shows "case applyFutureExecutionTransitionPlan ts t pl of
      Inl _ \<Rightarrow> False
    | Inr (Stale, t') \<Rightarrow> t' = t \<and> (\<forall>r. row_of t (plan_id pl) = Some r \<longrightarrow> \<not> expects pl r)
    | Inr (Applied found after, t') \<Rightarrow> (\<exists>r. row_of t (plan_id pl) = Some r \<and> expects pl r \<and>
        rowToFutureExecution r = Inr found \<and>
        row_of t' = (row_of t)(plan_id pl := planned_row ts pl r) \<and>
        map_option Inr after = map_option rowToFutureExecution (planned_row ts pl r) \<and> wf_table t')"
  by (rule transition_spec [OF assms])

definition sample_row :: future_row where
  "sample_row = \<lparr>fr_id = ''f1'', fr_kind = ActionExecution, fr_scheduleKind = ScheduleCron, fr_processId = ''review'',
     fr_instanceId = Some ''p1'', fr_launcherId = None, fr_actionId = Some ''approve'', fr_payloadJson = ''{}'',
     fr_cronExpression = Some ''0 9 * * *'', fr_nextRunAt = ''2026-04-25T10'', fr_createdAt = ''2026-04-24T10'',
     fr_updatedAt = ''2026-04-24T10'', fr_modelProfileId = None, fr_modelSelectionKind = None,
     fr_modelSelectionSource = None, fr_blockedReasonJson = None\<rparr>"

definition sample_occurrence :: occurrence where
  "sample_occurrence = \<lparr>oc_futureExecutionId = ''f1'', oc_expectedKind = ActionExecution, oc_expectedNextRunAt = ''2026-04-25T10''\<rparr>"

lemma sample_table_wf: "wf_table [sample_row]" "wf_table [sample_row, sample_row\<lparr>fr_id := ''f2'', fr_instanceId := None\<rparr>]"
  by code_simp+

theorem transition_is_compare_and_set_witness:
  "\<exists>found after t'. applyFutureExecutionTransitionPlan ''now'' [sample_row] (Advance sample_occurrence ''2026-04-26T10'') =
       Inr (Applied found after, t') \<and> wf_table t' \<and> map_option fr_nextRunAt (row_of t' ''f1'') = Some ''2026-04-26T10''"
proof -
  define pl where "pl = Advance sample_occurrence ''2026-04-26T10''"
  define t where "t = [sample_row]"
  have v: "wf_table t" "valid_plan pl" using sample_table_wf(1) by (simp_all add: t_def pl_def)
  have e: "row_of t (plan_id pl) = Some sample_row" "expects pl sample_row" "plan_id pl = ''f1''"
    unfolding t_def pl_def by code_simp+
  obtain r' where n: "planned_row ''now'' pl sample_row = Some r'" "fr_nextRunAt r' = ''2026-04-26T10''"
    by (simp add: pl_def set_values_def no_update_def Let_def)
  show ?thesis
    unfolding t_def [symmetric] pl_def [symmetric]
    using transition_is_compare_and_set [OF v, of "''now''"] e n
    by (auto split: sum.splits prod.splits application.splits)
qed

fun occurrence_of :: "transition_plan \<Rightarrow> occurrence option" where
  "occurrence_of (Consume oc) = Some oc"
| "occurrence_of (Advance oc _) = Some oc"
| "occurrence_of (Block oc _ _ _) = Some oc"
| "occurrence_of (RetryLater oc _) = Some oc"
| "occurrence_of (CancelAction _ _) = None"

text \<open>A plan takes its occurrence: it removes the row or moves it to another time.\<close>

definition takes_occurrence :: "transition_plan \<Rightarrow> occurrence \<Rightarrow> bool" where
  "takes_occurrence pl oc \<longleftrightarrow> removes pl \<or>
     (\<exists>n \<in> set_option (uf_nextRunAt (plan_update pl)). n \<noteq> oc_expectedNextRunAt oc)"

lemma taken_row:
  assumes "occurrence_of pl = Some oc" "takes_occurrence pl oc" "planned_row ts pl r = Some r'"
  shows "fr_nextRunAt r' \<noteq> oc_expectedNextRunAt oc"
  using assms
  by (cases pl) (auto simp: takes_occurrence_def set_values_def no_update_def modelSelectionColumns_def Let_def
      split: if_splits)

lemma occurrence_expects:
  "occurrence_of pl = Some oc \<Longrightarrow> plan_id pl = oc_futureExecutionId oc \<and>
     (expects pl r \<longrightarrow> fr_nextRunAt r = oc_expectedNextRunAt oc)"
  by (cases pl) auto

text \<open>
  C23. An occurrence is taken at most once: once a plan has consumed an occurrence or moved it to another
  time, every other plan made for the same occurrence, by whatever path, is stale and changes nothing.
\<close>

theorem occurrence_is_taken_once:
  assumes "wf_table t" "valid_plan pl" "valid_plan pl'"
    and "occurrence_of pl = Some oc" "occurrence_of pl' = Some oc" "takes_occurrence pl oc"
    and "applyFutureExecutionTransitionPlan ts t pl = Inr (Applied found after, t')"
  shows "applyFutureExecutionTransitionPlan ts' t' pl' = Inr (Stale, t')"
proof -
  obtain t1 where t1: "applyFutureExecutionTransitionPlan ts t pl = Inr (fst (cas ts pl (row_of t (plan_id pl))), t1)"
    "row_of t1 = (row_of t)(plan_id pl := snd (cas ts pl (row_of t (plan_id pl))))" "wf_table t1"
    using transition_cas [OF assms(1,2)] .
  with assms(7) have t': "t' = t1" and "fst (cas ts pl (row_of t (plan_id pl))) \<noteq> Stale" by auto
  then obtain r where "row_of t (plan_id pl) = Some r" "expects pl r" "snd (cas ts pl (row_of t (plan_id pl))) = planned_row ts pl r"
    by (auto simp: cas_def split: option.splits if_splits)
  with t1(2) have row: "row_of t' (plan_id pl') = planned_row ts pl r"
    using occurrence_expects assms(4,5) t' by simp
  show ?thesis
  proof (cases "planned_row ts pl r")
    case None
    with row show ?thesis by (simp add: apply_missing)
  next
    case (Some r')
    with row t1(3) t' obtain e where "rowToFutureExecution r' = Inr e"
      using row_of_Some by (fastforce simp: wf_table_def list_all_iff decodable_iff)
    moreover have "\<not> expects pl' r'"
      using taken_row [OF assms(4,6) Some] occurrence_expects [OF assms(5)] by blast
    ultimately show ?thesis using row Some by (simp add: apply_present)
  qed
qed

theorem occurrence_is_taken_once_witness:
  "\<exists>found t'. applyFutureExecutionTransitionPlan ''now'' [sample_row] (Consume sample_occurrence) = Inr (Applied found None, t') \<and>
     applyFutureExecutionTransitionPlan ''later'' t' (RetryLater sample_occurrence ''2026-04-26T10'') = Inr (Stale, t')"
proof -
  obtain found t' where a: "applyFutureExecutionTransitionPlan ''now'' [sample_row] (Consume sample_occurrence) =
      Inr (Applied found None, t')"
  proof -
    have "case applyFutureExecutionTransitionPlan ''now'' [sample_row] (Consume sample_occurrence) of
        Inr (Applied _ None, _) \<Rightarrow> True | _ \<Rightarrow> False" by code_simp
    then show thesis using that by (auto split: sum.splits prod.splits application.splits option.splits)
  qed
  have "applyFutureExecutionTransitionPlan ''later'' t' (RetryLater sample_occurrence ''2026-04-26T10'') = Inr (Stale, t')"
    by (rule occurrence_is_taken_once [OF sample_table_wf(1) _ _ _ _ _ a, of _ sample_occurrence])
      (simp_all add: takes_occurrence_def)
  with a show ?thesis by blast
qed

text \<open>
  Transitions of different executions do not interfere: two plans for different rows can be applied
  in either order, each reports the same either way, and the resulting rows are the same.
\<close>

lemma transitions_of_different_executions_commute:
  assumes "wf_table t" "valid_plan pl" "valid_plan pl'" "plan_id pl \<noteq> plan_id pl'"
  shows "\<exists>a b t1 t12 t2 t21. applyFutureExecutionTransitionPlan ts t pl = Inr (a, t1) \<and>
    applyFutureExecutionTransitionPlan ts' t1 pl' = Inr (b, t12) \<and>
    applyFutureExecutionTransitionPlan ts' t pl' = Inr (b, t2) \<and>
    applyFutureExecutionTransitionPlan ts t2 pl = Inr (a, t21) \<and> row_of t12 = row_of t21"
proof -
  let ?a = "cas ts pl (row_of t (plan_id pl))" and ?b = "cas ts' pl' (row_of t (plan_id pl'))"
  obtain t1 where t1: "applyFutureExecutionTransitionPlan ts t pl = Inr (fst ?a, t1)"
    "row_of t1 = (row_of t)(plan_id pl := snd ?a)" "wf_table t1"
    using transition_cas [OF assms(1,2)] .
  obtain t2 where t2: "applyFutureExecutionTransitionPlan ts' t pl' = Inr (fst ?b, t2)"
    "row_of t2 = (row_of t)(plan_id pl' := snd ?b)" "wf_table t2"
    using transition_cas [OF assms(1,3)] .
  obtain t12 where t12: "applyFutureExecutionTransitionPlan ts' t1 pl' = Inr (fst ?b, t12)"
    "row_of t12 = (row_of t1)(plan_id pl' := snd ?b)"
    using transition_cas [OF t1(3) assms(3), of ts'] assms(4) t1(2) by (auto simp: fun_upd_other)
  obtain t21 where t21: "applyFutureExecutionTransitionPlan ts t2 pl = Inr (fst ?a, t21)"
    "row_of t21 = (row_of t2)(plan_id pl := snd ?a)"
    using transition_cas [OF t2(3) assms(2), of ts] assms(4) t2(2) by (auto simp: fun_upd_other)
  have "row_of t12 = row_of t21"
    unfolding t12(2) t21(2) t1(2) t2(2) using assms(4) by (rule fun_upd_twist)
  with t1(1) t2(1) t12(1) t21(1) show ?thesis by blast
qed

section \<open>Due work\<close>

lemma decode_rows_ok: "list_all decodable rs \<Longrightarrow> decode_rows rs = Inr (map (\<lambda>r. projr (rowToFutureExecution r)) rs)"
  by (induction rs) (auto simp: decodable_iff)

lemma decoded_by_time: "decodable r \<Longrightarrow> (fe_nextRunAt (projr (rowToFutureExecution r)),
    fe_createdAt (projr (rowToFutureExecution r))) = by_time r"
  by (auto simp: decodable_iff by_time_def decoded)

lemma due_rows:
  assumes "wf_table t" "rs = sort_key by_time (filter Q t)"
  shows "decode_rows rs = Inr (map (\<lambda>r. projr (rowToFutureExecution r)) rs)"
    and "sorted (map (\<lambda>e. (fe_nextRunAt e, fe_createdAt e)) (map (\<lambda>r. projr (rowToFutureExecution r)) rs))"
    and "set (map (\<lambda>r. projr (rowToFutureExecution r)) rs) = {e. \<exists>r \<in> set t. Q r \<and> rowToFutureExecution r = Inr e}"
proof -
  have d: "list_all decodable rs" using assms by (auto simp: wf_table_def list_all_iff)
  then show "decode_rows rs = Inr (map (\<lambda>r. projr (rowToFutureExecution r)) rs)" by (rule decode_rows_ok)
  have "map (\<lambda>e. (fe_nextRunAt e, fe_createdAt e)) (map (\<lambda>r. projr (rowToFutureExecution r)) rs) = map by_time rs"
    using d by (auto simp: list_all_iff decoded_by_time)
  moreover have "sorted (map by_time rs)" unfolding assms(2) by (rule sorted_sort_key)
  ultimately show "sorted (map (\<lambda>e. (fe_nextRunAt e, fe_createdAt e)) (map (\<lambda>r. projr (rowToFutureExecution r)) rs))"
    by (simp only:)
  have "projr (rowToFutureExecution r) = e \<longleftrightarrow> rowToFutureExecution r = Inr e" if "r \<in> set t" for r e
    using assms(1) that by (auto simp: wf_table_def list_all_iff decodable_iff)
  then show "set (map (\<lambda>r. projr (rowToFutureExecution r)) rs) = {e. \<exists>r \<in> set t. Q r \<and> rowToFutureExecution r = Inr e}"
    unfolding assms(2) by (auto simp: image_iff intro: sym)
qed

lemma row_of_member: "distinct (map fr_id t) \<Longrightarrow> r \<in> set t \<Longrightarrow> row_of t (fr_id r) = Some r"
  by (induction t) (auto simp: rev_image_eqI)

text \<open>
  C33. The due list is exact: on a well-formed table it returns, ordered by the time they are due and then
  by creation, exactly the executions that are due and not blocked, and each of them can be consumed
  there and then.
\<close>

theorem due_list_is_exact:
  assumes "wf_table t"
  shows "\<exists>es. listRunnableDue t asOf = Inr es \<and> sorted (map (\<lambda>e. (fe_nextRunAt e, fe_createdAt e)) es) \<and>
    (\<forall>e. e \<in> set es \<longleftrightarrow> (\<exists>r \<in> set t. (fr_nextRunAt r \<le> asOf \<and> fr_blockedReasonJson r = None) \<and> rowToFutureExecution r = Inr e)) \<and>
    (\<forall>e \<in> set es. \<exists>t'. applyFutureExecutionTransitionPlan ts t (planConsumeFutureExecution e) = Inr (Applied e None, t'))"
proof -
  let ?Q = "\<lambda>r. fr_nextRunAt r \<le> asOf \<and> fr_blockedReasonJson r = None"
  define es where "es = map (\<lambda>r. projr (rowToFutureExecution r)) (sort_key by_time (filter ?Q t))"
  have l: "listRunnableDue t asOf = Inr es" "sorted (map (\<lambda>e. (fe_nextRunAt e, fe_createdAt e)) es)"
    "set es = {e. \<exists>r \<in> set t. ?Q r \<and> rowToFutureExecution r = Inr e}"
    unfolding listRunnableDue_def es_def by (rule due_rows [OF assms refl])+
  have "\<exists>t'. applyFutureExecutionTransitionPlan ts t (planConsumeFutureExecution e) = Inr (Applied e None, t')"
    if "e \<in> set es" for e
  proof -
    from that l(3) obtain r where r: "r \<in> set t" "rowToFutureExecution r = Inr e" by auto
    have "row_of t (plan_id (planConsumeFutureExecution e)) = Some r"
      using assms r row_of_member by (simp add: planConsumeFutureExecution_def occurrencePlan_def decoded [OF r(2)]
          wf_table_def constraints_ok_def)
    from apply_present [OF this r(2)] show ?thesis
      by (simp add: planConsumeFutureExecution_def occurrencePlan_def decoded [OF r(2)])
  qed
  with l show ?thesis by blast
qed

theorem due_list_is_exact_witness:
  "\<exists>es t'. listRunnableDue [sample_row] ''2026-05'' = Inr es \<and> es \<noteq> [] \<and>
     applyFutureExecutionTransitionPlan ''now'' [sample_row] (planConsumeFutureExecution (hd es)) = Inr (Applied (hd es) None, t')"
proof -
  obtain es where es: "listRunnableDue [sample_row] ''2026-05'' = Inr es"
      "\<forall>e \<in> set es. \<exists>t'. applyFutureExecutionTransitionPlan ''now'' [sample_row] (planConsumeFutureExecution e) = Inr (Applied e None, t')"
    using due_list_is_exact [OF sample_table_wf(1), of "''2026-05''" "''now''"] by auto
  have "map_sum (\<lambda>_. ()) length (listRunnableDue [sample_row] ''2026-05'') = Inr 1" by code_simp
  with es(1) have "es \<noteq> []" by auto
  with es show ?thesis by auto
qed

end
