(* ===== verification/Mapped_Runs.thy ===== *)
theory Mapped_Runs
  imports Process_Writes "HOL-Library.List_Lexorder" "HOL-Library.Char_ord"
begin

text \<open>
  The store of mapped turns: a mapped LLM turn runs once per item of a list that is frozen when the
  turn is entered, one item after the other, and every item leaves a result
  (\<^verbatim>\<open>packages/server/src/db/mapped-llm-run-repo.ts\<close>, the two tables in \<^verbatim>\<open>schema.ts\<close>, the rows in
  \<^verbatim>\<open>packages/domain/src/domain-model.ts\<close>), and the part of \<^verbatim>\<open>commit-writes.ts\<close> that applies the mapped-run
  writes of a plan.

  The tables are lists of rows in insertion order; a JSON text column holds the value its text
  denotes, so that \<open>json_valid\<close> holds of it. The primary key, the unique indexes and the checks of
  \<^verbatim>\<open>schema.ts\<close> are checked as SQLite checks them; the foreign keys to the process instances are
  outside of these tables. The clock is an argument. A commit is a transaction: when a write throws,
  nothing of it is kept.
\<close>

section \<open>Numbers in messages\<close>

fun nat_text :: "nat \<Rightarrow> string" where
  "nat_text n = (if n < 10 then [''0123456789'' ! n] else nat_text (n div 10) @ [''0123456789'' ! (n mod 10)])"

declare nat_text.simps [simp del]

definition int_text :: "int \<Rightarrow> string" where
  "int_text n = (if n < 0 then CHR ''-'' # nat_text (nat (- n)) else nat_text (nat n))"

section \<open>Rows\<close>

record mapped_run =
  mr_id :: string
  mr_instanceId :: string
  mr_turnId :: string
  mr_status :: mapped_run_status
  mr_itemCount :: int
  mr_nextIndex :: int
  mr_createdAt :: string
  mr_updatedAt :: string

datatype mapped_item_status = ItemPending | ItemCompleted

record mapped_item =
  it_runId :: string
  it_instanceId :: string
  it_itemIndex :: int
  it_itemKey :: string
  it_label :: string
  it_itemJson :: json
  it_status :: mapped_item_status
  it_outcome :: "string option"
  it_resultJson :: "json option"
  it_turnRecordId :: "string option"
  it_completedAt :: "string option"

record mapped_db =
  md_runs :: "mapped_run list"
  md_items :: "mapped_item list"

section \<open>Constraints of the tables\<close>

definition active_instances :: "mapped_run list \<Rightarrow> string list" where
  "active_instances rs = map mr_instanceId (filter (\<lambda>r. mr_status r = RunActive) rs)"

definition run_progress_ok :: "mapped_run \<Rightarrow> bool" where
  "run_progress_ok r \<longleftrightarrow> 0 \<le> mr_itemCount r \<and> 0 \<le> mr_nextIndex r \<and> mr_nextIndex r \<le> mr_itemCount r"

definition runs_valid :: "mapped_run list \<Rightarrow> bool" where
  "runs_valid rs \<longleftrightarrow> distinct (map mr_id rs) \<and> distinct (active_instances rs) \<and> list_all run_progress_ok rs"

definition item_result_ok :: "mapped_item \<Rightarrow> bool" where
  "item_result_ok i \<longleftrightarrow> (it_status i = ItemCompleted \<longleftrightarrow> it_resultJson i \<noteq> None)"

definition items_valid :: "mapped_item list \<Rightarrow> bool" where
  "items_valid is \<longleftrightarrow> distinct (map (\<lambda>i. (it_runId i, it_itemIndex i)) is) \<and>
     distinct (map (\<lambda>i. (it_runId i, it_itemKey i)) is) \<and> list_all item_result_ok is"

definition set_runs :: "mapped_db \<Rightarrow> mapped_run list \<Rightarrow> mapped_db throws" where
  "set_runs db rs = (if runs_valid rs then Inr (db\<lparr>md_runs := rs\<rparr>) else Inl ''constraint failed: mapped_llm_runs'')"

definition set_items :: "mapped_db \<Rightarrow> mapped_item list \<Rightarrow> mapped_db throws" where
  "set_items db is =
     (if items_valid is \<and> set (map it_runId is) \<subseteq> set (map mr_id (md_runs db))
      then Inr (db\<lparr>md_items := is\<rparr>) else Inl ''constraint failed: mapped_llm_items'')"

section \<open>The repository\<close>

definition new_run :: "string \<Rightarrow> create_mapped_run \<Rightarrow> mapped_run" where
  "new_run ts inp =
     \<lparr>mr_id = cm_id inp, mr_instanceId = cm_instanceId inp, mr_turnId = cm_turnId inp, mr_status = cm_status inp,
      mr_itemCount = int (length (cm_items inp)),
      mr_nextIndex = (if cm_status inp = RunCompleted then int (length (cm_items inp)) else 0),
      mr_createdAt = ts, mr_updatedAt = ts\<rparr>"

definition new_item :: "create_mapped_run \<Rightarrow> frozen_item \<Rightarrow> mapped_item" where
  "new_item inp item =
     \<lparr>it_runId = cm_id inp, it_instanceId = cm_instanceId inp, it_itemIndex = fi_itemIndex item,
      it_itemKey = fi_itemKey item, it_label = fi_label item, it_itemJson = fi_itemJson item,
      it_status = ItemPending, it_outcome = None, it_resultJson = None, it_turnRecordId = None,
      it_completedAt = None\<rparr>"

fun insert_items :: "create_mapped_run \<Rightarrow> frozen_item list \<Rightarrow> mapped_db \<Rightarrow> mapped_db throws" where
  "insert_items inp [] db = Inr db"
| "insert_items inp (item # rest) db =
     throws_bind (set_items db (md_items db @ [new_item inp item])) (insert_items inp rest)"

definition createMappedRun :: "string \<Rightarrow> mapped_db \<Rightarrow> create_mapped_run \<Rightarrow> (mapped_run \<times> mapped_db) throws" where
  "createMappedRun ts db inp =
     throws_bind (set_runs db (md_runs db @ [new_run ts inp])) (\<lambda>db1.
     throws_bind (insert_items inp (cm_items inp) db1) (\<lambda>db2. Inr (new_run ts inp, db2)))"

definition getRunById :: "mapped_db \<Rightarrow> string \<Rightarrow> mapped_run option" where
  "getRunById db i = find (\<lambda>r. mr_id r = i) (md_runs db)"

definition getActiveByInstance :: "mapped_db \<Rightarrow> string \<Rightarrow> mapped_run option" where
  "getActiveByInstance db instanceId =
     find (\<lambda>r. mr_instanceId r = instanceId \<and> mr_status r = RunActive) (md_runs db)"

definition listRunsByInstance :: "mapped_db \<Rightarrow> string \<Rightarrow> mapped_run list" where
  "listRunsByInstance db instanceId = sort_key mr_createdAt (filter (\<lambda>r. mr_instanceId r = instanceId) (md_runs db))"

definition items_of :: "mapped_db \<Rightarrow> string \<Rightarrow> mapped_item list" where
  "items_of db runId = filter (\<lambda>i. it_runId i = runId) (md_items db)"

definition listItems :: "mapped_db \<Rightarrow> string \<Rightarrow> mapped_item list" where
  "listItems db runId = sort_key it_itemIndex (items_of db runId)"

definition listItemsByInstance :: "mapped_db \<Rightarrow> string \<Rightarrow> mapped_item list" where
  "listItemsByInstance db instanceId = filter (\<lambda>i. it_instanceId i = instanceId) (md_items db)"

definition getItem :: "mapped_db \<Rightarrow> string \<Rightarrow> int \<Rightarrow> mapped_item option" where
  "getItem db runId itemIndex = find (\<lambda>i. it_runId i = runId \<and> it_itemIndex i = itemIndex) (md_items db)"

definition item_selected :: "complete_mapped_item \<Rightarrow> mapped_item \<Rightarrow> bool" where
  "item_selected inp i \<longleftrightarrow> it_runId i = co_runId inp \<and> it_itemIndex i = co_itemIndex inp \<and> it_status i = ItemPending"

definition complete_row :: "string \<Rightarrow> complete_mapped_item \<Rightarrow> mapped_item \<Rightarrow> mapped_item" where
  "complete_row ts inp i =
     (if item_selected inp i
      then i\<lparr>it_status := ItemCompleted, it_outcome := Some (co_outcome inp),
             it_resultJson := Some (co_resultJson inp), it_turnRecordId := Some (co_turnRecordId inp),
             it_completedAt := Some ts\<rparr>
      else i)"

definition advance_run :: "string \<Rightarrow> string \<Rightarrow> int \<Rightarrow> int \<Rightarrow> mapped_run \<Rightarrow> mapped_run" where
  "advance_run ts runId nextIndex itemCount r =
     (if mr_id r = runId
      then r\<lparr>mr_nextIndex := nextIndex,
             mr_status := if nextIndex = itemCount then RunCompleted else RunActive, mr_updatedAt := ts\<rparr>
      else r)"

definition completeItem :: "string \<Rightarrow> mapped_db \<Rightarrow> complete_mapped_item \<Rightarrow> (mapped_run option \<times> mapped_db) throws" where
  "completeItem ts db inp =
     (let name = ''Mapped item '' @ int_text (co_itemIndex inp) @ '' of run '' @ quoted (co_runId inp) in
      case getRunById db (co_runId inp) of
        None \<Rightarrow> Inl (name @ '' is not current'')
      | Some run \<Rightarrow>
          if mr_status run \<noteq> RunActive \<or> mr_nextIndex run \<noteq> co_itemIndex inp
          then Inl (name @ '' is not current'')
          else
            throws_bind (set_items db (map (complete_row ts inp) (md_items db))) (\<lambda>db1.
            if length (filter (item_selected inp) (md_items db)) \<noteq> 1
            then Inl (name @ '' is not pending'')
            else
              throws_bind (set_runs db1 (map (advance_run ts (co_runId inp) (co_itemIndex inp + 1)
                  (mr_itemCount run)) (md_runs db1))) (\<lambda>db2.
              Inr (getRunById db2 (co_runId inp), db2))))"

definition abort_run :: "string \<Rightarrow> string \<Rightarrow> mapped_run \<Rightarrow> mapped_run" where
  "abort_run ts instanceId r =
     (if mr_instanceId r = instanceId \<and> mr_status r = RunActive
      then r\<lparr>mr_status := RunAborted, mr_updatedAt := ts\<rparr> else r)"

definition abortActiveByInstance :: "string \<Rightarrow> mapped_db \<Rightarrow> string \<Rightarrow> (nat \<times> mapped_db) throws" where
  "abortActiveByInstance ts db instanceId =
     throws_bind (set_runs db (map (abort_run ts instanceId) (md_runs db))) (\<lambda>db'.
       Inr (length (filter (\<lambda>r. mr_instanceId r = instanceId \<and> mr_status r = RunActive) (md_runs db)), db'))"

section \<open>Committing the mapped-run writes of a plan\<close>

fun commit_write :: "string \<Rightarrow> string \<Rightarrow> mapped_db \<Rightarrow> mapped_run_write \<Rightarrow> mapped_db throws" where
  "commit_write ts instanceId db (CreateMappedRun inp) = throws_bind (createMappedRun ts db inp) (\<lambda>(_, db'). Inr db')"
| "commit_write ts instanceId db (CompleteMappedItem inp) = throws_bind (completeItem ts db inp) (\<lambda>(_, db'). Inr db')"
| "commit_write ts instanceId db AbortActiveMappedRun =
     throws_bind (abortActiveByInstance ts db instanceId) (\<lambda>(_, db'). Inr db')"

fun commit_mapped_runs :: "string \<Rightarrow> string \<Rightarrow> mapped_run_write list \<Rightarrow> mapped_db \<Rightarrow> mapped_db throws" where
  "commit_mapped_runs ts instanceId [] db = Inr db"
| "commit_mapped_runs ts instanceId (w # ws) db =
     throws_bind (commit_write ts instanceId db w) (commit_mapped_runs ts instanceId ws)"

section \<open>Consistent stores\<close>

text \<open>
  The items of a run are numbered without gaps, exactly those before \<open>nextIndex\<close> are completed, and a
  run is completed when none is left.
\<close>

definition run_consistent :: "mapped_db \<Rightarrow> mapped_run \<Rightarrow> bool" where
  "run_consistent db r \<longleftrightarrow>
     mr_itemCount r = int (length (items_of db (mr_id r))) \<and>
     map it_itemIndex (items_of db (mr_id r)) = map int [0..<length (items_of db (mr_id r))] \<and>
     0 \<le> mr_nextIndex r \<and> mr_nextIndex r \<le> mr_itemCount r \<and>
     (mr_status r = RunCompleted \<longleftrightarrow> mr_nextIndex r = mr_itemCount r) \<and>
     (\<forall>i \<in> set (items_of db (mr_id r)). it_instanceId i = mr_instanceId r \<and>
        (it_status i = ItemCompleted \<longleftrightarrow> it_itemIndex i < mr_nextIndex r))"

definition db_consistent :: "mapped_db \<Rightarrow> bool" where
  "db_consistent db \<longleftrightarrow> runs_valid (md_runs db) \<and> items_valid (md_items db) \<and>
     set (map it_runId (md_items db)) \<subseteq> set (map mr_id (md_runs db)) \<and> list_all (run_consistent db) (md_runs db)"

definition results :: "mapped_db \<Rightarrow> string \<Rightarrow> json list" where
  "results db runId = List.map_filter it_resultJson (listItems db runId)"

text \<open>Looking a row up by a key.\<close>

lemma find_by_key: "distinct (map f xs) \<Longrightarrow> find (\<lambda>x. f x = k) xs = Some x \<longleftrightarrow> x \<in> set xs \<and> f x = k"
  by (induction xs) (auto simp: image_iff)

lemma find_map_key: "(\<And>x. key (f x) = key x) \<Longrightarrow> find (\<lambda>x. key x = k) (map f xs) = map_option f (find (\<lambda>x. key x = k) xs)"
  by (induction xs) auto

lemma getRunById_Some:
  "runs_valid (md_runs db) \<Longrightarrow> getRunById db i = Some r \<longleftrightarrow> r \<in> set (md_runs db) \<and> mr_id r = i"
  by (simp add: getRunById_def runs_valid_def find_by_key)

lemma getRunById_None: "getRunById db i = None \<longleftrightarrow> i \<notin> mr_id ` set (md_runs db)"
  by (auto simp: getRunById_def find_None_iff)

lemma getItem_Some:
  "items_valid (md_items db) \<Longrightarrow>
   getItem db rid k = Some i \<longleftrightarrow> i \<in> set (items_of db rid) \<and> it_itemIndex i = k"
  using find_by_key [of "\<lambda>i. (it_runId i, it_itemIndex i)" "md_items db" "(rid, k)" i]
  by (auto simp: getItem_def items_valid_def items_of_def)

lemma consistent_run:
  "db_consistent db \<Longrightarrow> getRunById db rid = Some r \<Longrightarrow> run_consistent db r \<and> mr_id r = rid"
  by (auto simp: db_consistent_def getRunById_Some list_all_iff)

lemma consistent_no_run: "db_consistent db \<Longrightarrow> getRunById db rid = None \<Longrightarrow> items_of db rid = []"
  by (auto simp: db_consistent_def getRunById_None items_of_def filter_empty_conv)

lemma items_of_index:
  assumes "run_consistent db r" "k < length (items_of db (mr_id r))"
  shows "it_itemIndex (items_of db (mr_id r) ! k) = int k"
proof -
  from assms(1) have "map it_itemIndex (items_of db (mr_id r)) = map int [0..<length (items_of db (mr_id r))]"
    by (simp add: run_consistent_def)
  then have "map it_itemIndex (items_of db (mr_id r)) ! k = map int [0..<length (items_of db (mr_id r))] ! k"
    by simp
  with assms(2) show ?thesis by simp
qed

lemma listItems_consistent:
  assumes "db_consistent db"
  shows "listItems db rid = items_of db rid"
proof (cases "getRunById db rid")
  case None
  with assms show ?thesis by (simp add: listItems_def consistent_no_run)
next
  case (Some r)
  then have "map it_itemIndex (items_of db rid) = map int [0..<length (items_of db rid)]"
    using consistent_run [OF assms] by (auto simp: run_consistent_def)
  then have "sorted (map it_itemIndex (items_of db rid))"
    by (simp add: sorted_map sorted_wrt_iff_nth_less)
  then show ?thesis by (simp add: listItems_def sort_key_id_if_sorted)
qed

lemma consistent_progress: "run_consistent db r \<Longrightarrow> run_progress_ok r"
  by (simp add: run_consistent_def run_progress_ok_def)

text \<open>The results of a run are those of its completed items, in order.\<close>

lemma item_result:
  "items_valid (md_items db) \<Longrightarrow> i \<in> set (items_of db rid) \<Longrightarrow>
   it_resultJson i \<noteq> None \<longleftrightarrow> it_status i = ItemCompleted"
  by (auto simp: items_valid_def item_result_ok_def items_of_def list_all_iff)

lemma map_filter_none: "(\<And>x. x \<in> set xs \<Longrightarrow> f x = None) \<Longrightarrow> List.map_filter f xs = []"
  by (induction xs) (auto simp: List.map_filter_def)

lemma map_filter_all: "(\<And>x. x \<in> set xs \<Longrightarrow> f x \<noteq> None) \<Longrightarrow> List.map_filter f xs = map (the \<circ> f) xs"
  by (induction xs) (auto simp: List.map_filter_def)

lemma map_filter_append [simp]: "List.map_filter f (xs @ ys) = List.map_filter f xs @ List.map_filter f ys"
  by (simp add: List.map_filter_def)

lemma results_consistent:
  assumes db: "db_consistent db" and r: "getRunById db rid = Some r"
  shows "results db rid = map (the \<circ> it_resultJson) (take (nat (mr_nextIndex r)) (items_of db rid)) \<and>
    mr_nextIndex r = int (length (results db rid)) \<and> length (results db rid) \<le> length (items_of db rid)"
proof -
  let ?is = "items_of db rid" and ?k = "nat (mr_nextIndex r)"
  have c: "run_consistent db r" and id: "mr_id r = rid" using consistent_run [OF db r] by auto
  have valid: "items_valid (md_items db)" using db by (simp add: db_consistent_def)
  have k: "?k \<le> length ?is" "int ?k = mr_nextIndex r" using c id by (auto simp: run_consistent_def)
  have status: "it_resultJson (?is ! j) \<noteq> None \<longleftrightarrow> j < ?k" if "j < length ?is" for j
    using c id item_result [OF valid nth_mem [OF that]] items_of_index [OF c] that k(2)
    by (auto simp: run_consistent_def)
  have "List.map_filter it_resultJson (take ?k ?is) = map (the \<circ> it_resultJson) (take ?k ?is)"
    by (rule map_filter_all) (use status k(1) in \<open>auto simp: in_set_conv_nth\<close>)
  moreover have "it_resultJson x = None" if "x \<in> set (drop ?k ?is)" for x
  proof -
    from that obtain j where "j < length ?is - ?k" "x = ?is ! (?k + j)" by (auto simp: in_set_conv_nth)
    then show ?thesis using status [of "?k + j"] by simp
  qed
  then have "List.map_filter it_resultJson (drop ?k ?is) = []" by (rule map_filter_none)
  ultimately have "results db rid = map (the \<circ> it_resultJson) (take ?k ?is)"
    unfolding results_def listItems_consistent [OF db]
    by (metis append.right_neutral append_take_drop_id map_filter_append)
  with k show ?thesis by simp
qed

lemma recorded_item:
  assumes db: "db_consistent db" and r: "getRunById db rid = Some r" and k: "k < length (results db rid)"
  defines "i \<equiv> items_of db rid ! k"
  shows "i \<in> set (items_of db rid) \<and> it_itemIndex i = int k \<and> it_resultJson i = Some (results db rid ! k)"
proof -
  have c: "run_consistent db r" and id: "mr_id r = rid" using consistent_run [OF db r] by auto
  have res: "results db rid = map (the \<circ> it_resultJson) (take (nat (mr_nextIndex r)) (items_of db rid))"
    and n: "mr_nextIndex r = int (length (results db rid))" "length (results db rid) \<le> length (items_of db rid)"
    using results_consistent [OF db r] by blast+
  have k': "k < length (items_of db rid)" using k n by simp
  have idx: "it_itemIndex i = int k" using items_of_index [OF c] k' id by (simp add: i_def)
  moreover have mem: "i \<in> set (items_of db rid)" using k' by (simp add: i_def)
  moreover have "it_status i = ItemCompleted" using c id mem idx k n(1) by (auto simp: run_consistent_def)
  then have "it_resultJson i \<noteq> None" using item_result [of db i rid] db mem by (simp add: db_consistent_def)
  moreover have "results db rid ! k = the (it_resultJson i)"
    using k n(1) k' by (subst res) (simp add: i_def)
  ultimately show ?thesis by auto
qed

section \<open>What the store promises\<close>

text \<open>
  Seen from outside, a run is a log: its frozen items and the results recorded so far. A result is only
  accepted for the item that follows the recorded ones.
\<close>

record run_log =
  lg_instanceId :: string
  lg_turnId :: string
  lg_status :: mapped_run_status
  lg_items :: "(string \<times> string \<times> json) list"
  lg_results :: "json list"

type_synonym run_logs = "string \<Rightarrow> run_log option"

definition log_of :: "mapped_db \<Rightarrow> mapped_run \<Rightarrow> run_log" where
  "log_of db r =
     \<lparr>lg_instanceId = mr_instanceId r, lg_turnId = mr_turnId r, lg_status = mr_status r,
      lg_items = map (\<lambda>i. (it_itemKey i, it_label i, it_itemJson i)) (listItems db (mr_id r)),
      lg_results = results db (mr_id r)\<rparr>"

definition run_logs :: "mapped_db \<Rightarrow> run_logs" where
  "run_logs db rid = map_option (log_of db) (getRunById db rid)"

definition spec_create :: "run_logs \<Rightarrow> create_mapped_run \<Rightarrow> run_logs option" where
  "spec_create A inp =
     (if cm_id inp \<in> dom A \<or>
         cm_status inp = RunActive \<and> (\<exists>l \<in> ran A. lg_status l = RunActive \<and> lg_instanceId l = cm_instanceId inp)
      then None
      else Some (A(cm_id inp \<mapsto>
        \<lparr>lg_instanceId = cm_instanceId inp, lg_turnId = cm_turnId inp, lg_status = cm_status inp,
         lg_items = map (\<lambda>i. (fi_itemKey i, fi_label i, fi_itemJson i)) (cm_items inp), lg_results = []\<rparr>)))"

definition spec_complete :: "run_logs \<Rightarrow> complete_mapped_item \<Rightarrow> run_logs option" where
  "spec_complete A inp =
     (case A (co_runId inp) of
        Some l \<Rightarrow>
          if lg_status l = RunActive \<and> co_itemIndex inp = int (length (lg_results l))
          then Some (A(co_runId inp \<mapsto> l\<lparr>lg_results := lg_results l @ [co_resultJson inp],
                 lg_status := if Suc (length (lg_results l)) = length (lg_items l) then RunCompleted else RunActive\<rparr>))
          else None
      | None \<Rightarrow> None)"

definition spec_abort :: "run_logs \<Rightarrow> string \<Rightarrow> run_logs" where
  "spec_abort A instanceId = map_option (\<lambda>l. if lg_instanceId l = instanceId \<and> lg_status l = RunActive
     then l\<lparr>lg_status := RunAborted\<rparr> else l) \<circ> A"

fun spec_write :: "string \<Rightarrow> run_logs \<Rightarrow> mapped_run_write \<Rightarrow> run_logs option" where
  "spec_write instanceId A (CreateMappedRun inp) = spec_create A inp"
| "spec_write instanceId A (CompleteMappedItem inp) = spec_complete A inp"
| "spec_write instanceId A AbortActiveMappedRun = Some (spec_abort A instanceId)"

text \<open>What the engine asks to be created: items numbered in order with different keys, and an active run
  exactly when there is an item to run.\<close>

definition frozen_run :: "create_mapped_run \<Rightarrow> bool" where
  "frozen_run inp \<longleftrightarrow> map fi_itemIndex (cm_items inp) = map int [0..<length (cm_items inp)] \<and>
     distinct (map fi_itemKey (cm_items inp)) \<and>
     cm_status inp = (if cm_items inp = [] then RunCompleted else RunActive)"

fun frozen_write :: "mapped_run_write \<Rightarrow> bool" where
  "frozen_write (CreateMappedRun inp) = frozen_run inp"
| "frozen_write _ = True"

subsection \<open>Creating a run\<close>

lemma new_row_simps [simp]:
  "mr_id (new_run ts inp) = cm_id inp" "mr_instanceId (new_run ts inp) = cm_instanceId inp"
  "mr_turnId (new_run ts inp) = cm_turnId inp" "mr_status (new_run ts inp) = cm_status inp"
  "it_runId (new_item inp f) = cm_id inp" "it_itemIndex (new_item inp f) = fi_itemIndex f"
  "it_resultJson (new_item inp f) = None" "it_itemKey (new_item inp f) = fi_itemKey f"
  "it_label (new_item inp f) = fi_label f" "it_itemJson (new_item inp f) = fi_itemJson f"
  by (simp_all add: new_run_def new_item_def)

lemma items_valid_take: "items_valid (xs @ ys) \<Longrightarrow> items_valid xs"
  by (simp add: items_valid_def)

lemma insert_items_ok:
  "items_valid (md_items db @ map (new_item inp) fs) \<Longrightarrow>
   set (map it_runId (md_items db)) \<subseteq> set (map mr_id (md_runs db)) \<Longrightarrow> cm_id inp \<in> mr_id ` set (md_runs db) \<Longrightarrow>
   insert_items inp fs db = Inr (db\<lparr>md_items := md_items db @ map (new_item inp) fs\<rparr>)"
proof (induction fs arbitrary: db)
  case (Cons f fs)
  let ?db = "db\<lparr>md_items := md_items db @ [new_item inp f]\<rparr>"
  have "items_valid (md_items db @ [new_item inp f])"
    using Cons.prems(1) items_valid_take [of "md_items db @ [new_item inp f]" "map (new_item inp) fs"] by simp
  then have "set_items db (md_items db @ [new_item inp f]) = Inr ?db"
    using Cons.prems(2,3) by (auto simp: set_items_def new_item_def)
  moreover have "insert_items inp fs ?db = Inr (?db\<lparr>md_items := md_items ?db @ map (new_item inp) fs\<rparr>)"
    by (rule Cons.IH) (use Cons.prems in \<open>auto simp: new_item_def\<close>)
  ultimately show ?case by simp
qed simp

lemma new_items_disjoint:
  assumes "cm_id inp \<notin> it_runId ` set is"
  shows "(\<lambda>i. (it_runId i, g i)) ` set is \<inter> (\<lambda>i. (it_runId i, g i)) ` set (map (new_item inp) fs) = {}"
proof -
  have "\<forall>i \<in> set is. it_runId i \<noteq> cm_id inp" using assms by (metis image_eqI)
  then show ?thesis by (auto simp: new_item_def)
qed

lemma frozen_items_valid:
  assumes "items_valid is" "frozen_run inp" "cm_id inp \<notin> it_runId ` set is"
  shows "items_valid (is @ map (new_item inp) (cm_items inp))"
proof -
  let ?new = "map (new_item inp) (cm_items inp)"
  have idx: "map (\<lambda>i. (it_runId i, it_itemIndex i)) ?new = map (Pair (cm_id inp)) (map fi_itemIndex (cm_items inp))"
    and key: "map (\<lambda>i. (it_runId i, it_itemKey i)) ?new = map (Pair (cm_id inp)) (map fi_itemKey (cm_items inp))"
    by (simp_all add: new_item_def)
  have "distinct (map fi_itemIndex (cm_items inp))" "distinct (map fi_itemKey (cm_items inp))"
    using assms(2) by (auto simp: frozen_run_def distinct_map)
  then have "distinct (map (\<lambda>i. (it_runId i, it_itemIndex i)) ?new)" "distinct (map (\<lambda>i. (it_runId i, it_itemKey i)) ?new)"
    unfolding idx key by (simp_all add: distinct_map inj_on_def)
  moreover have "list_all item_result_ok ?new" by (simp add: list_all_iff item_result_ok_def new_item_def)
  ultimately show ?thesis
    using assms(1) new_items_disjoint [OF assms(3), of it_itemIndex "cm_items inp"]
      new_items_disjoint [OF assms(3), of it_itemKey "cm_items inp"]
    by (simp add: items_valid_def image_image)
qed

lemma find_append_single: "find P (xs @ [x]) = (case find P xs of None \<Rightarrow> if P x then Some x else None | r \<Rightarrow> r)"
  by (induction xs) auto

text \<open>A run is unaffected by writes that keep its items.\<close>

lemma same_items:
  assumes "items_of db' rid = items_of db rid"
  shows "results db' rid = results db rid" "listItems db' rid = listItems db rid"
  by (simp_all add: results_def listItems_def assms)

lemma run_consistent_cong: "items_of db' (mr_id r) = items_of db (mr_id r) \<Longrightarrow> run_consistent db' r = run_consistent db r"
  by (simp add: run_consistent_def)

lemma log_of_cong: "items_of db' (mr_id r) = items_of db (mr_id r) \<Longrightarrow> log_of db' r = log_of db r"
  using same_items [of db' "mr_id r" db] by (simp add: log_of_def)

lemma run_logs_Some:
  "runs_valid (md_runs db) \<Longrightarrow> run_logs db rid = Some l \<longleftrightarrow> (\<exists>r \<in> set (md_runs db). mr_id r = rid \<and> l = log_of db r)"
  by (auto simp: run_logs_def getRunById_Some)

lemma ran_run_logs: "runs_valid (md_runs db) \<Longrightarrow> ran (run_logs db) = log_of db ` set (md_runs db)"
  by (auto simp: ran_def run_logs_Some)

lemma dom_run_logs: "dom (run_logs db) = mr_id ` set (md_runs db)"
  using getRunById_None [of db] by (auto simp del: not_None_eq simp: run_logs_def dom_def)

lemma spec_create_granted:
  assumes "runs_valid (md_runs db)" "frozen_run inp"
  shows "spec_create (run_logs db) inp \<noteq> None \<longleftrightarrow> runs_valid (md_runs db @ [new_run ts inp])"
proof -
  have "distinct (map mr_id (md_runs db @ [new_run ts inp])) \<longleftrightarrow> cm_id inp \<notin> dom (run_logs db)"
    using assms(1) by (auto simp: runs_valid_def dom_run_logs new_run_def)
  moreover have "distinct (active_instances (md_runs db @ [new_run ts inp])) \<longleftrightarrow>
      \<not> (cm_status inp = RunActive \<and> (\<exists>l \<in> ran (run_logs db). lg_status l = RunActive \<and> lg_instanceId l = cm_instanceId inp))"
    using assms(1) by (auto simp: runs_valid_def active_instances_def ran_run_logs [OF assms(1)] log_of_def image_iff)
  moreover have "list_all run_progress_ok (md_runs db @ [new_run ts inp])"
    using assms(1) by (simp add: runs_valid_def run_progress_ok_def new_run_def)
  ultimately show ?thesis by (simp add: spec_create_def runs_valid_def)
qed

lemma items_of_create:
  assumes "set (map it_runId (md_items db)) \<subseteq> set (map mr_id (md_runs db))" "cm_id inp \<notin> mr_id ` set (md_runs db)"
  shows "items_of \<lparr>md_runs = rs, md_items = md_items db @ map (new_item inp) (cm_items inp)\<rparr> rid =
    (if rid = cm_id inp then map (new_item inp) (cm_items inp) else items_of db rid)"
proof -
  have "filter (\<lambda>i. it_runId i = cm_id inp) (md_items db) = []"
    using assms by (force simp: filter_empty_conv)
  then show ?thesis by (auto simp: items_of_def filter_map o_def)
qed

lemma new_run_consistent:
  assumes "frozen_run inp" "items_of db (cm_id inp) = map (new_item inp) (cm_items inp)"
  shows "run_consistent db (new_run ts inp)"
proof -
  have "map it_itemIndex (map (new_item inp) (cm_items inp)) = map fi_itemIndex (cm_items inp)"
    by (simp add: new_item_def)
  moreover have "fi_itemIndex ` set (cm_items inp) = int ` {0..<length (cm_items inp)}"
    using assms(1) by (metis frozen_run_def list.set_map set_upt)
  then have "\<forall>i \<in> set (cm_items inp). 0 \<le> fi_itemIndex i" by (metis imageE image_eqI of_nat_0_le_iff)
  ultimately show ?thesis
    using assms by (auto simp: run_consistent_def new_run_def frozen_run_def new_item_def o_def)
qed

lemma create_refines:
  assumes db: "db_consistent db" and inp: "frozen_run inp"
  shows "case createMappedRun ts db inp of
      Inl _ \<Rightarrow> spec_create (run_logs db) inp = None
    | Inr (_, db') \<Rightarrow> db_consistent db' \<and> spec_create (run_logs db) inp = Some (run_logs db')"
proof (cases "runs_valid (md_runs db @ [new_run ts inp])")
  case False
  then show ?thesis
    using spec_create_granted [of db inp ts] db inp by (simp add: createMappedRun_def set_runs_def db_consistent_def)
next
  case True
  let ?new = "map (new_item inp) (cm_items inp)"
  let ?db' = "\<lparr>md_runs = md_runs db @ [new_run ts inp], md_items = md_items db @ ?new\<rparr>"
  have fresh: "cm_id inp \<notin> mr_id ` set (md_runs db)" using True by (auto simp: runs_valid_def new_run_def)
  have fk: "set (map it_runId (md_items db)) \<subseteq> set (map mr_id (md_runs db))"
    and runs: "runs_valid (md_runs db)" using db by (auto simp: db_consistent_def)
  have valid: "items_valid (md_items db @ ?new)"
    by (rule frozen_items_valid [OF _ inp]) (use db fk fresh in \<open>auto simp: db_consistent_def\<close>)
  have created: "createMappedRun ts db inp = Inr (new_run ts inp, ?db')"
    using insert_items_ok [of "db\<lparr>md_runs := md_runs db @ [new_run ts inp]\<rparr>" inp "cm_items inp"] True valid fk
    by (cases db) (auto simp: createMappedRun_def set_runs_def)
  note items = items_of_create [OF fk fresh]
  have old: "items_of ?db' (mr_id r) = items_of db (mr_id r)" if "r \<in> set (md_runs db)" for r
  proof -
    have "mr_id r \<noteq> cm_id inp" using that fresh by (metis image_eqI)
    then show ?thesis by (simp add: items)
  qed
  have "run_consistent ?db' (new_run ts inp)"
    by (rule new_run_consistent [OF inp]) (simp add: items)
  moreover have "run_consistent ?db' r" if "r \<in> set (md_runs db)" for r
    using run_consistent_cong [OF old [OF that]] db that by (simp add: db_consistent_def list_all_iff)
  ultimately have cons: "db_consistent ?db'"
    using True valid fk by (auto simp: db_consistent_def list_all_iff)
  have "run_logs ?db' rid = ((run_logs db)(cm_id inp \<mapsto> log_of ?db' (new_run ts inp))) rid" for rid
  proof (cases "rid = cm_id inp")
    case True
    have "getRunById ?db' rid = Some (new_run ts inp)"
      using cons by (simp add: getRunById_Some db_consistent_def True)
    with True show ?thesis by (simp add: run_logs_def)
  next
    case False
    then have "getRunById ?db' rid = getRunById db rid" by (simp add: getRunById_def find_append_single split: option.split)
    moreover have "log_of ?db' r = log_of db r" if "getRunById db rid = Some r" for r
      by (rule log_of_cong [OF old]) (use that runs in \<open>simp add: getRunById_Some\<close>)
    ultimately show ?thesis using False by (cases "getRunById db rid") (auto simp: run_logs_def)
  qed
  then have "run_logs ?db' = (run_logs db)(cm_id inp \<mapsto> log_of ?db' (new_run ts inp))" by blast
  moreover have "log_of ?db' (new_run ts inp) = \<lparr>lg_instanceId = cm_instanceId inp, lg_turnId = cm_turnId inp,
      lg_status = cm_status inp, lg_items = map (\<lambda>i. (fi_itemKey i, fi_label i, fi_itemJson i)) (cm_items inp),
      lg_results = []\<rparr>"
  proof -
    have "List.map_filter it_resultJson ?new = []" by (rule map_filter_none) auto
    then show ?thesis by (simp add: log_of_def results_def listItems_consistent [OF cons] items)
  qed
  moreover have "spec_create (run_logs db) inp \<noteq> None" using spec_create_granted [OF runs inp] True by blast
  ultimately have "spec_create (run_logs db) inp = Some (run_logs ?db')"
    by (simp add: spec_create_def split: if_splits)
  with cons show ?thesis by (simp add: created)
qed

subsection \<open>Updating rows\<close>

lemma getRunById_map:
  "(\<And>r. mr_id (f r) = mr_id r) \<Longrightarrow> getRunById (db\<lparr>md_runs := map f (md_runs db)\<rparr>) rid = map_option f (getRunById db rid)"
  by (simp add: getRunById_def find_map_key)

lemma runs_valid_map:
  assumes "runs_valid rs" "\<And>r. mr_id (f r) = mr_id r" "\<And>r. mr_instanceId (f r) = mr_instanceId r"
    and "\<And>r. r \<in> set rs \<Longrightarrow> mr_status (f r) = RunActive \<Longrightarrow> mr_status r = RunActive"
    and "\<And>r. r \<in> set rs \<Longrightarrow> run_progress_ok (f r)"
  shows "runs_valid (map f rs)"
proof -
  have "filter (\<lambda>r. mr_status (f r) = RunActive) rs =
      filter (\<lambda>r. mr_status (f r) = RunActive) (filter (\<lambda>r. mr_status r = RunActive) rs)"
    using assms(4) by (auto intro: filter_cong)
  then have "active_instances (map f rs) =
      map mr_instanceId (filter (\<lambda>r. mr_status (f r) = RunActive) (filter (\<lambda>r. mr_status r = RunActive) rs))"
    by (simp add: active_instances_def filter_map o_def assms(3))
  then have "distinct (active_instances rs) \<Longrightarrow> distinct (active_instances (map f rs))"
    by (simp add: active_instances_def distinct_map_filter del: filter_filter)
  then show ?thesis using assms by (auto simp: runs_valid_def list_all_iff o_def)
qed

lemma run_map_consistent:
  assumes "run_consistent db r" "items_of db' (mr_id r) = items_of db (mr_id r)" "mr_id r' = mr_id r"
    "mr_instanceId r' = mr_instanceId r" "mr_itemCount r' = mr_itemCount r" "mr_nextIndex r' = mr_nextIndex r"
    "mr_status r' = RunCompleted \<longleftrightarrow> mr_status r = RunCompleted"
  shows "run_consistent db' r'"
  using assms by (simp add: run_consistent_def)

lemma abort_refines:
  assumes db: "db_consistent db"
  shows "\<exists>n db'. abortActiveByInstance ts db inst = Inr (n, db') \<and> db_consistent db' \<and>
    run_logs db' = spec_abort (run_logs db) inst"
proof -
  let ?f = "abort_run ts inst"
  let ?db' = "db\<lparr>md_runs := map ?f (md_runs db)\<rparr>"
  have f: "mr_id (?f r) = mr_id r" "mr_instanceId (?f r) = mr_instanceId r" "mr_itemCount (?f r) = mr_itemCount r"
    "mr_nextIndex (?f r) = mr_nextIndex r" "mr_status (?f r) = RunCompleted \<longleftrightarrow> mr_status r = RunCompleted"
    "mr_turnId (?f r) = mr_turnId r" for r
    by (auto simp: abort_run_def)
  have valid: "runs_valid (map ?f (md_runs db))"
    by (rule runs_valid_map)
      (use db in \<open>auto simp: f db_consistent_def runs_valid_def list_all_iff run_progress_ok_def abort_run_def split: if_splits\<close>)
  have items: "items_of ?db' rid = items_of db rid" for rid by (simp add: items_of_def)
  have "run_consistent ?db' (?f r)" if "r \<in> set (md_runs db)" for r
    by (rule run_map_consistent [of db r]) (use db that in \<open>auto simp: items f db_consistent_def list_all_iff\<close>)
  then have cons: "db_consistent ?db'" using valid db by (auto simp: db_consistent_def list_all_iff f image_image)
  have "log_of ?db' (?f r) = (if lg_instanceId (log_of db r) = inst \<and> lg_status (log_of db r) = RunActive
      then (log_of db r)\<lparr>lg_status := RunAborted\<rparr> else log_of db r)" for r
    using same_items [OF items] by (simp add: log_of_def f abort_run_def)
  then have "run_logs ?db' rid = spec_abort (run_logs db) inst rid" for rid
    by (simp add: run_logs_def spec_abort_def getRunById_map [OF f(1)] option.map_comp o_def)
  then show ?thesis using valid cons by (auto simp: abortActiveByInstance_def set_runs_def)
qed

subsection \<open>Completing an item\<close>

lemma complete_row_simps [simp]:
  "it_runId (complete_row ts inp i) = it_runId i" "it_instanceId (complete_row ts inp i) = it_instanceId i"
  "it_itemIndex (complete_row ts inp i) = it_itemIndex i" "it_itemKey (complete_row ts inp i) = it_itemKey i"
  "it_label (complete_row ts inp i) = it_label i" "it_itemJson (complete_row ts inp i) = it_itemJson i"
  by (simp_all add: complete_row_def)

lemma advance_run_simps [simp]:
  "mr_id (advance_run ts rid n c r) = mr_id r" "mr_instanceId (advance_run ts rid n c r) = mr_instanceId r"
  "mr_itemCount (advance_run ts rid n c r) = mr_itemCount r" "mr_turnId (advance_run ts rid n c r) = mr_turnId r"
  by (simp_all add: advance_run_def)

definition current_item :: "mapped_run \<Rightarrow> complete_mapped_item \<Rightarrow> bool" where
  "current_item r inp \<longleftrightarrow> mr_id r = co_runId inp \<and> mr_status r = RunActive \<and> mr_nextIndex r = co_itemIndex inp"

lemma current_selected:
  assumes c: "run_consistent db r" and cur: "current_item r inp"
  defines "is \<equiv> items_of db (mr_id r)" and "k \<equiv> nat (co_itemIndex inp)"
  shows "k < length is" "int k = co_itemIndex inp" "j < length is \<Longrightarrow> item_selected inp (is ! j) \<longleftrightarrow> j = k"
    and "length (filter (item_selected inp) (md_items db)) = 1"
proof -
  show k: "k < length is" "int k = co_itemIndex inp"
    using c cur by (auto simp: run_consistent_def current_item_def is_def k_def)
  show sel: "item_selected inp (is ! j) \<longleftrightarrow> j = k" if "j < length is" for j
  proof -
    have mem: "is ! j \<in> set (items_of db (mr_id r))" using that by (simp add: is_def)
    then have "it_runId (is ! j) = mr_id r" by (simp add: items_of_def)
    moreover have "it_status (is ! j) = ItemPending \<longleftrightarrow> \<not> it_itemIndex (is ! j) < mr_nextIndex r"
      using c mem by (cases "it_status (is ! j)") (auto simp: run_consistent_def)
    moreover have "it_itemIndex (is ! j) = int j" using items_of_index [OF c] that by (simp add: is_def)
    ultimately show ?thesis using k(2) cur by (auto simp: item_selected_def current_item_def)
  qed
  have "filter (item_selected inp) (md_items db) = filter (item_selected inp) is"
    using cur by (auto simp: is_def items_of_def item_selected_def current_item_def intro!: filter_cong)
  also have "length \<dots> = card {j. j < length is \<and> item_selected inp (is ! j)}" by (rule length_filter_conv_card)
  also have "{j. j < length is \<and> item_selected inp (is ! j)} = {k}" using sel k(1) by auto
  finally show "length (filter (item_selected inp) (md_items db)) = 1" by simp
qed

lemma complete_row_ok: "item_result_ok i \<Longrightarrow> item_result_ok (complete_row ts inp i)"
  by (simp add: item_result_ok_def complete_row_def)

lemma complete_items_valid: "items_valid is \<Longrightarrow> items_valid (map (complete_row ts inp) is)"
  by (auto simp: items_valid_def o_def list_all_iff complete_row_ok)

lemma items_of_complete:
  "items_of (db\<lparr>md_items := map (complete_row ts inp) (md_items db), md_runs := rs\<rparr>) rid =
     map (complete_row ts inp) (items_of db rid)"
  by (simp add: items_of_def filter_map o_def)

lemma complete_current:
  assumes c: "run_consistent db r" and cur: "current_item r inp"
  shows "map (complete_row ts inp) (items_of db (mr_id r)) =
    (items_of db (mr_id r))[nat (co_itemIndex inp) := complete_row ts inp (items_of db (mr_id r) ! nat (co_itemIndex inp))]"
  by (rule nth_equalityI) (use current_selected(3) [OF c cur] in \<open>auto simp: nth_list_update complete_row_def\<close>)

lemma complete_other: "rid \<noteq> co_runId inp \<Longrightarrow> map (complete_row ts inp) (items_of db rid) = items_of db rid"
  by (rule map_idI) (auto simp: items_of_def complete_row_def item_selected_def)

text \<open>The store after a completion, and the completed run in it.\<close>

definition completed_db :: "string \<Rightarrow> mapped_db \<Rightarrow> complete_mapped_item \<Rightarrow> int \<Rightarrow> mapped_db" where
  "completed_db ts db inp n = db\<lparr>md_items := map (complete_row ts inp) (md_items db),
     md_runs := map (advance_run ts (co_runId inp) (co_itemIndex inp + 1) n) (md_runs db)\<rparr>"

lemma items_of_completed:
  "items_of (completed_db ts db inp n) rid = map (complete_row ts inp) (items_of db rid)"
  unfolding completed_db_def by (rule items_of_complete)

lemma completed_run_consistent:
  assumes c: "run_consistent db r" and cur: "current_item r inp"
  shows "run_consistent (completed_db ts db inp (mr_itemCount r))
    (advance_run ts (co_runId inp) (co_itemIndex inp + 1) (mr_itemCount r) r)"
proof -
  let ?is = "items_of db (mr_id r)" and ?k = "nat (co_itemIndex inp)"
  note sel = current_selected [OF c cur]
  have "it_status (complete_row ts inp i) = ItemCompleted \<longleftrightarrow> it_itemIndex i < co_itemIndex inp + 1"
    if i: "i \<in> set ?is" for i
  proof -
    obtain j where j: "j < length ?is" "i = ?is ! j" using i unfolding in_set_conv_nth by blast
    then show ?thesis
      using c cur i sel(2) sel(3) [OF j(1)] items_of_index [OF c j(1)]
      by (auto simp: run_consistent_def current_item_def complete_row_def)
  qed
  then show ?thesis
    using c cur sel(1,2) by (auto simp: run_consistent_def items_of_completed advance_run_def current_item_def o_def)
qed

lemma completed_consistent:
  assumes db: "db_consistent db" and r: "getRunById db (co_runId inp) = Some r" and cur: "current_item r inp"
  shows "db_consistent (completed_db ts db inp (mr_itemCount r)) \<and>
    completeItem ts db inp = Inr (getRunById (completed_db ts db inp (mr_itemCount r)) (co_runId inp),
      completed_db ts db inp (mr_itemCount r))"
proof -
  let ?f = "advance_run ts (co_runId inp) (co_itemIndex inp + 1) (mr_itemCount r)"
  let ?db' = "completed_db ts db inp (mr_itemCount r)"
  have runs: "runs_valid (md_runs db)" and fk: "set (map it_runId (md_items db)) \<subseteq> set (map mr_id (md_runs db))"
    and items: "items_valid (map (complete_row ts inp) (md_items db))"
    using db by (auto simp: db_consistent_def complete_items_valid)
  have c: "run_consistent db r" using consistent_run [OF db r] by simp
  have only: "x = r" if "x \<in> set (md_runs db)" "mr_id x = co_runId inp" for x
    using r that by (metis getRunById_Some [OF runs] option.inject)
  have each: "run_consistent ?db' (?f x) \<and> (mr_status (?f x) = RunActive \<longrightarrow> mr_status x = RunActive)"
    if "x \<in> set (md_runs db)" for x
  proof (cases "mr_id x = co_runId inp")
    case True
    then show ?thesis using only [OF that] completed_run_consistent [OF c cur] cur by (simp add: current_item_def)
  next
    case False
    then have "?f x = x" by (simp add: advance_run_def)
    moreover have "run_consistent db x" using db that by (simp add: db_consistent_def list_all_iff)
    ultimately show ?thesis
      using run_consistent_cong [of ?db' x db] complete_other [OF False] by (simp add: items_of_completed)
  qed
  have valid: "runs_valid (map ?f (md_runs db))"
    by (rule runs_valid_map [OF runs]) (use each consistent_progress in auto)
  have fk': "it_runId ` complete_row ts inp ` set (md_items db) \<subseteq> mr_id ` set (md_runs db)"
    using fk by (simp add: image_image)
  have "db_consistent ?db'"
    using valid items fk' each by (auto simp: db_consistent_def list_all_iff completed_db_def image_image)
  then show ?thesis
    using r cur valid items fk current_selected(4) [OF c cur]
    by (simp add: completeItem_def set_items_def set_runs_def completed_db_def current_item_def Let_def)
qed

lemma completed_results:
  assumes db: "db_consistent db" and r: "getRunById db (co_runId inp) = Some r" and cur: "current_item r inp"
  shows "results (completed_db ts db inp (mr_itemCount r)) (co_runId inp) = results db (co_runId inp) @ [co_resultJson inp]"
proof -
  let ?db' = "completed_db ts db inp (mr_itemCount r)" and ?is = "items_of db (co_runId inp)"
    and ?k = "nat (co_itemIndex inp)"
  have c: "run_consistent db r" and id: "mr_id r = co_runId inp" using consistent_run [OF db r] by auto
  note sel = current_selected [OF c cur, unfolded id]
  have db': "db_consistent ?db'" using completed_consistent [OF db r cur] by blast
  have "getRunById ?db' (co_runId inp) =
      Some (advance_run ts (co_runId inp) (co_itemIndex inp + 1) (mr_itemCount r) r)"
    unfolding completed_db_def using r
    by (subst getRunById_def) (simp add: find_map_key getRunById_def)
  from conjunct1 [OF results_consistent [OF db' this]]
  have "results ?db' (co_runId inp) = map (the \<circ> it_resultJson) (take (nat (co_itemIndex inp + 1)) (items_of ?db' (co_runId inp)))"
    by (simp add: advance_run_def id)
  also have "nat (co_itemIndex inp + 1) = Suc ?k" using sel(2) by linarith
  finally have "results ?db' (co_runId inp) = map (the \<circ> it_resultJson) (take (Suc ?k) (items_of ?db' (co_runId inp)))"
    .
  also have "\<dots> = map (the \<circ> it_resultJson) (take ?k ?is) @ [the (it_resultJson (complete_row ts inp (?is ! ?k)))]"
    using complete_current [OF c cur, of ts] sel(1) by (simp add: items_of_completed id take_Suc_conv_app_nth)
  also have "map (the \<circ> it_resultJson) (take ?k ?is) = results db (co_runId inp)"
    using conjunct1 [OF results_consistent [OF db r]] cur by (simp add: current_item_def)
  finally show ?thesis using sel(1,3) by (simp add: complete_row_def)
qed

lemma complete_refines:
  assumes db: "db_consistent db"
  shows "case completeItem ts db inp of
      Inl _ \<Rightarrow> spec_complete (run_logs db) inp = None
    | Inr (_, db') \<Rightarrow> db_consistent db' \<and> spec_complete (run_logs db) inp = Some (run_logs db')"
proof (cases "getRunById db (co_runId inp)")
  case None
  then show ?thesis by (simp add: completeItem_def spec_complete_def run_logs_def)
next
  case (Some r)
  let ?db' = "completed_db ts db inp (mr_itemCount r)" and ?rid = "co_runId inp"
  have c: "run_consistent db r" and id: "mr_id r = ?rid" using consistent_run [OF db Some] by auto
  note len = conjunct1 [OF conjunct2 [OF results_consistent [OF db Some]]]
  show ?thesis
  proof (cases "current_item r inp")
    case False
    then show ?thesis using Some id len
      by (auto simp: completeItem_def spec_complete_def run_logs_def log_of_def current_item_def)
  next
    case True
    have db': "db_consistent ?db'" and granted: "completeItem ts db inp = Inr (getRunById ?db' ?rid, ?db')"
      using completed_consistent [OF db Some True] by auto
    have get: "getRunById ?db' rid = map_option (advance_run ts ?rid (co_itemIndex inp + 1) (mr_itemCount r)) (getRunById db rid)"
      for rid by (simp add: completed_db_def getRunById_def find_map_key)
    have "log_of ?db' x = log_of db x" if "mr_id x \<noteq> ?rid" for x
      by (rule log_of_cong) (simp add: items_of_completed complete_other [OF that])
    moreover have "advance_run ts ?rid n m x = x" if "mr_id x \<noteq> ?rid" for n m x using that by (simp add: advance_run_def)
    ultimately have other: "run_logs ?db' rid = run_logs db rid" if "rid \<noteq> ?rid" for rid
      using that consistent_run [OF db, of rid] by (cases "getRunById db rid") (auto simp: run_logs_def get)
    have count: "mr_itemCount r = int (length (items_of db ?rid))" using c id by (simp add: run_consistent_def)
    have "run_logs ?db' ?rid = Some ((log_of db r)\<lparr>lg_results := results db ?rid @ [co_resultJson inp],
        lg_status := if Suc (length (results db ?rid)) = length (items_of db ?rid) then RunCompleted else RunActive\<rparr>)"
    proof -
      have "co_itemIndex inp + 1 = mr_itemCount r \<longleftrightarrow> Suc (length (results db ?rid)) = length (items_of db ?rid)"
        using True len count by (auto simp: current_item_def)
      moreover have "run_logs ?db' ?rid =
          Some (log_of ?db' (advance_run ts ?rid (co_itemIndex inp + 1) (mr_itemCount r) r))"
        by (simp add: run_logs_def get Some)
      ultimately show ?thesis
        using completed_results [OF db Some True, of ts] id
        by (simp add: log_of_def listItems_consistent [OF db] listItems_consistent [OF db']
            items_of_completed advance_run_def o_def)
    qed
    moreover have "spec_complete (run_logs db) inp = Some ((run_logs db)(?rid \<mapsto> (log_of db r)
        \<lparr>lg_results := results db ?rid @ [co_resultJson inp],
         lg_status := if Suc (length (results db ?rid)) = length (items_of db ?rid) then RunCompleted else RunActive\<rparr>))"
      using True len id
      by (simp add: spec_complete_def run_logs_def Some log_of_def current_item_def listItems_consistent [OF db])
    ultimately have "spec_complete (run_logs db) inp = Some (run_logs ?db')"
      using other by (auto simp: fun_eq_iff)
    then show ?thesis using db' by (simp add: granted)
  qed
qed

subsection \<open>Refinement of sequences of writes\<close>

text \<open>A store that refines its promise write by write refines it over every sequence of writes.\<close>

locale store_refinement =
  fixes invar :: "'db \<Rightarrow> bool" and abs :: "'db \<Rightarrow> 'a" and admissible :: "'w \<Rightarrow> bool"
    and exec :: "'db \<Rightarrow> 'w \<Rightarrow> 'db throws" and exec_all :: "'w list \<Rightarrow> 'db \<Rightarrow> 'db throws"
    and spec :: "'a \<Rightarrow> 'w \<Rightarrow> 'a option" and spec_all :: "'w list \<Rightarrow> 'a \<Rightarrow> 'a option"
  assumes exec_all: "exec_all [] db = Inr db" "exec_all (w # ws) db = throws_bind (exec db w) (exec_all ws)"
    and spec_all: "spec_all [] A = Some A" "spec_all (w # ws) A = Option.bind (spec A w) (spec_all ws)"
    and step: "invar db \<Longrightarrow> admissible w \<Longrightarrow>
      (case exec db w of Inl _ \<Rightarrow> spec (abs db) w = None | Inr db' \<Rightarrow> invar db' \<and> spec (abs db) w = Some (abs db'))"
begin

lemma refines_all:
  "invar db \<Longrightarrow> list_all admissible ws \<Longrightarrow>
   (case exec_all ws db of Inl _ \<Rightarrow> spec_all ws (abs db) = None
    | Inr db' \<Rightarrow> invar db' \<and> spec_all ws (abs db) = Some (abs db'))"
proof (induction ws arbitrary: db)
  case Nil
  then show ?case by (simp add: exec_all spec_all)
next
  case (Cons w ws)
  note this_step = step [OF Cons.prems(1), of w]
  show ?case
  proof (cases "exec db w")
    case (Inl e)
    then show ?thesis using this_step Cons.prems(2) by (simp add: exec_all spec_all)
  next
    case (Inr d)
    then have "invar d" "spec (abs db) w = Some (abs d)" using this_step Cons.prems(2) by auto
    then show ?thesis using Cons.IH [of d] Cons.prems(2) by (cases "exec_all ws d") (auto simp: exec_all spec_all Inr)
  qed
qed

lemma granted_iff:
  "invar db \<Longrightarrow> list_all admissible ws \<Longrightarrow> (\<exists>db'. exec_all ws db = Inr db') \<longleftrightarrow> spec_all ws (abs db) \<noteq> None"
  using refines_all [of db ws] by (cases "exec_all ws db") auto

lemma refines_granted:
  "invar db \<Longrightarrow> list_all admissible ws \<Longrightarrow> exec_all ws db = Inr db' \<Longrightarrow>
   invar db' \<and> spec_all ws (abs db) = Some (abs db')"
  using refines_all [of db ws] by simp

end

fun spec_writes :: "string \<Rightarrow> mapped_run_write list \<Rightarrow> run_logs \<Rightarrow> run_logs option" where
  "spec_writes instanceId [] A = Some A"
| "spec_writes instanceId (w # ws) A = Option.bind (spec_write instanceId A w) (spec_writes instanceId ws)"

interpretation mapped_store: store_refinement db_consistent run_logs frozen_write "commit_write ts instanceId"
    "commit_mapped_runs ts instanceId" "spec_write instanceId" "spec_writes instanceId"
  for ts instanceId
proof
  fix db w
  assume db: "db_consistent db" and w: "frozen_write w"
  show "case commit_write ts instanceId db w of Inl _ \<Rightarrow> spec_write instanceId (run_logs db) w = None
    | Inr db' \<Rightarrow> db_consistent db' \<and> spec_write instanceId (run_logs db) w = Some (run_logs db')"
  proof (cases w)
    case (CreateMappedRun inp)
    then show ?thesis using create_refines [OF db, of inp ts] w by (auto split: sum.splits)
  next
    case (CompleteMappedItem inp)
    then show ?thesis using complete_refines [OF db, of inp ts] by (auto split: sum.splits)
  next
    case AbortActiveMappedRun
    then show ?thesis using abort_refines [OF db, where ts = ts and inst = instanceId] by auto
  qed
qed simp_all

text \<open>Whatever is written, the results of a run are only added to.\<close>

definition extends :: "run_logs \<Rightarrow> run_logs \<Rightarrow> bool" where
  "extends A B \<longleftrightarrow> (\<forall>rid l. A rid = Some l \<longrightarrow> (\<exists>l'. B rid = Some l' \<and> lg_items l' = lg_items l \<and>
     prefix (lg_results l) (lg_results l') \<and> (lg_status l \<noteq> RunActive \<longrightarrow> l' = l)))"

lemma extends_refl: "extends A A"
  by (simp add: extends_def)

lemma extends_trans: "extends A B \<Longrightarrow> extends B C \<Longrightarrow> extends A C"
  unfolding extends_def by (fastforce intro: prefix_order.trans)

lemma extended_log:
  assumes "extends A B" "A rid = Some l"
  obtains l' where "B rid = Some l'" "lg_items l' = lg_items l" "prefix (lg_results l) (lg_results l')"
    "lg_status l \<noteq> RunActive \<Longrightarrow> l' = l"
  using assms by (auto simp: extends_def)

lemma spec_complete_Some:
  "spec_complete A inp = Some B \<longleftrightarrow> (\<exists>l. A (co_runId inp) = Some l \<and> lg_status l = RunActive \<and>
     co_itemIndex inp = int (length (lg_results l)) \<and>
     B = A(co_runId inp \<mapsto> l\<lparr>lg_results := lg_results l @ [co_resultJson inp],
       lg_status := if Suc (length (lg_results l)) = length (lg_items l) then RunCompleted else RunActive\<rparr>))"
  by (auto simp: spec_complete_def split: option.splits)

lemma spec_write_extends: "spec_write instanceId A w = Some B \<Longrightarrow> extends A B"
  by (cases w) (auto simp: extends_def spec_create_def spec_complete_def spec_abort_def split: option.splits if_splits)

lemma spec_writes_extends: "spec_writes instanceId ws A = Some B \<Longrightarrow> extends A B"
proof (induction ws arbitrary: A)
  case Nil
  then show ?case by (simp add: extends_refl)
next
  case (Cons w ws)
  then show ?case by (auto simp: bind_eq_Some_conv intro: extends_trans spec_write_extends)
qed

section \<open>Properties\<close>

text \<open>
  C20. The tables of mapped runs implement a log per run: over any sequence of the engine's writes, a
  commit succeeds exactly when every write is allowed by the log (a new run has a fresh id and no active
  run beside it, a result is for the first open item of an active run), it then leaves consistent
  tables, and what the tables hold is what the log says.
\<close>

theorem mapped_runs_implement_logs:
  assumes "db_consistent db" "list_all frozen_write ws"
  shows "case commit_mapped_runs ts instanceId ws db of
      Inl _ \<Rightarrow> spec_writes instanceId ws (run_logs db) = None
    | Inr db' \<Rightarrow> db_consistent db' \<and> spec_writes instanceId ws (run_logs db) = Some (run_logs db')"
  by (rule mapped_store.refines_all [OF assms])

text \<open>A store with a run of two items.\<close>

definition two_items :: create_mapped_run where
  "two_items = \<lparr>cm_id = ''r1'', cm_instanceId = ''p1'', cm_turnId = ''review'', cm_status = RunActive,
     cm_items = [\<lparr>fi_itemIndex = 0, fi_itemKey = ''a'', fi_label = ''A'', fi_itemJson = JNum 1\<rparr>,
                 \<lparr>fi_itemIndex = 1, fi_itemKey = ''b'', fi_label = ''B'', fi_itemJson = JNum 2\<rparr>]\<rparr>"

definition result_at :: "int \<Rightarrow> json \<Rightarrow> complete_mapped_item" where
  "result_at k v = \<lparr>co_runId = ''r1'', co_itemIndex = k, co_outcome = ''ok'', co_resultJson = v, co_turnRecordId = ''t''\<rparr>"

definition two_items_db :: mapped_db where
  "two_items_db = \<lparr>md_runs = [new_run ''t0'' two_items], md_items = map (new_item two_items) (cm_items two_items)\<rparr>"

lemma two_items_db_consistent: "db_consistent two_items_db"
  by code_simp

theorem mapped_runs_implement_logs_witness:
  "commit_mapped_runs ''t1'' ''p1'' [CompleteMappedItem (result_at 0 JNull), CompleteMappedItem (result_at 0 JNull)]
     two_items_db = Inl (''Mapped item 0 of run '' @ quoted ''r1'' @ '' is not current'') \<and>
   spec_writes ''p1'' [CompleteMappedItem (result_at 0 JNull), CompleteMappedItem (result_at 0 JNull)]
     (run_logs two_items_db) = None"
proof -
  let ?ws = "[CompleteMappedItem (result_at 0 JNull), CompleteMappedItem (result_at 0 JNull)]"
  have "commit_mapped_runs ''t1'' ''p1'' ?ws two_items_db = Inl (''Mapped item 0 of run '' @ quoted ''r1'' @ '' is not current'')"
    by code_simp
  then show ?thesis
    using mapped_runs_implement_logs [OF two_items_db_consistent, of ?ws "''p1''" "''t1''"] by simp
qed

text \<open>
  C21. The result of an item is final: once an item has been completed, no later writes, of whatever
  process and at whatever time, change its result, and every further completion of the same item is
  refused.
\<close>

theorem item_result_is_final:
  assumes db: "db_consistent db" and first: "completeItem ts db inp = Inr (run, db1)"
    and ws: "list_all frozen_write ws" and later: "commit_mapped_runs ts' instanceId ws db1 = Inr db2"
    and same: "co_runId again = co_runId inp" "co_itemIndex again = co_itemIndex inp"
  shows "results db2 (co_runId inp) ! nat (co_itemIndex inp) = co_resultJson inp \<and>
    map_option it_resultJson (getItem db2 (co_runId inp) (co_itemIndex inp)) = Some (Some (co_resultJson inp)) \<and>
    (\<exists>e. completeItem ts'' db2 again = Inl e)"
proof -
  let ?rid = "co_runId inp" and ?k = "nat (co_itemIndex inp)"
  have db1: "db_consistent db1" and spec: "spec_complete (run_logs db) inp = Some (run_logs db1)"
    using complete_refines [OF db, of inp ts] first by auto
  have db2: "db_consistent db2" and ext: "extends (run_logs db1) (run_logs db2)"
    using mapped_store.refines_granted [OF db1 ws later] spec_writes_extends by auto
  from spec obtain l l1 where l1: "run_logs db1 ?rid = Some l1" "lg_results l1 = l @ [co_resultJson inp]"
      and k: "co_itemIndex inp = int (length l)"
    by (auto simp: spec_complete_Some)
  from extended_log [OF ext l1(1)] l1(2)
  obtain l2 where l2: "run_logs db2 ?rid = Some l2" "prefix (l @ [co_resultJson inp]) (lg_results l2)" by metis
  then obtain r where r: "getRunById db2 ?rid = Some r" "lg_results l2 = results db2 ?rid"
    using consistent_run [OF db2] by (auto simp: run_logs_def log_of_def)
  have res: "?k < length (results db2 ?rid)" "results db2 ?rid ! ?k = co_resultJson inp"
    using l2 r k by (auto simp: prefix_def nth_append)
  let ?i = "items_of db2 ?rid ! ?k"
  have i: "?i \<in> set (items_of db2 ?rid)" "it_itemIndex ?i = co_itemIndex inp" "it_resultJson ?i = Some (co_resultJson inp)"
    using recorded_item [OF db2 r(1) res(1)] res k by auto
  then have "getItem db2 ?rid (co_itemIndex inp) = Some ?i"
    using db2 by (simp add: db_consistent_def getItem_Some)
  moreover have "\<exists>e. completeItem ts'' db2 again = Inl e"
    using complete_refines [OF db2, of again ts''] res(1) k same r l2(1)
    by (cases "completeItem ts'' db2 again") (auto simp: spec_complete_def split: if_splits)
  ultimately show ?thesis using res i by simp
qed

theorem item_result_is_final_witness:
  "\<exists>run db1 db2. completeItem ''t1'' two_items_db (result_at 0 (JStr ''x'')) = Inr (run, db1) \<and>
    commit_mapped_runs ''t2'' ''p1'' [CompleteMappedItem (result_at 1 JNull)] db1 = Inr db2 \<and>
    results db2 ''r1'' ! 0 = JStr ''x'' \<and> (\<exists>e. completeItem ''t3'' db2 (result_at 0 JNull) = Inl e)"
proof -
  let ?ws = "[CompleteMappedItem (result_at 1 JNull)]" and ?first = "completeItem ''t1'' two_items_db (result_at 0 (JStr ''x''))"
  let ?then = "commit_mapped_runs ''t2'' ''p1'' ?ws (snd (projr ?first))"
  have "\<not> isl ?first" "\<not> isl ?then" by code_simp+
  then have 1: "?first = Inr (fst (projr ?first), snd (projr ?first))" and 2: "?then = Inr (projr ?then)" by auto
  have ids: "co_runId (result_at k v) = ''r1''" "co_itemIndex (result_at k v) = k" "co_resultJson (result_at k v) = v" for k v
    by (simp_all add: result_at_def)
  have "results (projr ?then) ''r1'' ! 0 = JStr ''x'' \<and> (\<exists>e. completeItem ''t3'' (projr ?then) (result_at 0 JNull) = Inl e)"
    using item_result_is_final [OF two_items_db_consistent 1 _ 2, of "result_at 0 JNull" "''t3''"] by (simp add: ids)
  then show ?thesis using 1 2 by blast
qed

end
