(* ===== verification/Mapped_Turns.thy ===== *)
theory Mapped_Turns
  imports Process_Position Mapped_Runs
begin

text \<open>
  Mapped turns: an LLM turn that runs once per item of a list computed when the turn is entered. The
  items are frozen and validated, each item yields a result, and the results are collected once into
  the state of the process and one move (\<^verbatim>\<open>packages/process-sdk/src/mapped-turn.ts\<close>). The engine plans
  the entry of mapped turns and the outcome of each item
  (\<^verbatim>\<open>packages/server/src/process-engine/mapped-turns.ts\<close>).

  What the author of a process declares (the callbacks and codecs of \<open>MappedLlmTurnSpec\<close>, the codecs of
  a process) is a record of functions, which may throw. The text syntax of JSON stays outside of the
  model: a JSON text column holds the value its text denotes, a callback whose value cannot be written as
  JSON serializes to \<open>None\<close>, and \<open>stringify\<close> and \<open>parseJson\<close> stand for \<open>JSON.stringify\<close> and \<open>JSON.parse\<close> on
  the state and the parameters of a process.
\<close>

section \<open>Thrown values\<close>

datatype thrown = SafeOutcomePlanningError string string | OtherError string | ThrownValue string

type_synonym 'a attempt = "thrown + 'a"

definition attempt_bind :: "'a attempt \<Rightarrow> ('a \<Rightarrow> 'b attempt) \<Rightarrow> 'b attempt" where
  "attempt_bind m f = (case m of Inl e \<Rightarrow> Inl e | Inr x \<Rightarrow> f x)"

lemma attempt_bind_simps [simp]: "attempt_bind (Inl e) f = Inl e" "attempt_bind (Inr x) f = f x"
  by (simp_all add: attempt_bind_def)

lemma attempt_bind_Inr [simp]: "attempt_bind m f = Inr y \<longleftrightarrow> (\<exists>x. m = Inr x \<and> f x = Inr y)"
  by (cases m) simp_all

fun errorMessage :: "thrown \<Rightarrow> string" where
  "errorMessage (SafeOutcomePlanningError _ message) = message"
| "errorMessage (OtherError message) = message"
| "errorMessage (ThrownValue text) = text"

text \<open>\<open>try { ... } catch (error) { throw new SafeOutcomePlanningError(...) }\<close>\<close>

definition or_planning_error :: "'a attempt \<Rightarrow> string \<Rightarrow> (string \<Rightarrow> string) \<Rightarrow> 'a attempt" where
  "or_planning_error m code message =
     (case m of Inl e \<Rightarrow> Inl (SafeOutcomePlanningError code (message (errorMessage e))) | Inr x \<Rightarrow> Inr x)"

text \<open>A throw that no one catches.\<close>

definition uncaught :: "'a attempt \<Rightarrow> 'a throws" where
  "uncaught m = (case m of Inl e \<Rightarrow> Inl (errorMessage e) | Inr x \<Rightarrow> Inr x)"

section \<open>Declarations\<close>

record server_context =
  sv_process :: process_instance
  sv_projects :: "json list"
  sv_params :: json
  sv_state :: json

record turn_iteration =
  ti_runId :: string
  ti_itemKey :: string
  ti_itemLabel :: string
  ti_itemIndex :: int
  ti_itemCount :: int
  ti_item :: json

record outcome_event =
  ev_turnRecordId :: string
  ev_turnId :: string
  ev_outcome :: string
  ev_params :: json
  ev_turnResultMarkdown :: "string option"
  ev_prepared :: "json option"

datatype items_value = ItemsNullish | ItemsArray "json list" | ItemsOther

datatype collect_routing =
    StaticRoute "string option" "lifecycle_status option"
  | BranchRoute "(string \<times> string) list" "server_context \<Rightarrow> string attempt"

text \<open>
  \<open>MappedLlmTurnSpec\<close>. The key and label callbacks return \<open>None\<close> for a value that is not a string. A
  yield receives the context together with the active item.
\<close>

record mapped_spec =
  ms_items :: "server_context \<Rightarrow> items_value attempt"
  ms_parseItem :: "json \<Rightarrow> json attempt"
  ms_serializeItem :: "json \<Rightarrow> json option attempt"
  ms_parseResult :: "json \<Rightarrow> json attempt"
  ms_serializeResult :: "json \<Rightarrow> json option attempt"
  ms_key :: "json \<Rightarrow> nat \<Rightarrow> string option attempt"
  ms_label :: "(json \<Rightarrow> nat \<Rightarrow> string option attempt) option"
  ms_stateAfterSnapshot :: "(json \<Rightarrow> json \<Rightarrow> json list \<Rightarrow> json attempt) option"
  ms_yields :: "(string \<times> (server_context \<Rightarrow> turn_iteration \<Rightarrow> outcome_event \<Rightarrow> json attempt)) list"
  ms_collect :: "server_context \<Rightarrow> json list \<Rightarrow> json attempt"
  ms_routing :: collect_routing

record turn_definition =
  td_kind :: turn_type
  td_forEach :: "mapped_spec option"

record registered_process =
  rp_parseParams :: "json option \<Rightarrow> json attempt"
  rp_parseState :: "json \<Rightarrow> json attempt"
  rp_initialState :: "json \<Rightarrow> json attempt"
  rp_turns :: "(string \<times> turn_definition) list"

type_synonym action_registry = "(string \<times> registered_process) list"

definition getTurnDefinition :: "action_registry \<Rightarrow> string \<Rightarrow> string \<Rightarrow> turn_definition option" where
  "getTurnDefinition registry processId turnId =
     Option.bind (map_of registry processId) (\<lambda>d. map_of (rp_turns d) turnId)"

definition resolveProcessContextData ::
    "(string \<Rightarrow> json attempt) \<Rightarrow> registered_process option \<Rightarrow> process_instance \<Rightarrow> (json \<times> json) attempt" where
  "resolveProcessContextData parseJson processDef p =
     (case processDef of
        None \<Rightarrow> Inr (JObj [], JObj [])
      | Some d \<Rightarrow>
          attempt_bind (case pi_fields p FParamsJson of
              VStr s \<Rightarrow> if s \<noteq> [] then attempt_bind (parseJson s) (\<lambda>v. rp_parseParams d (Some v)) else rp_parseParams d None
            | _ \<Rightarrow> rp_parseParams d None) (\<lambda>params.
          attempt_bind (case pi_stateJson p of
              Some s \<Rightarrow> if s \<noteq> [] then attempt_bind (parseJson s) (rp_parseState d) else rp_initialState d params
            | None \<Rightarrow> rp_initialState d params) (\<lambda>state.
          Inr (params, state))))"

section \<open>Validating a declaration\<close>

definition mapped_turn_name :: "string \<Rightarrow> string" where
  "mapped_turn_name turnId = ''Mapped turn '' @ quoted turnId"


text \<open>What the validation of an authored turn looks at: which members are declared, and which are functions.\<close>

datatype routing_shape = StaticShape bool bool | BranchShape nat bool

record outcome_shape =
  os_branches :: bool
  os_to :: bool
  os_complete :: bool
  os_lifecycleStatus :: bool
  os_effect :: bool
  os_publishedProduct :: bool

record mapped_shape =
  sh_items :: bool
  sh_key :: bool
  sh_collect :: bool
  sh_itemCodec :: bool
  sh_resultCodec :: bool
  sh_yields :: "(string \<times> bool) list"
  sh_routing :: "routing_shape option"

record turn_shape =
  ts_forEach :: "mapped_shape option"
  ts_turnEnd :: bool
  ts_publishedProduct :: bool
  ts_outcomes :: "(string \<times> outcome_shape) list"

definition error_if :: "bool \<Rightarrow> string \<Rightarrow> string list" where
  "error_if c message = (if c then [message] else [])"

lemma error_if_empty: "error_if c message = [] \<longleftrightarrow> \<not> c"
  by (simp add: error_if_def)

definition routes_or_changes :: "outcome_shape \<Rightarrow> bool" where
  "routes_or_changes spec \<longleftrightarrow> os_branches spec \<or> os_to spec \<or> os_complete spec \<or> os_lifecycleStatus spec \<or>
     os_effect spec \<or> os_publishedProduct spec"

definition outcome_errors :: "string \<Rightarrow> mapped_shape \<Rightarrow> string \<times> outcome_shape \<Rightarrow> string list" where
  "outcome_errors turnId mapped o' = (case o' of (outcomeId, spec) \<Rightarrow>
     error_if (routes_or_changes spec)
       (mapped_turn_name turnId @ '' outcome '' @ quoted outcomeId @ '' cannot route, change state, or publish'')
     @ error_if (map_of (sh_yields mapped) outcomeId \<noteq> Some True)
       (mapped_turn_name turnId @ '' outcome '' @ quoted outcomeId @ '' must declare a yield''))"

definition routing_errors :: "string \<Rightarrow> routing_shape option \<Rightarrow> string list" where
  "routing_errors turnId routing =
     (case routing of
        Some (StaticShape to status) \<Rightarrow>
          error_if (to = status) (mapped_turn_name turnId @ '' collection must declare exactly one target'')
      | Some (BranchShape n isFunction) \<Rightarrow>
          error_if (n = 0 \<or> \<not> isFunction) (mapped_turn_name turnId @ '' collection routing needs branches and a chooser'')
      | None \<Rightarrow> [mapped_turn_name turnId @ '' must declare a collection route''])"

definition validateMappedTurn :: "string \<Rightarrow> turn_shape \<Rightarrow> string list" where
  "validateMappedTurn turnId turnDef =
     (case ts_forEach turnDef of
        None \<Rightarrow> []
      | Some mapped \<Rightarrow>
          error_if (\<not> sh_items mapped) (mapped_turn_name turnId @ '' must declare items'')
          @ error_if (\<not> sh_key mapped) (mapped_turn_name turnId @ '' must declare key'')
          @ error_if (\<not> sh_collect mapped) (mapped_turn_name turnId @ '' must declare collect'')
          @ error_if (\<not> sh_itemCodec mapped) (mapped_turn_name turnId @ '' must declare itemCodec'')
          @ error_if (\<not> sh_resultCodec mapped) (mapped_turn_name turnId @ '' must declare resultCodec'')
          @ error_if (ts_turnEnd turnDef) (mapped_turn_name turnId @ '' must finish items through outcome tools'')
          @ error_if (ts_publishedProduct turnDef) (mapped_turn_name turnId @ '' cannot publish a product from item turns'')
          @ error_if (ts_outcomes turnDef = []) (mapped_turn_name turnId @ '' must declare at least one outcome tool'')
          @ concat (map (outcome_errors turnId mapped) (ts_outcomes turnDef))
          @ concat (map (\<lambda>(outcomeId, _). error_if (outcomeId \<notin> fst ` set (ts_outcomes turnDef))
              (mapped_turn_name turnId @ '' yields undeclared outcome '' @ quoted outcomeId)) (sh_yields mapped))
          @ routing_errors turnId (sh_routing mapped))"

lemma all_mapped_true:
  assumes "distinct (map fst ys)"
  shows "(\<forall>x \<in> A. map_of ys x = Some True) \<and> (\<forall>x \<in> fst ` set ys. x \<in> A) \<longleftrightarrow>
    fst ` set ys = A \<and> (\<forall>(_, f) \<in> set ys. f)"
proof -
  have eq: "map_of ys x = Some v \<longleftrightarrow> (x, v) \<in> set ys" for x v using map_of_eq_Some_iff [OF assms] by simp
  show ?thesis
  proof
    assume l: "(\<forall>x \<in> A. map_of ys x = Some True) \<and> (\<forall>x \<in> fst ` set ys. x \<in> A)"
    have "f" if "(x, f) \<in> set ys" for x f
    proof -
      have "x \<in> A" using l that by force
      then show ?thesis using l that eq [of x f] by simp
    qed
    moreover have "A \<subseteq> fst ` set ys" using l eq by force
    ultimately show "fst ` set ys = A \<and> (\<forall>(_, f) \<in> set ys. f)" using l by blast
  next
    assume "fst ` set ys = A \<and> (\<forall>(_, f) \<in> set ys. f)"
    then show "(\<forall>x \<in> A. map_of ys x = Some True) \<and> (\<forall>x \<in> fst ` set ys. x \<in> A)" using eq by force
  qed
qed

text \<open>
  A declaration without errors has every callback, one yield per declared outcome and for no other, and one
  way to route the collection; its outcomes neither route nor change anything by themselves.
\<close>

lemma valid_declaration:
  assumes "ts_forEach turnDef = Some mapped" "distinct (map fst (sh_yields mapped))"
  shows "validateMappedTurn turnId turnDef = [] \<longleftrightarrow>
    sh_items mapped \<and> sh_key mapped \<and> sh_collect mapped \<and> sh_itemCodec mapped \<and> sh_resultCodec mapped \<and>
    \<not> ts_turnEnd turnDef \<and> \<not> ts_publishedProduct turnDef \<and> ts_outcomes turnDef \<noteq> [] \<and>
    (\<forall>(_, spec) \<in> set (ts_outcomes turnDef). \<not> routes_or_changes spec) \<and>
    fst ` set (sh_yields mapped) = fst ` set (ts_outcomes turnDef) \<and> (\<forall>(_, isFunction) \<in> set (sh_yields mapped). isFunction) \<and>
    (\<exists>r. sh_routing mapped = Some r \<and> (case r of StaticShape to status \<Rightarrow> to \<noteq> status | BranchShape n f \<Rightarrow> n \<noteq> 0 \<and> f))"
proof -
  have a: "validateMappedTurn turnId turnDef = [] \<longleftrightarrow>
      sh_items mapped \<and> sh_key mapped \<and> sh_collect mapped \<and> sh_itemCodec mapped \<and> sh_resultCodec mapped \<and>
      \<not> ts_turnEnd turnDef \<and> \<not> ts_publishedProduct turnDef \<and> ts_outcomes turnDef \<noteq> [] \<and>
      (\<forall>x \<in> set (ts_outcomes turnDef). outcome_errors turnId mapped x = []) \<and>
      (\<forall>x \<in> fst ` set (sh_yields mapped). x \<in> fst ` set (ts_outcomes turnDef)) \<and> routing_errors turnId (sh_routing mapped) = []"
    by (simp add: validateMappedTurn_def assms(1) error_if_empty case_prod_unfold)
  have b: "(\<forall>x \<in> set (ts_outcomes turnDef). outcome_errors turnId mapped x = []) \<longleftrightarrow>
      (\<forall>(_, spec) \<in> set (ts_outcomes turnDef). \<not> routes_or_changes spec) \<and>
      (\<forall>x \<in> fst ` set (ts_outcomes turnDef). map_of (sh_yields mapped) x = Some True)"
    unfolding outcome_errors_def error_if_def by (force split: prod.splits if_splits)
  have c: "routing_errors turnId (sh_routing mapped) = [] \<longleftrightarrow>
      (\<exists>r. sh_routing mapped = Some r \<and> (case r of StaticShape to status \<Rightarrow> to \<noteq> status | BranchShape n f \<Rightarrow> n \<noteq> 0 \<and> f))"
    by (auto simp: routing_errors_def error_if_def split: option.splits routing_shape.splits)
  have d: "(\<forall>x \<in> fst ` set (ts_outcomes turnDef). map_of (sh_yields mapped) x = Some True) \<and>
      (\<forall>x \<in> fst ` set (sh_yields mapped). x \<in> fst ` set (ts_outcomes turnDef)) \<longleftrightarrow>
      fst ` set (sh_yields mapped) = fst ` set (ts_outcomes turnDef) \<and> (\<forall>(_, f) \<in> set (sh_yields mapped). f)"
    by (rule all_mapped_true [OF assms(2)])
  show ?thesis unfolding a b c using d by argo
qed

section \<open>Freezing the items\<close>

definition MAPPED_ITEM_KEY_MAX_LENGTH :: nat where "MAPPED_ITEM_KEY_MAX_LENGTH = 200"
definition MAPPED_ITEM_LABEL_MAX_LENGTH :: nat where "MAPPED_ITEM_LABEL_MAX_LENGTH = 200"
definition MAPPED_ITEM_MAX_COUNT :: nat where "MAPPED_ITEM_MAX_COUNT = 500"
definition MAPPED_COLLECT_TRIGGER :: string where "MAPPED_COLLECT_TRIGGER = ''collect''"

definition mappedCollectTrigger :: "string option \<Rightarrow> string" where
  "mappedCollectTrigger branchId =
     (case branchId of None \<Rightarrow> MAPPED_COLLECT_TRIGGER | Some b \<Rightarrow> MAPPED_COLLECT_TRIGGER @ '':'' @ b)"

definition toJsonValue :: "json option \<Rightarrow> string \<Rightarrow> json attempt" where
  "toJsonValue value context =
     (case value of
        None \<Rightarrow> Inl (SafeOutcomePlanningError ''invalid_mapped_value'' (context @ '' is not JSON''))
      | Some v \<Rightarrow> Inr v)"

definition plainText :: "string \<Rightarrow> string" where
  "plainText value = js_trim (collapse_spaces value)"

definition item_label :: "mapped_spec \<Rightarrow> json \<Rightarrow> nat \<Rightarrow> string \<Rightarrow> string attempt" where
  "item_label spec item index key =
     attempt_bind (case ms_label spec of Some f \<Rightarrow> f item index | None \<Rightarrow> Inr (Some key)) (\<lambda>rawLabel.
     let label = plainText (coalesce rawLabel []) in
     Inr (take MAPPED_ITEM_LABEL_MAX_LENGTH (if label \<noteq> [] then label else key)))"

text \<open>One round of the loop: the parsed and the frozen item.\<close>

definition freeze_item :: "string \<Rightarrow> mapped_spec \<Rightarrow> nat \<Rightarrow> string list \<Rightarrow> json \<Rightarrow> (json \<times> frozen_item) attempt" where
  "freeze_item turnId spec index keys value =
     (let name = mapped_turn_name turnId in
      attempt_bind (or_planning_error (ms_parseItem spec value) ''invalid_mapped_item''
        (\<lambda>msg. name @ '' item '' @ nat_text index @ '' is invalid: '' @ msg)) (\<lambda>item.
      attempt_bind (ms_key spec item index) (\<lambda>rawKey.
      case rawKey of
        None \<Rightarrow> Inl (SafeOutcomePlanningError ''invalid_mapped_item_key''
          (name @ '' item '' @ nat_text index @ '' needs a non-empty key of at most 200 characters''))
      | Some key \<Rightarrow>
          if js_trim key = [] \<or> length key > MAPPED_ITEM_KEY_MAX_LENGTH
          then Inl (SafeOutcomePlanningError ''invalid_mapped_item_key''
            (name @ '' item '' @ nat_text index @ '' needs a non-empty key of at most 200 characters''))
          else if key \<in> set keys
          then Inl (SafeOutcomePlanningError ''duplicate_mapped_item_key'' (name @ '' repeats item key '' @ quoted key))
          else
            attempt_bind (item_label spec item index key) (\<lambda>label.
            attempt_bind (ms_serializeItem spec item) (\<lambda>raw.
            attempt_bind (toJsonValue raw (name @ '' item '' @ quoted key)) (\<lambda>js.
            Inr (item, \<lparr>fi_itemIndex = int index, fi_itemKey = key, fi_label = label, fi_itemJson = js\<rparr>)))))))"

fun freeze_items ::
    "string \<Rightarrow> mapped_spec \<Rightarrow> nat \<Rightarrow> string list \<Rightarrow> json list \<Rightarrow> (json \<times> frozen_item) list attempt" where
  "freeze_items turnId spec index keys [] = Inr []"
| "freeze_items turnId spec index keys (value # rest) =
     attempt_bind (freeze_item turnId spec index keys value) (\<lambda>(item, frozen).
     attempt_bind (freeze_items turnId spec (Suc index) (fi_itemKey frozen # keys) rest) (\<lambda>more.
     Inr ((item, frozen) # more)))"

record freeze_result =
  fz_items :: "frozen_item list"
  fz_state :: "json option"

definition freezeMappedItems :: "string \<Rightarrow> mapped_spec \<Rightarrow> server_context \<Rightarrow> freeze_result attempt" where
  "freezeMappedItems turnId spec ctx =
     attempt_bind (ms_items spec ctx) (\<lambda>value.
     attempt_bind (case value of
         ItemsNullish \<Rightarrow> Inr []
       | ItemsArray raw \<Rightarrow> Inr raw
       | ItemsOther \<Rightarrow> Inl (SafeOutcomePlanningError ''invalid_mapped_items''
           (mapped_turn_name turnId @ '' items must be an array''))) (\<lambda>raw.
     if length raw > MAPPED_ITEM_MAX_COUNT
     then Inl (SafeOutcomePlanningError ''invalid_mapped_items''
       (mapped_turn_name turnId @ '' may freeze at most 500 items''))
     else
       attempt_bind (freeze_items turnId spec 0 [] raw) (\<lambda>frozen.
       case ms_stateAfterSnapshot spec of
         None \<Rightarrow> Inr \<lparr>fz_items = map snd frozen, fz_state = None\<rparr>
       | Some f \<Rightarrow> attempt_bind (f (sv_params ctx) (sv_state ctx) (map fst frozen)) (\<lambda>state.
           Inr \<lparr>fz_items = map snd frozen, fz_state = Some state\<rparr>))))"

section \<open>Results and their collection\<close>

definition yieldMappedItemResult ::
    "string \<Rightarrow> mapped_spec \<Rightarrow> server_context \<Rightarrow> turn_iteration \<Rightarrow> outcome_event \<Rightarrow> json attempt" where
  "yieldMappedItemResult turnId spec ctx iteration event =
     (case map_of (ms_yields spec) (ev_outcome event) of
        None \<Rightarrow> Inl (SafeOutcomePlanningError ''unknown_mapped_outcome''
          (mapped_turn_name turnId @ '' has no result for outcome '' @ quoted (ev_outcome event)))
      | Some yieldResult \<Rightarrow>
          attempt_bind (ms_parseItem spec (ti_item iteration)) (\<lambda>item.
          attempt_bind (yieldResult ctx (iteration\<lparr>ti_item := item\<rparr>) event) (\<lambda>value.
          attempt_bind (or_planning_error (ms_parseResult spec value) ''invalid_mapped_result''
            (\<lambda>msg. mapped_turn_name turnId @ '' produced an invalid result for item ''
               @ quoted (ti_itemKey iteration) @ '': '' @ msg)) (\<lambda>result.
          attempt_bind (ms_serializeResult spec result) (\<lambda>raw.
          toJsonValue raw (mapped_turn_name turnId @ '' result for item '' @ quoted (ti_itemKey iteration)))))))"

fun parse_results :: "string \<Rightarrow> mapped_spec \<Rightarrow> nat \<Rightarrow> json list \<Rightarrow> json list attempt" where
  "parse_results turnId spec index [] = Inr []"
| "parse_results turnId spec index (js # rest) =
     attempt_bind (or_planning_error (ms_parseResult spec js) ''invalid_mapped_result''
       (\<lambda>msg. mapped_turn_name turnId @ '' stored an invalid result at item '' @ nat_text index @ '': '' @ msg)) (\<lambda>r.
     attempt_bind (parse_results turnId spec (Suc index) rest) (\<lambda>rs. Inr (r # rs)))"

record collect_result =
  cl_state :: json
  cl_trigger :: string
  cl_nextTurnId :: "string option"
  cl_lifecycleStatus :: "lifecycle_status option"

definition collectMappedResults ::
    "string \<Rightarrow> mapped_spec \<Rightarrow> server_context \<Rightarrow> json list \<Rightarrow> collect_result attempt" where
  "collectMappedResults turnId spec ctx resultJsons =
     attempt_bind (parse_results turnId spec 0 resultJsons) (\<lambda>results.
     attempt_bind (ms_collect spec ctx results) (\<lambda>state.
     case ms_routing spec of
       StaticRoute to status \<Rightarrow>
         Inr \<lparr>cl_state = state, cl_trigger = mappedCollectTrigger None, cl_nextTurnId = to, cl_lifecycleStatus = status\<rparr>
     | BranchRoute branches chooser \<Rightarrow>
         attempt_bind (chooser (ctx\<lparr>sv_state := state\<rparr>)) (\<lambda>branchId.
         case map_of branches branchId of
           None \<Rightarrow> Inl (OtherError (mapped_turn_name turnId @ '' collection selected unknown branch '' @ quoted branchId))
         | Some to \<Rightarrow>
             Inr \<lparr>cl_state = state, cl_trigger = mappedCollectTrigger (Some branchId), cl_nextTurnId = Some to,
               cl_lifecycleStatus = None\<rparr>)))"

section \<open>Planning in the engine\<close>

definition getMappedTurnSpec :: "action_registry option \<Rightarrow> string \<Rightarrow> string option \<Rightarrow> mapped_spec option" where
  "getMappedTurnSpec registry processId turnId =
     (case registry of
        None \<Rightarrow> None
      | Some reg \<Rightarrow>
          if \<not> truthy turnId then None
          else case getTurnDefinition reg processId (the turnId) of
            Some turn \<Rightarrow> if td_kind turn = LlmTurn then td_forEach turn else None
          | None \<Rightarrow> None)"

definition build_failure :: "string \<Rightarrow> string \<Rightarrow> write_result" where
  "build_failure code message = Inl \<lparr>wf_code = code, wf_msg = message\<rparr>"

fun planningFailure :: "thrown \<Rightarrow> string \<Rightarrow> write_result throws" where
  "planningFailure (SafeOutcomePlanningError errorCode message) code = Inr (build_failure errorCode message)"
| "planningFailure (OtherError message) code = Inl message"
| "planningFailure (ThrownValue text) code = Inl (code @ '': '' @ text)"

text \<open>What the engine is given: the graphs, the registry of declarations, and JSON as text.\<close>

record mapped_env =
  me_graphs :: graph_registry
  me_registry :: "action_registry option"
  me_stringify :: "json \<Rightarrow> string"
  me_parseJson :: "string \<Rightarrow> json attempt"

text \<open>The identifiers generated in one round.\<close>

record entry_ids =
  id_wait :: string
  id_run :: string
  id_start :: string
  id_turnRecord :: string

definition serverContext ::
    "(string \<Rightarrow> json attempt) \<Rightarrow> action_registry \<Rightarrow> process_instance \<Rightarrow> json list \<Rightarrow> server_context throws" where
  "serverContext parseJson registry p projects =
     throws_bind (uncaught (resolveProcessContextData parseJson (map_of registry (pi_processId p)) p)) (\<lambda>(params, state).
     Inr \<lparr>sv_process = p, sv_projects = projects, sv_params = params, sv_state = state\<rparr>)"

text \<open>\<open>Object.assign(target, mergeWrites(target, source))\<close>: a key the merged plan lacks is kept.\<close>

definition appendInto :: "writes \<Rightarrow> writes \<Rightarrow> writes throws" where
  "appendInto target source =
     throws_bind (mergeWrites [Some target, Some source]) (\<lambda>m.
     Inr (m\<lparr>w_preserveUpdatedAt := w_preserveUpdatedAt target\<rparr>))"

definition collected_data :: "string \<Rightarrow> string \<Rightarrow> nat \<Rightarrow> string \<Rightarrow> json_object" where
  "collected_data runId turnId count trigger =
     [(''runId'', JStr runId), (''turnId'', JStr turnId), (''itemCount'', JNum (int count)), (''trigger'', JStr trigger)]"

definition collectAndRoute ::
    "mapped_env \<Rightarrow> entry_ids \<Rightarrow> process_instance \<Rightarrow> server_context \<Rightarrow> mapped_spec \<Rightarrow> string \<Rightarrow> string \<Rightarrow> json list \<Rightarrow>
     write_result throws" where
  "collectAndRoute env ids p ctx spec turnId runId resultJsons =
     (case collectMappedResults turnId spec ctx resultJsons of
        Inl e \<Rightarrow> planningFailure e ''mapped_collect_failed''
      | Inr collected \<Rightarrow>
          throws_bind (buildServerTransitionWrites (id_start ids) (id_turnRecord ids) (me_graphs env) p
            \<lparr>rq_stateJson = Some (me_stringify env (cl_state collected)), rq_turnId = Some (cl_nextTurnId collected),
             rq_trigger = Some (cl_trigger collected), rq_lifecycleStatus = cl_lifecycleStatus collected,
             rq_runtime = RuntimeNone\<rparr>) (\<lambda>r. Inr (
          case r of
            Inl failure \<Rightarrow> Inl failure
          | Inr w \<Rightarrow> Inr (appendProcessEvent w p ''mapped_run_collected'' ''info''
              (''Collected '' @ nat_text (length resultJsons) @ '' result(s) for '' @ turnId)
              (Some (collected_data runId turnId (length resultJsons) (cl_trigger collected)))))))"

subsection \<open>Entering mapped turns\<close>

definition MAX_EMPTY_MAPPED_ENTRIES :: nat where "MAX_EMPTY_MAPPED_ENTRIES = 16"

text \<open>The first start that enters the selected turn, with its position.\<close>

definition entry_start :: "string option \<Rightarrow> start_input \<Rightarrow> bool" where
  "entry_start selected si \<longleftrightarrow> si_turnType si = LlmTurn \<and> si_startKind si = SelectedTurnStart \<and>
     si_iteration si = None \<and> selected = Some (si_turnId si)"

fun find_entry :: "string option \<Rightarrow> turn_start_write list \<Rightarrow> (nat \<times> start_input) option" where
  "find_entry selected [] = None"
| "find_entry selected (CreateStart si # ws) =
     (if entry_start selected si then Some (0, si) else map_option (\<lambda>(i, x). (Suc i, x)) (find_entry selected ws))"
| "find_entry selected (CasStartState _ _ _ _ # ws) = map_option (\<lambda>(i, x). (Suc i, x)) (find_entry selected ws)"

fun completes_item :: "mapped_run_write \<Rightarrow> bool" where
  "completes_item (CompleteMappedItem _) = True"
| "completes_item _ = False"

definition push_run_write :: "writes \<Rightarrow> mapped_run_write \<Rightarrow> writes" where
  "push_run_write w x = w\<lparr>w_mappedRunWrites := w_mappedRunWrites w @ [x]\<rparr>"

definition leaves_active_run :: "mapped_run option \<Rightarrow> bool \<Rightarrow> writes \<Rightarrow> process_instance \<Rightarrow> bool" where
  "leaves_active_run active aborted w candidate \<longleftrightarrow>
     (case active of
        None \<Rightarrow> False
      | Some run \<Rightarrow> \<not> aborted \<and> \<not> list_ex completes_item (w_mappedRunWrites w) \<and>
          (pi_selectedTurnId candidate \<noteq> Some (mr_turnId run) \<or>
           pi_lifecycleStatus candidate = CompletedProcess \<or> pi_lifecycleStatus candidate = AbortedProcess))"

text \<open>The plan that freezes the items of an entered turn.\<close>

definition freeze_plan ::
    "mapped_env \<Rightarrow> entry_ids \<Rightarrow> process_instance \<Rightarrow> process_instance \<Rightarrow> string \<Rightarrow> freeze_result \<Rightarrow> writes \<Rightarrow> writes" where
  "freeze_plan env ids p candidate turnId frozen w =
     (let n = length (fz_items frozen);
          w1 = push_run_write w (CreateMappedRun
            \<lparr>cm_id = id_run ids, cm_instanceId = pi_id p, cm_turnId = turnId,
             cm_status = (if n > 0 then RunActive else RunCompleted), cm_items = fz_items frozen\<rparr>);
          w2 = appendProcessEvent w1 candidate ''mapped_run_started'' ''info''
            (''Froze '' @ nat_text n @ '' item(s) for '' @ turnId)
            (Some [(''runId'', JStr (id_run ids)), (''turnId'', JStr turnId), (''itemCount'', JNum (int n))]) in
      case fz_state frozen of
        None \<Rightarrow> w2
      | Some state \<Rightarrow> applyProcessPatchField w2 candidate FStateJson (VStr (me_stringify env state)))"

text \<open>One round: \<open>Inl\<close> is the result of the whole operation, \<open>Inr\<close> the plan to go on with.\<close>

type_synonym round_result = "(write_result + writes) throws"

definition bind_first :: "entry_ids \<Rightarrow> nat \<Rightarrow> start_input \<Rightarrow> frozen_item \<Rightarrow> writes \<Rightarrow> writes" where
  "bind_first ids i si first w = w\<lparr>w_turnStartWrites := (w_turnStartWrites w)[i := CreateStart (si\<lparr>si_iteration :=
     Some \<lparr>mi_runId = id_run ids, mi_itemKey = fi_itemKey first, mi_itemIndex = 0\<rparr>\<rparr>)]\<rparr>"

text \<open>An empty run: the start is taken back, and the collection of no results routes on.\<close>

definition route_empty ::
    "mapped_env \<Rightarrow> entry_ids \<Rightarrow> process_instance \<Rightarrow> mapped_spec \<Rightarrow> server_context \<Rightarrow> nat \<Rightarrow> string \<Rightarrow> writes \<Rightarrow> round_result" where
  "route_empty env ids p spec ctx i turnId w =
     (let w2 = w\<lparr>w_turnStartWrites := take i (w_turnStartWrites w) @ drop (Suc i) (w_turnStartWrites w)\<rparr> in
      throws_bind (collectAndRoute env ids (with_patch p (w_processPatch w2)) ctx spec turnId (id_run ids) []) (\<lambda>routed.
      case routed of
        Inl failure \<Rightarrow> Inr (Inl (Inl failure))
      | Inr r \<Rightarrow> throws_bind (appendInto w2 r) (\<lambda>w3. Inr (Inr w3))))"

definition enter_turn ::
    "mapped_env \<Rightarrow> entry_ids \<Rightarrow> json list \<Rightarrow> process_instance \<Rightarrow> process_instance \<Rightarrow> action_registry \<Rightarrow> mapped_spec \<Rightarrow>
     nat \<Rightarrow> start_input \<Rightarrow> writes \<Rightarrow> round_result" where
  "enter_turn env ids projects p candidate registry spec i si w =
     throws_bind (serverContext (me_parseJson env) registry candidate projects) (\<lambda>ctx.
     case freezeMappedItems (si_turnId si) spec ctx of
       Inl e \<Rightarrow> throws_bind (planningFailure e ''invalid_mapped_items'') (\<lambda>r. Inr (Inl r))
     | Inr frozen \<Rightarrow>
         let w1 = freeze_plan env ids p candidate (si_turnId si) frozen w in
         (case fz_items frozen of
            first # _ \<Rightarrow> Inr (Inl (Inr (bind_first ids i si first w1)))
          | [] \<Rightarrow> route_empty env ids p spec
                   (case fz_state frozen of None \<Rightarrow> ctx | Some state \<Rightarrow> ctx\<lparr>sv_state := state\<rparr>) i (si_turnId si) w1))"

definition entry_round ::
    "mapped_env \<Rightarrow> entry_ids \<Rightarrow> mapped_db option \<Rightarrow> json list \<Rightarrow> process_instance \<Rightarrow> mapped_run option \<Rightarrow> nat \<Rightarrow> bool \<Rightarrow>
     writes \<Rightarrow> round_result" where
  "entry_round env ids mappedRuns projects p active entry aborted w =
     throws_bind (deferTurnWaitStarts (id_wait ids) (me_graphs env) p w None) (\<lambda>w1.
     let candidate = with_patch p (w_processPatch w1);
         start = find_entry (pi_selectedTurnId candidate) (w_turnStartWrites w1);
         spec = Option.bind start (\<lambda>(_, si). getMappedTurnSpec (me_registry env) (pi_processId candidate) (Some (si_turnId si)))
     in case (start, spec, me_registry env) of
          (Some (i, si), Some sp, Some registry) \<Rightarrow>
            if entry = MAX_EMPTY_MAPPED_ENTRIES
            then Inr (Inl (build_failure ''mapped_turn_loop'' ''Too many consecutive empty mapped turns''))
            else if mappedRuns = None
            then Inr (Inl (build_failure ''mapped_runs_unavailable'' ''Mapped turn storage is not available''))
            else enter_turn env ids projects p candidate registry sp i si
                   (if active \<noteq> None \<and> \<not> aborted then push_run_write w1 AbortActiveMappedRun else w1)
        | _ \<Rightarrow> Inr (Inl (Inr (if leaves_active_run active aborted w1 candidate
                            then push_run_write w1 AbortActiveMappedRun else w1))))"

text \<open>A round that goes on has aborted the active run, if there was one.\<close>

function entry_loop ::
    "mapped_env \<Rightarrow> (nat \<Rightarrow> entry_ids) \<Rightarrow> mapped_db option \<Rightarrow> json list \<Rightarrow> process_instance \<Rightarrow> mapped_run option \<Rightarrow>
     nat \<Rightarrow> bool \<Rightarrow> writes \<Rightarrow> write_result throws" where
  "entry_loop env ids mappedRuns projects p active entry aborted w =
     (if entry > MAX_EMPTY_MAPPED_ENTRIES
      then Inr (build_failure ''mapped_turn_loop'' ''Too many consecutive empty mapped turns'')
      else throws_bind (entry_round env (ids entry) mappedRuns projects p active entry aborted w) (\<lambda>r.
        case r of
          Inl result \<Rightarrow> Inr result
        | Inr w' \<Rightarrow> entry_loop env ids mappedRuns projects p active (Suc entry) (aborted \<or> active \<noteq> None) w'))"
  by pat_completeness auto
termination
  by (relation "measure (\<lambda>(_, _, _, _, _, _, entry, _, _). Suc MAX_EMPTY_MAPPED_ENTRIES - entry)") auto

declare entry_loop.simps [simp del]

definition planMappedTurnEntries ::
    "mapped_env \<Rightarrow> (nat \<Rightarrow> entry_ids) \<Rightarrow> mapped_db option \<Rightarrow> json list \<Rightarrow> process_instance \<Rightarrow> writes \<Rightarrow> write_result throws" where
  "planMappedTurnEntries env ids mappedRuns projects p w =
     entry_loop env ids mappedRuns projects p (Option.bind mappedRuns (\<lambda>db. getActiveByInstance db (pi_id p))) 0 False w"

subsection \<open>The outcome of an item\<close>

record outcome_payload =
  op_turnRecordId :: string
  op_turnId :: string
  op_outcome :: string
  op_params :: "json option"
  op_turnResultMarkdown :: "string option"

text \<open>The item is the current one of the run it names.\<close>

definition current_iteration :: "outcome_payload \<Rightarrow> mapped_item_ref \<Rightarrow> mapped_run \<Rightarrow> mapped_item \<Rightarrow> bool" where
  "current_iteration payload iteration run item \<longleftrightarrow>
     mr_status run = RunActive \<and> mr_turnId run = op_turnId payload \<and> mr_nextIndex run = mi_itemIndex iteration \<and>
     it_itemKey item = mi_itemKey iteration \<and> it_status item = ItemPending"

definition outcome_event_of :: "outcome_payload \<Rightarrow> json option \<Rightarrow> outcome_event" where
  "outcome_event_of payload prepared =
     \<lparr>ev_turnRecordId = op_turnRecordId payload, ev_turnId = op_turnId payload, ev_outcome = op_outcome payload,
      ev_params = coalesce (op_params payload) (JObj []), ev_turnResultMarkdown = op_turnResultMarkdown payload,
      ev_prepared = prepared\<rparr>"

definition iteration_of :: "mapped_run \<Rightarrow> mapped_item \<Rightarrow> turn_iteration" where
  "iteration_of run item =
     \<lparr>ti_runId = mr_id run, ti_itemKey = it_itemKey item, ti_itemLabel = it_label item,
      ti_itemIndex = it_itemIndex item, ti_itemCount = mr_itemCount run, ti_item = it_itemJson item\<rparr>"

text \<open>The results in order, with the one just produced in its place; \<open>None\<close> when one is missing.\<close>

definition results_with :: "mapped_item list \<Rightarrow> mapped_item \<Rightarrow> json \<Rightarrow> json list option" where
  "results_with items item resultJson =
     those (map (\<lambda>s. if it_itemIndex s = it_itemIndex item then Some resultJson else it_resultJson s) items)"

definition record_item ::
    "mapped_env \<Rightarrow> entry_ids \<Rightarrow> mapped_db \<Rightarrow> process_instance \<Rightarrow> server_context \<Rightarrow> outcome_payload \<Rightarrow> mapped_spec \<Rightarrow>
     mapped_run \<Rightarrow> mapped_item \<Rightarrow> json \<Rightarrow> write_result throws" where
  "record_item env ids db p ctx payload spec run item resultJson =
     (let w0 = push_run_write (createWrites no_writes) (CompleteMappedItem
            \<lparr>co_runId = mr_id run, co_itemIndex = it_itemIndex item, co_outcome = op_outcome payload,
             co_resultJson = resultJson, co_turnRecordId = op_turnRecordId payload\<rparr>);
          nextIndex = it_itemIndex item + 1 in
      if nextIndex < mr_itemCount run
      then case getItem db (mr_id run) nextIndex of
          None \<Rightarrow> Inr (build_failure ''stale_mapped_item''
            (''Mapped run '' @ quoted (mr_id run) @ '' lost item '' @ int_text nextIndex))
        | Some next \<Rightarrow>
            Inr (Inr ((reserveSelectedTurnStart (id_start ids) (id_turnRecord ids) w0 p (op_turnId payload) LlmTurn
              (Some \<lparr>mi_runId = mr_id run, mi_itemKey = it_itemKey next, mi_itemIndex = nextIndex\<rparr>))
              \<lparr>w_workerIntent := Some Reconcile\<rparr>))
      else case results_with (listItems db (mr_id run)) item resultJson of
          None \<Rightarrow> Inr (build_failure ''stale_mapped_item''
            (''Mapped run '' @ quoted (mr_id run) @ '' is missing item results''))
        | Some resultJsons \<Rightarrow>
            throws_bind (collectAndRoute env ids p ctx spec (op_turnId payload) (mr_id run) resultJsons) (\<lambda>routed.
            case routed of
              Inl failure \<Rightarrow> Inr (Inl failure)
            | Inr r \<Rightarrow> throws_bind (mergeWrites [Some w0, Some r]) (\<lambda>m. Inr (Inr m))))"

definition buildMappedItemOutcomeWrites ::
    "mapped_env \<Rightarrow> entry_ids \<Rightarrow> action_registry \<Rightarrow> mapped_db option \<Rightarrow> process_instance \<Rightarrow> json list \<Rightarrow> outcome_payload \<Rightarrow>
     mapped_spec \<Rightarrow> mapped_item_ref option \<Rightarrow> json option \<Rightarrow> write_result throws" where
  "buildMappedItemOutcomeWrites env ids registry mappedRuns p projects payload spec iteration prepared =
     (case mappedRuns of
        None \<Rightarrow> Inr (build_failure ''mapped_runs_unavailable'' ''Mapped turn storage is not available'')
      | Some db \<Rightarrow>
      case iteration of
        None \<Rightarrow> Inr (build_failure ''mapped_item_missing'' (''Turn '' @ quoted (op_turnId payload) @ '' has no active mapped item''))
      | Some ref \<Rightarrow>
      let stale = Inr (build_failure ''stale_mapped_item'' (''Mapped item '' @ quoted (mi_itemKey ref)
            @ '' is no longer the current item of '' @ quoted (op_turnId payload))) in
      case (getRunById db (mi_runId ref), getItem db (mi_runId ref) (mi_itemIndex ref)) of
        (Some run, Some item) \<Rightarrow>
          if \<not> current_iteration payload ref run item then stale
          else throws_bind (serverContext (me_parseJson env) registry p projects) (\<lambda>ctx.
            case yieldMappedItemResult (op_turnId payload) spec ctx (iteration_of run item)
                (outcome_event_of payload prepared) of
              Inl e \<Rightarrow> planningFailure e ''invalid_mapped_result''
            | Inr resultJson \<Rightarrow> record_item env ids db p ctx payload spec run item resultJson)
      | _ \<Rightarrow> stale)"

section \<open>Frozen items\<close>

definition item_bounds :: "frozen_item \<Rightarrow> bool" where
  "item_bounds f \<longleftrightarrow> js_trim (fi_itemKey f) \<noteq> [] \<and> length (fi_itemKey f) \<le> MAPPED_ITEM_KEY_MAX_LENGTH \<and>
     fi_label f \<noteq> [] \<and> length (fi_label f) \<le> MAPPED_ITEM_LABEL_MAX_LENGTH"

lemma item_label_bounds:
  "item_label spec item index key = Inr l \<Longrightarrow> key \<noteq> [] \<Longrightarrow> l \<noteq> [] \<and> length l \<le> MAPPED_ITEM_LABEL_MAX_LENGTH"
  by (auto simp: item_label_def Let_def MAPPED_ITEM_LABEL_MAX_LENGTH_def split: option.splits if_splits)

lemma freeze_item_shape:
  assumes "freeze_item turnId spec index keys value = Inr (item, f)"
  shows "fi_itemIndex f = int index \<and> fi_itemKey f \<notin> set keys \<and> item_bounds f"
proof -
  from assms obtain key label where f: "fi_itemIndex f = int index" "fi_itemKey f = key" "fi_label f = label"
      and key: "js_trim key \<noteq> []" "length key \<le> MAPPED_ITEM_KEY_MAX_LENGTH" "key \<notin> set keys"
      and label: "item_label spec item index key = Inr label"
    by (auto simp: freeze_item_def Let_def not_less split: option.splits if_splits)
  have "key \<noteq> []" using key(1) by auto
  with f key item_label_bounds [OF label] show ?thesis by (simp add: item_bounds_def)
qed

lemma freeze_items_shape:
  "freeze_items turnId spec index keys raw = Inr fs \<Longrightarrow>
   map (fi_itemIndex \<circ> snd) fs = map int [index..<index + length raw] \<and> distinct (map (fi_itemKey \<circ> snd) fs) \<and>
   set (map (fi_itemKey \<circ> snd) fs) \<inter> set keys = {} \<and> list_all item_bounds (map snd fs)"
proof (induction turnId spec index keys raw arbitrary: fs rule: freeze_items.induct)
  case (1 turnId spec index keys)
  then show ?case by simp
next
  case (2 turnId spec index keys v rest)
  from "2.prems" obtain item f more where step: "freeze_item turnId spec index keys v = Inr (item, f)"
      and rest: "freeze_items turnId spec (Suc index) (fi_itemKey f # keys) rest = Inr more" and fs: "fs = (item, f) # more"
    by auto
  from "2.IH" [OF rest] freeze_item_shape [OF step] show ?case
    by (auto simp: fs upt_conv_Cons simp del: upt_Suc)
qed

text \<open>What freezing accepts is what the store of mapped runs expects.\<close>

lemma freeze_accepts:
  assumes "freezeMappedItems turnId spec ctx = Inr frozen"
  shows "map fi_itemIndex (fz_items frozen) = map int [0..<length (fz_items frozen)]"
    and "distinct (map fi_itemKey (fz_items frozen))" and "list_all item_bounds (fz_items frozen)"
    and "length (fz_items frozen) \<le> MAPPED_ITEM_MAX_COUNT"
proof -
  from assms obtain raw fs where raw: "length raw \<le> MAPPED_ITEM_MAX_COUNT" "freeze_items turnId spec 0 [] raw = Inr fs"
      and fz: "fz_items frozen = map snd fs"
    unfolding freezeMappedItems_def attempt_bind_Inr
    by (elim exE conjE) (auto simp: not_less simp del: attempt_bind_def split: if_splits option.splits)
  note shape = freeze_items_shape [OF raw(2)]
  then have "map (fi_itemIndex \<circ> snd) fs = map int [0..<length raw]" by simp
  then have len: "length fs = length raw" by (metis length_map length_upt minus_nat.diff_0)
  show "map fi_itemIndex (fz_items frozen) = map int [0..<length (fz_items frozen)]"
    "distinct (map fi_itemKey (fz_items frozen))" "list_all item_bounds (fz_items frozen)"
    "length (fz_items frozen) \<le> MAPPED_ITEM_MAX_COUNT"
    using shape len raw(1) by (simp_all add: fz)
qed

section \<open>Rows of routed plans\<close>

lemma merge_two:
  assumes "mergeWrites [Some a, Some b] = Inr m"
  shows "w_turnStartWrites m = w_turnStartWrites a @ w_turnStartWrites b"
    "w_mappedRunWrites m = w_mappedRunWrites a @ w_mappedRunWrites b"
  using assms by (auto simp: mergeWrites_def createWrites_def no_writes_def merge_step_def split: if_splits)

lemma reserve_run_writes:
  "w_mappedRunWrites (reserveSelectedTurnStart startId recordId w p t ty it) = w_mappedRunWrites w"
  by (simp add: reserveSelectedTurnStart_def Let_def plan_simps)

lemma selection_rows:
  assumes "buildTurnSelectionWrites startId recordId graphs p sel = Inr (Inr w)"
  shows "w_mappedRunWrites w = [] \<and> (w_turnStartWrites w = [] \<or> (\<exists>si. w_turnStartWrites w = [CreateStart si] \<and> si_iteration si = None))"
proof -
  obtain status where pl: "selection_plan startId recordId graphs p sel status = Inr w"
    using assms by (rule selection_cases) auto
  then obtain w3 where w3: "plan_execution startId recordId graphs p (sel_toTurnId sel) status (selection_base p sel status) = Inr w3"
      "w_turnStartWrites w = w_turnStartWrites w3" "w_mappedRunWrites w = w_mappedRunWrites w3"
    by (auto simp: selection_plan_def plan_simps split: if_splits)
  have base: "w_mappedRunWrites (selection_base p sel st) = []" for st
    by (simp add: selection_base_def Let_def plan_simps createWrites_def no_writes_def)
  from w3(1) show ?thesis
    by (cases rule: plan_execution_cases)
      (simp_all add: w3 plan_simps selection_base_rows reserve_starts reserve_run_writes base)
qed

lemma collect_rows:
  assumes "collectAndRoute env ids p ctx spec turnId runId rs = Inr (Inr w)"
  shows "(\<exists>c. collectMappedResults turnId spec ctx rs = Inr c) \<and> w_mappedRunWrites w = [] \<and>
    (w_turnStartWrites w = [] \<or> (\<exists>si. w_turnStartWrites w = [CreateStart si] \<and> si_iteration si = None))"
proof -
  from assms obtain c where c: "collectMappedResults turnId spec ctx rs = Inr c"
    by (cases "collectMappedResults turnId spec ctx rs")
      (auto simp: collectAndRoute_def build_failure_def elim!: planningFailure.elims)
  with assms obtain w1 where w1: "buildServerTransitionWrites (id_start ids) (id_turnRecord ids) (me_graphs env) p
        \<lparr>rq_stateJson = Some (me_stringify env (cl_state c)), rq_turnId = Some (cl_nextTurnId c),
         rq_trigger = Some (cl_trigger c), rq_lifecycleStatus = cl_lifecycleStatus c, rq_runtime = RuntimeNone\<rparr> = Inr (Inr w1)"
      and rows: "w_mappedRunWrites w = w_mappedRunWrites w1" "w_turnStartWrites w = w_turnStartWrites w1"
    by (auto simp: collectAndRoute_def plan_simps split: sum.splits)
  from w1 obtain sel w2 b where sel: "buildTurnSelectionWrites (id_start ids) (id_turnRecord ids) (me_graphs env) p sel = Inr (Inr w2)"
      and m: "mergeWrites [Some w2, Some b] = Inr w1" and b: "w_mappedRunWrites b = []" "w_turnStartWrites b = []"
    by (auto simp: buildServerTransitionWrites_def Let_def plan_simps createWrites_def no_writes_def split: sum.splits)
  show ?thesis using c selection_rows [OF sel] merge_two [OF m] b by (simp add: rows)
qed

section \<open>The outcome of an item\<close>

lemma those_map_Some: "(\<And>x. x \<in> set xs \<Longrightarrow> f x = Some (g x)) \<Longrightarrow> those (map f xs) = Some (map g xs)"
  by (induction xs) auto

text \<open>When the current item is the last one, the results collected are the recorded ones and its own.\<close>

lemma results_with_last:
  assumes db: "db_consistent db" and r: "getRunById db rid = Some r"
    and cur: "mr_status r = RunActive" "mr_nextIndex r = it_itemIndex item" "\<not> it_itemIndex item + 1 < mr_itemCount r"
  shows "results_with (listItems db rid) item res = Some (results db rid @ [res])"
proof -
  let ?is = "items_of db rid" and ?k = "nat (it_itemIndex item)"
  have c: "run_consistent db r" and id: "mr_id r = rid" using consistent_run [OF db r] by auto
  have n: "length ?is = Suc ?k" using c id cur by (auto simp: run_consistent_def)
  have ix: "it_itemIndex (?is ! j) = int j" if "j < length ?is" for j using items_of_index [OF c] that id by simp
  have kr: "results db rid = map (the \<circ> it_resultJson) (take ?k ?is)"
    using conjunct1 [OF results_consistent [OF db r]] cur(2) by simp
  then have len: "length (results db rid) = ?k" using n by simp
  let ?g = "\<lambda>s. if it_itemIndex s = it_itemIndex item then res else the (it_resultJson s)"
  have nonneg: "0 \<le> it_itemIndex item" using c cur(2) by (simp add: run_consistent_def)
  have "those (map (\<lambda>s. if it_itemIndex s = it_itemIndex item then Some res else it_resultJson s) ?is) = Some (map ?g ?is)"
  proof (rule those_map_Some)
    fix x assume "x \<in> set ?is"
    then obtain j where j: "j < length ?is" "x = ?is ! j" unfolding in_set_conv_nth by blast
    show "(if it_itemIndex x = it_itemIndex item then Some res else it_resultJson x) = Some (?g x)"
    proof (cases "j < ?k")
      case True
      then show ?thesis using recorded_item [OF db r, of j] len by (simp add: j(2))
    next
      case False
      then have "it_itemIndex x = it_itemIndex item" using j n ix [of j] nonneg by simp
      then show ?thesis by simp
    qed
  qed
  moreover have "map ?g ?is = map ?g (take ?k ?is) @ [?g (?is ! ?k)]"
  proof -
    have "map ?g ?is = map ?g (take (Suc ?k) ?is)" using n by simp
    also have "take (Suc ?k) ?is = take ?k ?is @ [?is ! ?k]" by (rule take_Suc_conv_app_nth) (simp add: n)
    finally show ?thesis by (simp only: map_append list.map)
  qed
  moreover have "map ?g (take ?k ?is) = results db rid"
    unfolding kr by (rule nth_equalityI) (use ix n nonneg in auto)
  moreover have "?g (?is ! ?k) = res" using ix [of ?k] n nonneg by simp
  ultimately show ?thesis by (simp add: results_with_def listItems_consistent [OF db])
qed

text \<open>The item after the current one is current once the current one is completed.\<close>

lemma next_item_current:
  assumes db: "db_consistent db" and r: "getRunById db (co_runId inp) = Some r" and cur: "current_item r inp"
    and nxt: "getItem db (co_runId inp) (co_itemIndex inp + 1) = Some nxt" and db': "completeItem ts db inp = Inr (run', db')"
    and less: "co_itemIndex inp + 1 < mr_itemCount r"
  shows "\<exists>r'. getRunById db' (co_runId inp) = Some r' \<and> mr_status r' = RunActive \<and> mr_turnId r' = mr_turnId r \<and>
    mr_nextIndex r' = co_itemIndex inp + 1 \<and> getItem db' (co_runId inp) (co_itemIndex inp + 1) = Some nxt \<and>
    it_status nxt = ItemPending"
proof -
  let ?db' = "completed_db ts db inp (mr_itemCount r)"
  have eq: "db' = ?db'" and cons: "db_consistent ?db'" using completed_consistent [OF db r cur, of ts] db' by auto
  have c: "run_consistent db r" and id: "mr_id r = co_runId inp" using consistent_run [OF db r] by auto
  have n: "nxt \<in> set (items_of db (co_runId inp))" "it_itemIndex nxt = co_itemIndex inp + 1"
    using nxt db by (auto simp: db_consistent_def getItem_Some)
  have pend: "it_status nxt = ItemPending"
    using c id n cur by (cases "it_status nxt") (auto simp: run_consistent_def current_item_def)
  have "complete_row ts inp nxt = nxt" using n(2) by (simp add: complete_row_def item_selected_def)
  then have "nxt \<in> set (items_of ?db' (co_runId inp))" using n(1) by (force simp: items_of_completed)
  then have "getItem ?db' (co_runId inp) (co_itemIndex inp + 1) = Some nxt"
    using cons n(2) by (simp add: db_consistent_def getItem_Some)
  moreover have "getRunById ?db' (co_runId inp) =
      Some (advance_run ts (co_runId inp) (co_itemIndex inp + 1) (mr_itemCount r) r)"
    using r by (simp add: completed_db_def getRunById_def find_map_key)
  ultimately show ?thesis using less pend id by (simp add: eq advance_run_def)
qed

text \<open>Completing the current item of a consistent store.\<close>

lemma complete_appends:
  assumes db: "db_consistent db" and r: "getRunById db (co_runId inp) = Some r" and cur: "current_item r inp"
  shows "\<exists>run' db'. completeItem ts db inp = Inr (run', db') \<and> db_consistent db' \<and>
    results db' (co_runId inp) = results db (co_runId inp) @ [co_resultJson inp] \<and>
    (\<exists>r'. getRunById db' (co_runId inp) = Some r' \<and> mr_itemCount r' = mr_itemCount r \<and>
      mr_status r' = (if co_itemIndex inp + 1 = mr_itemCount r then RunCompleted else RunActive))"
proof -
  let ?db' = "completed_db ts db inp (mr_itemCount r)"
  have "getRunById ?db' (co_runId inp) =
      Some (advance_run ts (co_runId inp) (co_itemIndex inp + 1) (mr_itemCount r) r)"
    using r by (simp add: completed_db_def getRunById_def find_map_key)
  then show ?thesis
    using completed_consistent [OF db r cur, of ts] completed_results [OF db r cur, of ts] consistent_run [OF db r]
    by (simp add: advance_run_def)
qed

lemma planning_failure_not_granted: "planningFailure e code \<noteq> Inr (Inr w)"
  by (cases e) (simp_all add: build_failure_def)

lemma record_item_cases:
  assumes "record_item env ids db p ctx payload spec run item res = Inr (Inr w)"
  defines "inp \<equiv> \<lparr>co_runId = mr_id run, co_itemIndex = it_itemIndex item, co_outcome = op_outcome payload,
      co_resultJson = res, co_turnRecordId = op_turnRecordId payload\<rparr>"
  obtains (more) nxt where "it_itemIndex item + 1 < mr_itemCount run" "getItem db (mr_id run) (it_itemIndex item + 1) = Some nxt"
      "w_mappedRunWrites w = [CompleteMappedItem inp]"
      "w = (reserveSelectedTurnStart (id_start ids) (id_turnRecord ids)
         (push_run_write (createWrites no_writes) (CompleteMappedItem inp)) p (op_turnId payload) LlmTurn
         (Some \<lparr>mi_runId = mr_id run, mi_itemKey = it_itemKey nxt, mi_itemIndex = it_itemIndex item + 1\<rparr>))
         \<lparr>w_workerIntent := Some Reconcile\<rparr>"
  | (last) rs c where "\<not> it_itemIndex item + 1 < mr_itemCount run"
      "results_with (listItems db (mr_id run)) item res = Some rs"
      "collectMappedResults (op_turnId payload) spec ctx rs = Inr c" "w_mappedRunWrites w = [CompleteMappedItem inp]"
proof (cases "it_itemIndex item + 1 < mr_itemCount run")
  case True
  have base: "w_mappedRunWrites (push_run_write (createWrites no_writes) x) = [x]" for x
    by (simp add: push_run_write_def createWrites_def no_writes_def)
  from assms(1) True obtain nxt where "getItem db (mr_id run) (it_itemIndex item + 1) = Some nxt"
      and "w = (reserveSelectedTurnStart (id_start ids) (id_turnRecord ids)
         (push_run_write (createWrites no_writes) (CompleteMappedItem inp)) p (op_turnId payload) LlmTurn
         (Some \<lparr>mi_runId = mr_id run, mi_itemKey = it_itemKey nxt, mi_itemIndex = it_itemIndex item + 1\<rparr>))
         \<lparr>w_workerIntent := Some Reconcile\<rparr>"
    by (auto simp: record_item_def Let_def build_failure_def inp_def split: option.splits)
  then show thesis using True by (intro more) (simp_all add: reserve_run_writes base)
next
  case False
  with assms(1) obtain rs r where rs: "results_with (listItems db (mr_id run)) item res = Some rs"
      and r: "collectAndRoute env ids p ctx spec (op_turnId payload) (mr_id run) rs = Inr (Inr r)"
      and m: "mergeWrites [Some (push_run_write (createWrites no_writes) (CompleteMappedItem inp)), Some r] = Inr w"
    by (auto simp: record_item_def Let_def build_failure_def inp_def case_result_simps split: option.splits)
  obtain c where "collectMappedResults (op_turnId payload) spec ctx rs = Inr c" "w_mappedRunWrites r = []"
    using collect_rows [OF r] by blast
  then show thesis
    using merge_two(2) [OF m] rs False by (intro last) (simp_all add: push_run_write_def createWrites_def no_writes_def)
qed

lemma outcome_cases:
  assumes "buildMappedItemOutcomeWrites env ids registry (Some db) p projects payload spec iteration prepared = Inr (Inr w)"
  obtains ref run item ctx res where "iteration = Some ref" "getRunById db (mi_runId ref) = Some run"
    "getItem db (mi_runId ref) (mi_itemIndex ref) = Some item" "current_iteration payload ref run item"
    "serverContext (me_parseJson env) registry p projects = Inr ctx"
    "yieldMappedItemResult (op_turnId payload) spec ctx (iteration_of run item) (outcome_event_of payload prepared) = Inr res"
    "record_item env ids db p ctx payload spec run item res = Inr (Inr w)"
proof -
  let ?yield = "\<lambda>ctx run item. yieldMappedItemResult (op_turnId payload) spec ctx (iteration_of run item) (outcome_event_of payload prepared)"
  from assms obtain ref run item ctx where 1: "iteration = Some ref" "getRunById db (mi_runId ref) = Some run"
      "getItem db (mi_runId ref) (mi_itemIndex ref) = Some item" "current_iteration payload ref run item"
      "serverContext (me_parseJson env) registry p projects = Inr ctx"
    and rest: "(case ?yield ctx run item of Inl e \<Rightarrow> planningFailure e ''invalid_mapped_result''
      | Inr res \<Rightarrow> record_item env ids db p ctx payload spec run item res) = Inr (Inr w)"
    by (auto simp: buildMappedItemOutcomeWrites_def Let_def build_failure_def split: option.splits if_splits)
  then show thesis
    using that by (cases "?yield ctx run item") (auto simp: planning_failure_not_granted)
qed

section \<open>Entering mapped turns\<close>

fun is_create :: "turn_start_write \<Rightarrow> bool" where
  "is_create (CreateStart _) = True"
| "is_create (CasStartState _ _ _ _) = False"

definition start_count :: "writes \<Rightarrow> nat" where
  "start_count w = length (filter is_create (w_turnStartWrites w))"

lemma find_entry_some:
  "find_entry sel ws = Some (i, si) \<Longrightarrow> i < length ws \<and> ws ! i = CreateStart si \<and> entry_start sel si"
  by (induction sel ws arbitrary: i rule: find_entry.induct) (auto split: if_splits)

lemma find_entry_none: "find_entry sel ws = None \<longleftrightarrow> (\<forall>si. CreateStart si \<in> set ws \<longrightarrow> \<not> entry_start sel si)"
  by (induction sel ws rule: find_entry.induct) auto

lemma filter_split:
  assumes "i < length ws"
  shows "filter P ws = filter P (take i ws) @ (if P (ws ! i) then [ws ! i] else []) @ filter P (drop (Suc i) ws)"
proof -
  have "filter P ws = filter P (take i ws @ ws ! i # drop (Suc i) ws)" using id_take_nth_drop [OF assms] by metis
  then show ?thesis by simp
qed

lemma removed_start:
  assumes "i < length ws" "ws ! i = CreateStart si"
  shows "length (filter is_create ws) = Suc (length (filter is_create (take i ws @ drop (Suc i) ws)))"
  using filter_split [OF assms(1), of is_create] assms(2) by simp

lemma removed_subset: "set (take i ws @ drop (Suc i) ws) \<subseteq> set ws"
  by (auto dest: in_set_takeD in_set_dropD)

lemma defer_rows:
  assumes "deferTurnWaitStarts waitId graphs p w md = Inr w'"
  shows "w_mappedRunWrites w' = w_mappedRunWrites w \<and> start_count w' \<le> start_count w \<and>
    set (w_turnStartWrites w') \<subseteq> set (w_turnStartWrites w)"
  using assms
proof (cases rule: defer_cases)
  case (held previous i si)
  have "w_turnStartWrites w' = take i (w_turnStartWrites w) @ drop (Suc i) (w_turnStartWrites w)"
    "w_mappedRunWrites w' = w_mappedRunWrites w"
    by (simp_all add: held(5) hold_start_def Let_def writeTurnWait_def plan_simps)
  then show ?thesis
    using removed_start [OF find_start_some(1,2) [OF held(3)]] removed_subset [of i "w_turnStartWrites w"]
    by (simp add: start_count_def)
next
  case cleared
  then show ?thesis by (simp add: writeTurnWait_def Let_def plan_simps start_count_def)
qed simp

lemma freeze_plan_rows:
  "w_turnStartWrites (freeze_plan env ids p candidate turnId frozen w) = w_turnStartWrites w"
  "w_mappedRunWrites (freeze_plan env ids p candidate turnId frozen w) = w_mappedRunWrites w @ [CreateMappedRun
     \<lparr>cm_id = id_run ids, cm_instanceId = pi_id p, cm_turnId = turnId,
      cm_status = (if fz_items frozen \<noteq> [] then RunActive else RunCompleted), cm_items = fz_items frozen\<rparr>]"
  by (simp_all add: freeze_plan_def Let_def push_run_write_def plan_simps split: option.splits)

text \<open>The two ways in which an entered turn goes on.\<close>

lemma enter_turn_cases [consumes 1, case_names granted bound routed]:
  assumes "enter_turn env ids projects p candidate registry spec i si w = Inr r" "\<And>f. r \<noteq> Inl (Inl f)"
  obtains (bound) frozen first rest ctx where "freezeMappedItems (si_turnId si) spec ctx = Inr frozen"
      "fz_items frozen = first # rest"
      "r = Inl (Inr (bind_first ids i si first (freeze_plan env ids p candidate (si_turnId si) frozen w)))"
  | (routed) frozen ctx ctx' where "freezeMappedItems (si_turnId si) spec ctx = Inr frozen" "fz_items frozen = []"
      "route_empty env ids p spec ctx' i (si_turnId si) (freeze_plan env ids p candidate (si_turnId si) frozen w) = Inr r"
proof -
  obtain ctx where ctx: "serverContext (me_parseJson env) registry candidate projects = Inr ctx"
    using assms(1) by (auto simp: enter_turn_def)
  show thesis
  proof (cases "freezeMappedItems (si_turnId si) spec ctx")
    case (Inl e)
    then obtain x where "planningFailure e ''invalid_mapped_items'' = Inr x" "r = Inl x"
      using assms(1) ctx by (auto simp: enter_turn_def)
    then show thesis using planning_failure_not_granted [of e] assms(2) by (cases x) auto
  next
    case (Inr frozen)
    then show thesis
      using assms(1) ctx bound routed by (cases "fz_items frozen") (auto simp: enter_turn_def Let_def)
  qed
qed

lemma route_empty_rows:
  assumes "route_empty env ids p spec ctx i turnId w = Inr (Inr w')"
  obtains r where "w_mappedRunWrites w' = w_mappedRunWrites w"
    "w_turnStartWrites w' = take i (w_turnStartWrites w) @ drop (Suc i) (w_turnStartWrites w) @ r"
    "r = [] \<or> (\<exists>si. r = [CreateStart si] \<and> si_iteration si = None)"
proof -
  let ?w2 = "w\<lparr>w_turnStartWrites := take i (w_turnStartWrites w) @ drop (Suc i) (w_turnStartWrites w)\<rparr>"
  from assms obtain y where y: "collectAndRoute env ids (with_patch p (w_processPatch w)) ctx spec turnId (id_run ids) [] = Inr y"
    by (auto simp: route_empty_def Let_def)
  then obtain x where "y = Inr x" and m: "appendInto ?w2 x = Inr w'"
    using assms by (cases y) (auto simp: route_empty_def Let_def)
  then have x: "collectAndRoute env ids (with_patch p (w_processPatch w)) ctx spec turnId (id_run ids) [] = Inr (Inr x)"
    using y by simp
  from m obtain y where y: "mergeWrites [Some ?w2, Some x] = Inr y" "w' = y\<lparr>w_preserveUpdatedAt := w_preserveUpdatedAt w\<rparr>"
    by (auto simp: appendInto_def)
  show thesis by (rule that [of "w_turnStartWrites x"]) (use collect_rows [OF x] merge_two [OF y(1)] y(2) in auto)
qed

lemma route_empty_ends: "route_empty env ids p spec ctx i turnId w \<noteq> Inr (Inl (Inr w'))"
  unfolding route_empty_def Let_def throws_bind_Inr by (auto split: sum.split)

subsection \<open>Commits of entry plans\<close>

definition idle :: "string \<Rightarrow> run_logs \<Rightarrow> bool" where
  "idle inst A \<longleftrightarrow> (\<forall>rid l. A rid = Some l \<longrightarrow> lg_instanceId l = inst \<longrightarrow> lg_status l \<noteq> RunActive)"

lemma spec_writes_append:
  "spec_writes inst (ws @ vs) A = Option.bind (spec_writes inst ws A) (spec_writes inst vs)"
  by (induction ws arbitrary: A) (auto split: bind_splits)

lemma idle_abort: "idle inst (spec_abort A inst)"
proof -
  have "lg_status l \<noteq> RunActive" if "spec_abort A inst rid = Some l" "lg_instanceId l = inst" for rid l
    using that by (cases "A rid") (auto simp: spec_abort_def split: if_splits)
  then show ?thesis by (auto simp: idle_def)
qed

lemma dom_abort: "dom (spec_abort A inst) = dom A"
  by (auto simp: spec_abort_def dom_def)

lemma idle_complete: "spec_complete A inp = Some B \<Longrightarrow> dom B = dom A \<and> (idle inst A \<longrightarrow> idle inst B)"
  by (auto simp: spec_complete_Some idle_def split: if_splits)

fun creates_run :: "mapped_run_write \<Rightarrow> bool" where
  "creates_run (CreateMappedRun _) = True"
| "creates_run _ = False"

lemma no_create_frozen: "\<not> creates_run w \<Longrightarrow> frozen_write w"
  by (cases w) auto

lemma no_creates:
  "spec_writes inst ws A = Some B \<Longrightarrow> list_all (\<lambda>w. \<not> creates_run w) ws \<Longrightarrow>
   dom B = dom A \<and> (idle inst A \<longrightarrow> idle inst B) \<and> list_all frozen_write ws"
proof (induction ws arbitrary: A)
  case (Cons w ws)
  then obtain C where C: "spec_write inst A w = Some C" "spec_writes inst ws C = Some B" by (auto simp: bind_eq_Some_conv)
  have "dom C = dom A \<and> (idle inst A \<longrightarrow> idle inst C) \<and> frozen_write w"
  proof (cases w)
    case (CompleteMappedItem inp)
    then show ?thesis using C(1) idle_complete by simp
  next
    case AbortActiveMappedRun
    then have "C = spec_abort A inst" using C(1) by simp
    then show ?thesis by (simp only: idle_abort dom_abort AbortActiveMappedRun frozen_write.simps simp_thms)
  qed (use Cons.prems(2) in simp)
  then show ?case using Cons.IH [OF C(2)] Cons.prems(2) by simp
qed simp

lemma idle_store: "db_consistent db \<Longrightarrow> getActiveByInstance db inst = None \<Longrightarrow> idle inst (run_logs db)"
  by (auto simp: idle_def db_consistent_def run_logs_Some getActiveByInstance_def find_None_iff log_of_def)

text \<open>A start is bound to the first item of a run that has just been created.\<close>

definition fresh_item :: "run_logs \<Rightarrow> start_input \<Rightarrow> mapped_item_ref \<Rightarrow> bool" where
  "fresh_item A si ref \<longleftrightarrow> (\<exists>l x xs. A (mi_runId ref) = Some l \<and> lg_status l = RunActive \<and> lg_turnId l = si_turnId si \<and>
     lg_results l = [] \<and> lg_items l = x # xs \<and> mi_itemKey ref = fst x \<and> mi_itemIndex ref = 0)"

lemma fresh_item_current:
  assumes db: "db_consistent db" and ref: "fresh_item (run_logs db) si ref" and payload: "op_turnId payload = si_turnId si"
  shows "\<exists>run item. getRunById db (mi_runId ref) = Some run \<and> getItem db (mi_runId ref) (mi_itemIndex ref) = Some item \<and>
    current_iteration payload ref run item"
proof -
  from ref obtain run x xs where run: "getRunById db (mi_runId ref) = Some run" "mr_status run = RunActive"
      "mr_turnId run = si_turnId si" "results db (mr_id run) = []"
      "map (\<lambda>i. (it_itemKey i, it_label i, it_itemJson i)) (listItems db (mr_id run)) = x # xs"
      "mi_itemKey ref = fst x" "mi_itemIndex ref = 0"
    by (auto simp: fresh_item_def run_logs_def log_of_def)
  have c: "run_consistent db run" and id: "mr_id run = mi_runId ref" using consistent_run [OF db run(1)] by auto
  have nxt: "mr_nextIndex run = 0" using conjunct1 [OF conjunct2 [OF results_consistent [OF db run(1)]]] run(4) id by simp
  let ?i = "items_of db (mi_runId ref) ! 0"
  have ne: "items_of db (mi_runId ref) \<noteq> []" and key: "it_itemKey ?i = fst x"
    using run(5) id by (auto simp: listItems_consistent [OF db])
  then have i: "?i \<in> set (items_of db (mi_runId ref))" "it_itemIndex ?i = 0"
    using items_of_index [OF c, of 0] id by auto
  then have "getItem db (mi_runId ref) (mi_itemIndex ref) = Some ?i"
    using db run(7) by (simp add: db_consistent_def getItem_Some)
  moreover have "it_status ?i = ItemPending"
    using c id i nxt by (cases "it_status ?i") (auto simp: run_consistent_def)
  ultimately show ?thesis using run nxt key payload by (simp add: current_iteration_def)
qed

lemma bound_run_allowed:
  assumes "idle inst A" "cm_instanceId inp = inst" "cm_id inp \<notin> dom A"
  shows "\<exists>B. spec_create A inp = Some B \<and> dom B = insert (cm_id inp) (dom A) \<and>
    (cm_status inp \<noteq> RunActive \<longrightarrow> idle inst B) \<and>
    B (cm_id inp) = Some \<lparr>lg_instanceId = cm_instanceId inp, lg_turnId = cm_turnId inp, lg_status = cm_status inp,
      lg_items = map (\<lambda>i. (fi_itemKey i, fi_label i, fi_itemJson i)) (cm_items inp), lg_results = []\<rparr>"
  using assms by (auto simp: spec_create_def idle_def ran_def)

text \<open>The plan on entry of a round, and the plan with which the loop ends.\<close>

definition entry_inv :: "process_instance \<Rightarrow> (nat \<Rightarrow> entry_ids) \<Rightarrow> run_logs \<Rightarrow> turn_start_write set \<Rightarrow> bool \<Rightarrow> nat \<Rightarrow> writes \<Rightarrow> bool" where
  "entry_inv p ids A0 S free entry w \<longleftrightarrow> list_all frozen_write (w_mappedRunWrites w) \<and> start_count w \<le> 1 \<and>
     (\<forall>si. CreateStart si \<in> set (w_turnStartWrites w) \<longrightarrow> si_iteration si \<noteq> None \<longrightarrow> CreateStart si \<in> S) \<and>
     (\<exists>A. spec_writes (pi_id p) (w_mappedRunWrites w) A0 = Some A \<and> (free \<longrightarrow> idle (pi_id p) A) \<and>
        dom A \<subseteq> dom A0 \<union> (\<lambda>i. id_run (ids i)) ` {..<entry})"

definition entered :: "mapped_env \<Rightarrow> process_instance \<Rightarrow> run_logs \<Rightarrow> turn_start_write set \<Rightarrow> writes \<Rightarrow> bool" where
  "entered env p A0 S w \<longleftrightarrow> list_all frozen_write (w_mappedRunWrites w) \<and> start_count w \<le> 1 \<and>
     (\<forall>si. CreateStart si \<in> set (w_turnStartWrites w) \<longrightarrow> entry_start (pi_selectedTurnId (committed p w)) si \<longrightarrow>
        getMappedTurnSpec (me_registry env) (pi_processId p) (Some (si_turnId si)) = None) \<and>
     (\<exists>A. spec_writes (pi_id p) (w_mappedRunWrites w) A0 = Some A \<and>
        (\<forall>si ref. CreateStart si \<in> set (w_turnStartWrites w) \<longrightarrow> si_iteration si = Some ref \<longrightarrow>
           CreateStart si \<in> S \<or> fresh_item A si ref))"

lemma entry_inv_defer:
  assumes "deferTurnWaitStarts waitId graphs p w md = Inr w1" "entry_inv p ids A0 S free entry w"
  shows "entry_inv p ids A0 S free entry w1"
  using defer_rows [OF assms(1)] assms(2) unfolding entry_inv_def by (metis le_trans subsetD)

lemma entry_inv_abort:
  assumes "entry_inv p ids A0 S free entry w"
  shows "entry_inv p ids A0 S True entry (push_run_write w AbortActiveMappedRun)"
proof -
  from assms obtain A where A: "spec_writes (pi_id p) (w_mappedRunWrites w) A0 = Some A"
      "dom A \<subseteq> dom A0 \<union> (\<lambda>i. id_run (ids i)) ` {..<entry}"
    by (auto simp: entry_inv_def)
  then have "spec_writes (pi_id p) (w_mappedRunWrites (push_run_write w AbortActiveMappedRun)) A0 = Some (spec_abort A (pi_id p))"
    by (simp add: push_run_write_def spec_writes_append)
  then show ?thesis
    using assms A(2) idle_abort dom_abort unfolding entry_inv_def
    by (simp add: push_run_write_def start_count_def)
qed

lemma single_start:
  assumes "start_count w \<le> 1" "i < length (w_turnStartWrites w)" "w_turnStartWrites w ! i = CreateStart si"
  shows "filter is_create (take i (w_turnStartWrites w) @ drop (Suc i) (w_turnStartWrites w)) = []"
    and "CreateStart sj \<in> set (w_turnStartWrites w) \<Longrightarrow> sj = si"
proof -
  show *: "filter is_create (take i (w_turnStartWrites w) @ drop (Suc i) (w_turnStartWrites w)) = []"
    using removed_start [OF assms(2,3)] assms(1) by (simp add: start_count_def)
  assume "CreateStart sj \<in> set (w_turnStartWrites w)"
  then have "CreateStart sj \<in> set (filter is_create (w_turnStartWrites w))" by simp
  also have "filter is_create (w_turnStartWrites w) = [CreateStart si]"
    using filter_split [OF assms(2), of is_create] * assms(3) by simp
  finally show "sj = si" by simp
qed

lemma replaced_start:
  assumes "filter is_create (take i ws @ drop (Suc i) ws) = []" "i < length ws"
  shows "filter is_create (ws[i := CreateStart si]) = [CreateStart si]"
  using filter_split [of i "ws[i := CreateStart si]" is_create] assms by simp

text \<open>The run an entered turn creates is allowed.\<close>

lemma entry_inv_create:
  fixes env :: mapped_env and candidate :: process_instance
  assumes inv: "entry_inv p ids A0 S True entry w" and fz: "freezeMappedItems turnId spec ctx = Inr frozen"
    and fresh: "id_run (ids entry) \<notin> dom A0" "id_run (ids entry) \<notin> (\<lambda>i. id_run (ids i)) ` {..<entry}"
  defines "w1 \<equiv> freeze_plan env (ids entry) p candidate turnId frozen w"
  shows "list_all frozen_write (w_mappedRunWrites w1) \<and> (\<exists>B. spec_writes (pi_id p) (w_mappedRunWrites w1) A0 = Some B \<and>
    dom B \<subseteq> dom A0 \<union> (\<lambda>i. id_run (ids i)) ` {..<Suc entry} \<and> (fz_items frozen = [] \<longrightarrow> idle (pi_id p) B) \<and>
    B (id_run (ids entry)) = Some \<lparr>lg_instanceId = pi_id p, lg_turnId = turnId,
      lg_status = (if fz_items frozen \<noteq> [] then RunActive else RunCompleted),
      lg_items = map (\<lambda>i. (fi_itemKey i, fi_label i, fi_itemJson i)) (fz_items frozen), lg_results = []\<rparr>)"
proof -
  let ?inp = "\<lparr>cm_id = id_run (ids entry), cm_instanceId = pi_id p, cm_turnId = turnId,
      cm_status = (if fz_items frozen \<noteq> [] then RunActive else RunCompleted), cm_items = fz_items frozen\<rparr>"
  from inv obtain A where A: "spec_writes (pi_id p) (w_mappedRunWrites w) A0 = Some A" "idle (pi_id p) A"
      "dom A \<subseteq> dom A0 \<union> (\<lambda>i. id_run (ids i)) ` {..<entry}"
    by (auto simp: entry_inv_def)
  have "cm_id ?inp \<notin> dom A" using A(3) fresh by auto
  from bound_run_allowed [OF A(2) _ this] obtain B where B: "spec_create A ?inp = Some B"
      "dom B = insert (id_run (ids entry)) (dom A)" "fz_items frozen = [] \<longrightarrow> idle (pi_id p) B"
      "B (id_run (ids entry)) = Some \<lparr>lg_instanceId = pi_id p, lg_turnId = turnId,
        lg_status = (if fz_items frozen \<noteq> [] then RunActive else RunCompleted),
        lg_items = map (\<lambda>i. (fi_itemKey i, fi_label i, fi_itemJson i)) (fz_items frozen), lg_results = []\<rparr>"
    by (cases "fz_items frozen = []") auto
  have frozen: "frozen_run ?inp" using freeze_accepts [OF fz] by (simp add: frozen_run_def)
  have "spec_writes (pi_id p) (w_mappedRunWrites w1) A0 = Some B"
    using A(1) B(1) by (simp add: w1_def freeze_plan_rows spec_writes_append)
  moreover have "dom B \<subseteq> dom A0 \<union> (\<lambda>i. id_run (ids i)) ` {..<Suc entry}" using A(3) B(2) by (auto simp: lessThan_Suc)
  moreover have "list_all frozen_write (w_mappedRunWrites w1)"
    using inv frozen by (simp add: w1_def freeze_plan_rows entry_inv_def)
  ultimately show ?thesis using B(3,4) by blast
qed

lemma entry_round_ends:
  assumes "entry_round env ids mr projects p active entry aborted w = Inr (Inl (Inr w'))"
  obtains (other) w1 where "deferTurnWaitStarts (id_wait ids) (me_graphs env) p w None = Inr w1"
      "w' = w1 \<or> w' = push_run_write w1 AbortActiveMappedRun"
      "\<forall>i si. find_entry (pi_selectedTurnId (committed p w1)) (w_turnStartWrites w1) = Some (i, si) \<longrightarrow>
         getMappedTurnSpec (me_registry env) (pi_processId p) (Some (si_turnId si)) = None"
  | (enter) w1 i si registry spec where "deferTurnWaitStarts (id_wait ids) (me_graphs env) p w None = Inr w1"
      "find_entry (pi_selectedTurnId (committed p w1)) (w_turnStartWrites w1) = Some (i, si)"
      "enter_turn env ids projects p (committed p w1) registry spec i si
         (if active \<noteq> None \<and> \<not> aborted then push_run_write w1 AbortActiveMappedRun else w1) = Inr (Inl (Inr w'))"
proof -
  obtain w1 where w1: "deferTurnWaitStarts (id_wait ids) (me_graphs env) p w None = Inr w1"
    using assms by (auto simp: entry_round_def)
  have reg: "getMappedTurnSpec (me_registry env) x y = None" if "me_registry env = None" for x y
    using that by (simp add: getMappedTurnSpec_def)
  show thesis
    using assms w1 other enter reg
    by (auto simp: entry_round_def Let_def committed_def build_failure_def with_patch_def
        split: option.splits if_splits prod.splits)
qed

lemma entry_round_goes_on:
  assumes "entry_round env ids mr projects p active entry aborted w = Inr (Inr w')"
  obtains w1 i si registry spec where "deferTurnWaitStarts (id_wait ids) (me_graphs env) p w None = Inr w1"
      "find_entry (pi_selectedTurnId (committed p w1)) (w_turnStartWrites w1) = Some (i, si)"
      "enter_turn env ids projects p (committed p w1) registry spec i si
         (if active \<noteq> None \<and> \<not> aborted then push_run_write w1 AbortActiveMappedRun else w1) = Inr (Inr w')"
proof -
  obtain w1 where w1: "deferTurnWaitStarts (id_wait ids) (me_graphs env) p w None = Inr w1"
    using assms by (auto simp: entry_round_def)
  show thesis
    using assms w1 that
    by (auto simp: entry_round_def Let_def committed_def build_failure_def split: option.splits if_splits prod.splits)
qed

text \<open>Before a turn is entered the active run is gone.\<close>

lemma entry_inv_free:
  assumes "entry_inv p ids A0 S (aborted \<or> active = None) entry w1"
  shows "entry_inv p ids A0 S True entry (if active \<noteq> None \<and> \<not> aborted then push_run_write w1 AbortActiveMappedRun else w1)"
  using assms entry_inv_abort [OF assms] by (cases "active \<noteq> None \<and> \<not> aborted") auto

lemma push_run_write_starts: "w_turnStartWrites (push_run_write w x) = w_turnStartWrites w"
  by (simp add: push_run_write_def)

lemma entry_ends_entered:
  assumes ends: "entry_round env (ids entry) mr projects p active entry aborted w = Inr (Inl (Inr w'))"
    and inv: "entry_inv p ids A0 S (aborted \<or> active = None) entry w"
    and fresh: "id_run (ids entry) \<notin> dom A0" "id_run (ids entry) \<notin> (\<lambda>i. id_run (ids i)) ` {..<entry}"
  shows "entered env p A0 S w'"
  using ends
proof (cases rule: entry_round_ends)
  case (other w1)
  have inv1: "entry_inv p ids A0 S (aborted \<or> active = None) entry w1" by (rule entry_inv_defer [OF other(1) inv])
  then have starts: "start_count w1 \<le> 1" by (simp add: entry_inv_def)
  have spec: "getMappedTurnSpec (me_registry env) (pi_processId p) (Some (si_turnId si)) = None"
    if si: "CreateStart si \<in> set (w_turnStartWrites w1)" "entry_start (pi_selectedTurnId (committed p w1)) si" for si
  proof -
    have "find_entry (pi_selectedTurnId (committed p w1)) (w_turnStartWrites w1) \<noteq> None"
      using find_entry_none si by blast
    then obtain i sj where e: "find_entry (pi_selectedTurnId (committed p w1)) (w_turnStartWrites w1) = Some (i, sj)" by auto
    then show ?thesis using single_start(2) [OF starts _ _ si(1)] find_entry_some [OF e] other(3) by blast
  qed
  have "\<exists>free. entry_inv p ids A0 S free entry w'" using other(2) inv1 entry_inv_abort by blast
  moreover have "w_turnStartWrites w' = w_turnStartWrites w1" "w_processPatch w' = w_processPatch w1"
    using other(2) by (auto simp: push_run_write_def)
  ultimately show ?thesis
    using spec unfolding entered_def entry_inv_def committed_def by (metis option.distinct(1))
next
  case (enter w1 i si registry spec)
  let ?w2 = "if active \<noteq> None \<and> \<not> aborted then push_run_write w1 AbortActiveMappedRun else w1"
  have inv2: "entry_inv p ids A0 S True entry ?w2"
    by (rule entry_inv_free [OF entry_inv_defer [OF enter(1) inv]])
  have starts2: "w_turnStartWrites ?w2 = w_turnStartWrites w1" by (simp add: push_run_write_starts)
  have e: "i < length (w_turnStartWrites ?w2)" "w_turnStartWrites ?w2 ! i = CreateStart si" "start_count ?w2 \<le> 1"
    using find_entry_some [OF enter(2)] inv2 starts2 by (auto simp: entry_inv_def)
  from enter(3) show ?thesis
  proof (cases rule: enter_turn_cases)
    case (bound frozen first rest ctx)
    let ?w3 = "freeze_plan env (ids entry) p (committed p w1) (si_turnId si) frozen ?w2"
    let ?ref = "\<lparr>mi_runId = id_run (ids entry), mi_itemKey = fi_itemKey first, mi_itemIndex = 0\<rparr>"
    have w': "w_turnStartWrites w' = (w_turnStartWrites ?w2)[i := CreateStart (si\<lparr>si_iteration := Some ?ref\<rparr>)]"
      "w_mappedRunWrites w' = w_mappedRunWrites ?w3"
      using bound(3) by (simp_all add: bind_first_def freeze_plan_rows)
    from entry_inv_create [OF inv2 bound(1) fresh, of env "committed p w1"] bound(2)
    obtain B where B: "list_all frozen_write (w_mappedRunWrites w')" "spec_writes (pi_id p) (w_mappedRunWrites w') A0 = Some B"
        "fresh_item B (si\<lparr>si_iteration := Some ?ref\<rparr>) ?ref"
      by (auto simp: w' fresh_item_def)
    have one: "filter is_create (w_turnStartWrites w') = [CreateStart (si\<lparr>si_iteration := Some ?ref\<rparr>)]"
      unfolding w'(1) by (rule replaced_start [OF single_start(1) [OF e(3,1,2)] e(1)])
    have only: "sj = si\<lparr>si_iteration := Some ?ref\<rparr>" if "CreateStart sj \<in> set (w_turnStartWrites w')" for sj
    proof -
      have "CreateStart sj \<in> set (filter is_create (w_turnStartWrites w'))" using that by simp
      then show ?thesis unfolding one by simp
    qed
    have "start_count w' \<le> 1" by (simp add: start_count_def one)
    moreover have "si_iteration sj = Some ?ref \<and> fresh_item B sj ?ref"
      if "CreateStart sj \<in> set (w_turnStartWrites w')" for sj
      using only [OF that] B(3) by simp
    ultimately show ?thesis using B(1,2) by (fastforce simp: entered_def entry_start_def)
  next
    case (routed frozen ctx ctx')
    then show ?thesis using route_empty_ends by blast
  qed simp
qed

lemma entry_goes_on:
  assumes ends: "entry_round env (ids entry) mr projects p active entry aborted w = Inr (Inr w')"
    and inv: "entry_inv p ids A0 S (aborted \<or> active = None) entry w"
    and fresh: "id_run (ids entry) \<notin> dom A0" "id_run (ids entry) \<notin> (\<lambda>i. id_run (ids i)) ` {..<entry}"
  shows "entry_inv p ids A0 S True (Suc entry) w'"
proof -
  from ends obtain w1 i si registry spec where w1: "deferTurnWaitStarts (id_wait (ids entry)) (me_graphs env) p w None = Inr w1"
      "find_entry (pi_selectedTurnId (committed p w1)) (w_turnStartWrites w1) = Some (i, si)"
    and enter: "enter_turn env (ids entry) projects p (committed p w1) registry spec i si
         (if active \<noteq> None \<and> \<not> aborted then push_run_write w1 AbortActiveMappedRun else w1) = Inr (Inr w')"
    by (rule entry_round_goes_on)
  let ?w2 = "if active \<noteq> None \<and> \<not> aborted then push_run_write w1 AbortActiveMappedRun else w1"
  have inv2: "entry_inv p ids A0 S True entry ?w2" by (rule entry_inv_free [OF entry_inv_defer [OF w1(1) inv]])
  have starts2: "w_turnStartWrites ?w2 = w_turnStartWrites w1" by (simp add: push_run_write_starts)
  have e: "i < length (w_turnStartWrites ?w2)" "w_turnStartWrites ?w2 ! i = CreateStart si" "start_count ?w2 \<le> 1"
    using find_entry_some [OF w1(2)] inv2 starts2 by (auto simp: entry_inv_def)
  from enter show ?thesis
  proof (cases rule: enter_turn_cases)
    case (routed frozen ctx ctx')
    let ?w3 = "freeze_plan env (ids entry) p (committed p w1) (si_turnId si) frozen ?w2"
    from routed(3) obtain r where w': "w_mappedRunWrites w' = w_mappedRunWrites ?w3"
        "w_turnStartWrites w' = take i (w_turnStartWrites ?w3) @ drop (Suc i) (w_turnStartWrites ?w3) @ r"
        "r = [] \<or> (\<exists>si. r = [CreateStart si] \<and> si_iteration si = None)"
      by (rule route_empty_rows)
    have gone: "filter is_create (take i (w_turnStartWrites ?w3) @ drop (Suc i) (w_turnStartWrites ?w3)) = []"
      using single_start(1) [OF e(3,1,2)] by (simp add: freeze_plan_rows)
    then have only: "filter is_create (w_turnStartWrites w') = filter is_create r" using w'(2) by simp
    then have "start_count w' \<le> 1" using w'(3) by (auto simp: start_count_def)
    moreover have "si_iteration sj = None" if "CreateStart sj \<in> set (w_turnStartWrites w')" for sj
    proof -
      have "CreateStart sj \<in> set (filter is_create (w_turnStartWrites w'))" using that by simp
      then show ?thesis unfolding only using w'(3) by auto
    qed
    moreover from entry_inv_create [OF inv2 routed(1) fresh, of env "committed p w1"] routed(2) w'(1)
    have "list_all frozen_write (w_mappedRunWrites w') \<and> (\<exists>B. spec_writes (pi_id p) (w_mappedRunWrites w') A0 = Some B \<and>
        dom B \<subseteq> dom A0 \<union> (\<lambda>i. id_run (ids i)) ` {..<Suc entry} \<and> idle (pi_id p) B)"
      by metis
    ultimately show ?thesis by (auto simp: entry_inv_def)
  qed simp_all
qed

lemma entry_loop_entered:
  assumes "entry_loop env ids mr projects p active entry aborted w = Inr (Inr w')"
    and "entry_inv p ids A0 S (aborted \<or> active = None) entry w"
    and "\<forall>i \<le> MAX_EMPTY_MAPPED_ENTRIES. id_run (ids i) \<notin> dom A0"
    and "inj_on (\<lambda>i. id_run (ids i)) {..MAX_EMPTY_MAPPED_ENTRIES}"
  shows "entered env p A0 S w'"
  using assms
proof (induction env ids mr projects p active entry aborted w rule: entry_loop.induct)
  case (1 env ids mr projects p active entry aborted w)
  have entry: "entry \<le> MAX_EMPTY_MAPPED_ENTRIES" using "1.prems"(1)
    by (cases "entry > MAX_EMPTY_MAPPED_ENTRIES") (auto simp: entry_loop.simps build_failure_def)
  have fresh: "id_run (ids entry) \<notin> dom A0" "id_run (ids entry) \<notin> (\<lambda>i. id_run (ids i)) ` {..<entry}"
    using "1.prems"(3) entry inj_onD [OF "1.prems"(4), of entry] by (auto simp: nat_less_le)
  obtain r where r: "entry_round env (ids entry) mr projects p active entry aborted w = Inr r"
    using "1.prems"(1) entry by (cases "entry_round env (ids entry) mr projects p active entry aborted w")
      (auto simp: entry_loop.simps [of env ids mr projects p active entry aborted w])
  show ?case
  proof (cases r)
    case (Inl result)
    then have "result = Inr w'" using "1.prems"(1) entry r
      by (simp add: entry_loop.simps [of env ids mr projects p active entry aborted w])
    then show ?thesis using entry_ends_entered [OF _ "1.prems"(2) fresh] r Inl by blast
  next
    case (Inr w2)
    then have loop: "entry_loop env ids mr projects p active (Suc entry) (aborted \<or> active \<noteq> None) w2 = Inr (Inr w')"
      using "1.prems"(1) entry r by (simp add: entry_loop.simps [of env ids mr projects p active entry aborted w])
    have "entry_inv p ids A0 S True (Suc entry) w2" using entry_goes_on [OF _ "1.prems"(2) fresh] r Inr by blast
    moreover have "((aborted \<or> active \<noteq> None) \<or> active = None) = True" by blast
    ultimately have "entry_inv p ids A0 S ((aborted \<or> active \<noteq> None) \<or> active = None) (Suc entry) w2" by (simp only:)
    then show ?thesis using "1.IH" [OF _ loop] entry "1.prems"(3,4) by simp
  qed
qed

section \<open>Properties\<close>

text \<open>
  C19. The outcome of a mapped item is only accepted for the current item of an active run of its turn. The
  plan records exactly that item's result and commits: the results of the run grow by the validated
  result of the item. When items are left, the plan reserves exactly one start, for the very next item,
  which is then the current one; after the last item all the recorded results are collected at once, in
  the order of the items, and the run is completed.
\<close>

theorem item_outcome_advances_run:
  assumes db: "db_consistent db"
    and plan: "buildMappedItemOutcomeWrites env ids registry (Some db) p projects payload spec iteration prepared = Inr (Inr w)"
  shows "\<exists>ref run item ctx res db'. iteration = Some ref \<and> getRunById db (mi_runId ref) = Some run \<and>
    getItem db (mi_runId ref) (mi_itemIndex ref) = Some item \<and> current_iteration payload ref run item \<and>
    yieldMappedItemResult (op_turnId payload) spec ctx (iteration_of run item) (outcome_event_of payload prepared) = Inr res \<and>
    commit_mapped_runs ts (pi_id p) (w_mappedRunWrites w) db = Inr db' \<and> db_consistent db' \<and>
    results db' (mi_runId ref) = results db (mi_runId ref) @ [res] \<and>
    (if mi_itemIndex ref + 1 < mr_itemCount run
     then \<exists>si ref' run' nxt. w_turnStartWrites w = [CreateStart si] \<and> si_turnId si = op_turnId payload \<and>
       si_iteration si = Some ref' \<and> mi_runId ref' = mi_runId ref \<and> mi_itemIndex ref' = mi_itemIndex ref + 1 \<and>
       getRunById db' (mi_runId ref') = Some run' \<and> getItem db' (mi_runId ref') (mi_itemIndex ref') = Some nxt \<and>
       current_iteration payload ref' run' nxt
     else \<exists>c run'. collectMappedResults (op_turnId payload) spec ctx (results db' (mi_runId ref)) = Inr c \<and>
       int (length (results db' (mi_runId ref))) = mr_itemCount run \<and>
       getRunById db' (mi_runId ref) = Some run' \<and> mr_status run' = RunCompleted)"
proof -
  from plan obtain ref run item ctx res where 1: "iteration = Some ref" "getRunById db (mi_runId ref) = Some run"
      "getItem db (mi_runId ref) (mi_itemIndex ref) = Some item" "current_iteration payload ref run item"
    and y: "yieldMappedItemResult (op_turnId payload) spec ctx (iteration_of run item) (outcome_event_of payload prepared) = Inr res"
    and rec: "record_item env ids db p ctx payload spec run item res = Inr (Inr w)"
    by (rule outcome_cases)
  have c: "run_consistent db run" and id: "mr_id run = mi_runId ref" using consistent_run [OF db 1(2)] by auto
  have ix: "it_itemIndex item = mi_itemIndex ref" using 1(3) db by (simp add: db_consistent_def getItem_Some)
  let ?inp = "\<lparr>co_runId = mr_id run, co_itemIndex = it_itemIndex item, co_outcome = op_outcome payload,
      co_resultJson = res, co_turnRecordId = op_turnRecordId payload\<rparr>"
  have r: "getRunById db (co_runId ?inp) = Some run" using 1(2) id by simp
  have cur: "current_item run ?inp" using 1(4) ix id by (simp add: current_item_def current_iteration_def)
  obtain run1 db' where committed: "completeItem ts db ?inp = Inr (run1, db')" "db_consistent db'"
      "results db' (mi_runId ref) = results db (mi_runId ref) @ [res]"
      "\<exists>r'. getRunById db' (mi_runId ref) = Some r' \<and> mr_itemCount r' = mr_itemCount run \<and>
        mr_status r' = (if mi_itemIndex ref + 1 = mr_itemCount run then RunCompleted else RunActive)"
    using complete_appends [OF db r cur, of ts] id ix by auto
  note shared = 1 y committed
  from rec show ?thesis
  proof (cases rule: record_item_cases)
    case (more nxt)
    let ?ref = "\<lparr>mi_runId = mr_id run, mi_itemKey = it_itemKey nxt, mi_itemIndex = it_itemIndex item + 1\<rparr>"
    have commit: "commit_mapped_runs ts (pi_id p) (w_mappedRunWrites w) db = Inr db'"
      using committed(1) by (simp add: more(3))
    obtain si where si: "w_turnStartWrites w = [CreateStart si]" "si_turnId si = op_turnId payload" "si_iteration si = Some ?ref"
      by (simp add: more(4) reserve_starts push_run_write_def createWrites_def no_writes_def)
    obtain run' where run': "getRunById db' (mi_runId ref) = Some run'" "mr_status run' = RunActive"
        "mr_turnId run' = mr_turnId run" "mr_nextIndex run' = mi_itemIndex ref + 1"
        "getItem db' (mi_runId ref) (mi_itemIndex ref + 1) = Some nxt" "it_status nxt = ItemPending"
      using next_item_current [OF db r cur _ committed(1), of nxt] more(1,2) id ix by auto
    have "current_iteration payload ?ref run' nxt"
      using run' 1(4) ix by (simp add: current_iteration_def)
    then have "\<exists>si ref' run' nxt. w_turnStartWrites w = [CreateStart si] \<and> si_turnId si = op_turnId payload \<and>
       si_iteration si = Some ref' \<and> mi_runId ref' = mi_runId ref \<and> mi_itemIndex ref' = mi_itemIndex ref + 1 \<and>
       getRunById db' (mi_runId ref') = Some run' \<and> getItem db' (mi_runId ref') (mi_itemIndex ref') = Some nxt \<and>
       current_iteration payload ref' run' nxt"
      using si run' id ix by (intro exI [of _ si] exI [of _ ?ref] exI [of _ run'] exI [of _ nxt]) simp
    then show ?thesis using shared commit more(1) ix
      by (intro exI [of _ ref] exI [of _ run] exI [of _ item] exI [of _ ctx] exI [of _ res] exI [of _ db']) simp
  next
    case (last rs c)
    have commit: "commit_mapped_runs ts (pi_id p) (w_mappedRunWrites w) db = Inr db'"
      using committed(1) by (simp add: last(4))
    have "rs = results db' (mi_runId ref)"
      using results_with_last [OF db 1(2), of item res] last(1,2) 1(4) ix committed(3) id
      by (simp add: current_iteration_def)
    moreover have fin: "mi_itemIndex ref + 1 = mr_itemCount run"
      using last(1) c 1(4) ix by (auto simp: current_iteration_def run_consistent_def)
    moreover have "mr_nextIndex run = int (length (results db (mi_runId ref)))"
      using results_consistent [OF db 1(2)] by blast
    ultimately have "\<exists>c run'. collectMappedResults (op_turnId payload) spec ctx (results db' (mi_runId ref)) = Inr c \<and>
       int (length (results db' (mi_runId ref))) = mr_itemCount run \<and>
       getRunById db' (mi_runId ref) = Some run' \<and> mr_status run' = RunCompleted"
      using last(3) committed(3,4) 1(4) by (auto simp: current_iteration_def)
    then show ?thesis using shared commit last(1) ix
      by (intro exI [of _ ref] exI [of _ run] exI [of _ item] exI [of _ ctx] exI [of _ res] exI [of _ db']) simp
  qed
qed

text \<open>
  C18. Entering mapped turns: the plan that freezes the items always commits (the active run is aborted
  before a new one is created, so that the store is consistent and has one active run at most per
  process), it creates at most one start, no start enters a mapped turn without an item, and every new
  start that has an item is for the current item of the run it names, so that the outcome of that item
  will be accepted.
\<close>

theorem entered_turns_have_their_item:
  assumes db: "db_consistent db" and plan: "planMappedTurnEntries env ids (Some db) projects p w = Inr (Inr w')"
    and before: "commit_mapped_runs ts (pi_id p) (w_mappedRunWrites w) db = Inr db1"
      "list_all (\<lambda>x. \<not> creates_run x) (w_mappedRunWrites w)" "start_count w \<le> 1"
    and fresh: "\<forall>i \<le> MAX_EMPTY_MAPPED_ENTRIES. getRunById db (id_run (ids i)) = None"
      "inj_on (\<lambda>i. id_run (ids i)) {..MAX_EMPTY_MAPPED_ENTRIES}"
  shows "\<exists>db'. commit_mapped_runs ts (pi_id p) (w_mappedRunWrites w') db = Inr db' \<and> db_consistent db' \<and>
    start_count w' \<le> 1 \<and>
    (\<forall>si. CreateStart si \<in> set (w_turnStartWrites w') \<longrightarrow> entry_start (pi_selectedTurnId (committed p w')) si \<longrightarrow>
       getMappedTurnSpec (me_registry env) (pi_processId p) (Some (si_turnId si)) = None) \<and>
    (\<forall>si ref payload. CreateStart si \<in> set (w_turnStartWrites w') - set (w_turnStartWrites w) \<longrightarrow>
       si_iteration si = Some ref \<longrightarrow> op_turnId payload = si_turnId si \<longrightarrow>
       (\<exists>run item. getRunById db' (mi_runId ref) = Some run \<and>
          getItem db' (mi_runId ref) (mi_itemIndex ref) = Some item \<and> current_iteration payload ref run item))"
proof -
  let ?A0 = "run_logs db" and ?S = "set (w_turnStartWrites w)"
  have frozen: "list_all frozen_write (w_mappedRunWrites w)"
    using before(2) no_create_frozen by (auto simp: list_all_iff)
  have A1: "spec_writes (pi_id p) (w_mappedRunWrites w) ?A0 = Some (run_logs db1)"
    using mapped_store.refines_granted [OF db frozen before(1)] by blast
  have idle: "idle (pi_id p) (run_logs db1)" if "getActiveByInstance db (pi_id p) = None"
    using no_creates [OF A1 before(2)] idle_store [OF db that] by blast
  have "entry_inv p ids ?A0 ?S (False \<or> getActiveByInstance db (pi_id p) = None) 0 w"
    using frozen before(3) A1 idle no_creates [OF A1 before(2)] by (auto simp: entry_inv_def)
  moreover have "\<forall>i \<le> MAX_EMPTY_MAPPED_ENTRIES. id_run (ids i) \<notin> dom ?A0"
    using fresh(1) by (simp add: run_logs_def domIff)
  ultimately have "entered env p ?A0 ?S w'"
    using entry_loop_entered [OF _ _ _ fresh(2)] plan by (simp add: planMappedTurnEntries_def)
  then obtain A where frozen': "list_all frozen_write (w_mappedRunWrites w')" and A: "spec_writes (pi_id p) (w_mappedRunWrites w') ?A0 = Some A"
      and rest: "start_count w' \<le> 1"
      "\<forall>si. CreateStart si \<in> set (w_turnStartWrites w') \<longrightarrow> entry_start (pi_selectedTurnId (committed p w')) si \<longrightarrow>
        getMappedTurnSpec (me_registry env) (pi_processId p) (Some (si_turnId si)) = None"
      "\<forall>si ref. CreateStart si \<in> set (w_turnStartWrites w') \<longrightarrow> si_iteration si = Some ref \<longrightarrow>
        CreateStart si \<in> ?S \<or> fresh_item A si ref"
    by (auto simp: entered_def)
  obtain db' where db': "commit_mapped_runs ts (pi_id p) (w_mappedRunWrites w') db = Inr db'"
    using mapped_store.granted_iff [OF db frozen', of ts "pi_id p"] A by auto
  have cons: "db_consistent db'" "A = run_logs db'" using mapped_store.refines_granted [OF db frozen' db'] A by auto
  have "\<exists>run item. getRunById db' (mi_runId ref) = Some run \<and>
      getItem db' (mi_runId ref) (mi_itemIndex ref) = Some item \<and> current_iteration payload ref run item"
    if "CreateStart si \<in> set (w_turnStartWrites w') - ?S" "si_iteration si = Some ref" "op_turnId payload = si_turnId si"
    for si ref payload
    using that rest(3) fresh_item_current [OF cons(1) _ that(3), of ref] cons(2) by blast
  with db' cons(1) rest(1,2) show ?thesis by blast
qed

text \<open>A turn that reviews two drafts.\<close>

definition sample_spec :: mapped_spec where
  "sample_spec = \<lparr>ms_items = \<lambda>_. Inr (ItemsArray [JStr ''a'', JStr ''b'']), ms_parseItem = Inr,
     ms_serializeItem = (\<lambda>v. Inr (Some v)), ms_parseResult = Inr, ms_serializeResult = (\<lambda>v. Inr (Some v)),
     ms_key = (\<lambda>item _. Inr (case item of JStr s \<Rightarrow> Some s | _ \<Rightarrow> None)), ms_label = None, ms_stateAfterSnapshot = None,
     ms_yields = [(''ok'', \<lambda>_ it _. Inr (ti_item it))], ms_collect = (\<lambda>_ rs. Inr (JArr rs)),
     ms_routing = StaticRoute (Some ''approve'') None\<rparr>"

definition sample_actions :: action_registry where
  "sample_actions = [(''review'', \<lparr>rp_parseParams = \<lambda>_. Inr JNull, rp_parseState = Inr, rp_initialState = Inr,
     rp_turns = [(''draft'', \<lparr>td_kind = LlmTurn, td_forEach = Some sample_spec\<rparr>)]\<rparr>)]"

definition sample_env :: mapped_env where
  "sample_env = \<lparr>me_graphs = sample_registry, me_registry = Some sample_actions, me_stringify = (\<lambda>_. ''[]''),
     me_parseJson = (\<lambda>_. Inr JNull)\<rparr>"

definition sample_ids :: "nat \<Rightarrow> entry_ids" where
  "sample_ids n = \<lparr>id_wait = ''w'', id_run = replicate (Suc n) (CHR ''r''), id_start = ''s'', id_turnRecord = ''t''\<rparr>"

definition no_runs :: mapped_db where
  "no_runs = \<lparr>md_runs = [], md_items = []\<rparr>"

definition sample_entry :: writes where
  "sample_entry = planned (planMappedTurnEntries sample_env sample_ids (Some no_runs) [] sample_process sample_selection_plan)"

lemma sample_entry_granted:
  "planMappedTurnEntries sample_env sample_ids (Some no_runs) [] sample_process sample_selection_plan = Inr (Inr sample_entry)"
  unfolding sample_entry_def by code_simp

theorem entered_turns_have_their_item_witness:
  "\<exists>db' si run item. commit_mapped_runs ''t'' (pi_id sample_process) (w_mappedRunWrites sample_entry) no_runs = Inr db' \<and>
     w_turnStartWrites sample_entry = [CreateStart si] \<and>
     si_iteration si = Some \<lparr>mi_runId = ''r'', mi_itemKey = ''a'', mi_itemIndex = 0\<rparr> \<and>
     getRunById db' ''r'' = Some run \<and> mr_status run = RunActive \<and> getItem db' ''r'' 0 = Some item"
proof -
  define si where "si = (case hd (w_turnStartWrites sample_entry) of CreateStart x \<Rightarrow> x | _ \<Rightarrow> undefined)"
  have 1: "db_consistent no_runs" by code_simp
  have 2: "commit_mapped_runs ''t'' (pi_id sample_process) (w_mappedRunWrites sample_selection_plan) no_runs = Inr no_runs"
    "list_all (\<lambda>x. \<not> creates_run x) (w_mappedRunWrites sample_selection_plan)" "start_count sample_selection_plan \<le> 1"
    by code_simp+
  have 3: "\<forall>i \<le> MAX_EMPTY_MAPPED_ENTRIES. getRunById no_runs (id_run (sample_ids i)) = None"
    by (simp add: no_runs_def getRunById_def)
  have 4: "inj_on (\<lambda>i. id_run (sample_ids i)) {..MAX_EMPTY_MAPPED_ENTRIES}"
    by (auto simp: inj_on_def sample_ids_def)
  have 5: "w_turnStartWrites sample_entry = [CreateStart si]" unfolding si_def by code_simp
  have 6: "si_iteration si = Some \<lparr>mi_runId = ''r'', mi_itemKey = ''a'', mi_itemIndex = 0\<rparr>" unfolding si_def by code_simp
  have 7: "CreateStart si \<notin> set (w_turnStartWrites sample_selection_plan)" unfolding si_def by code_simp
  let ?payload = "\<lparr>op_turnRecordId = ''t'', op_turnId = si_turnId si, op_outcome = ''ok'', op_params = None, op_turnResultMarkdown = None\<rparr>"
  from entered_turns_have_their_item [OF 1 sample_entry_granted 2 3 4] obtain db' where
      db': "commit_mapped_runs ''t'' (pi_id sample_process) (w_mappedRunWrites sample_entry) no_runs = Inr db'"
    and cur: "\<forall>si ref payload. CreateStart si \<in> set (w_turnStartWrites sample_entry) - set (w_turnStartWrites sample_selection_plan) \<longrightarrow>
       si_iteration si = Some ref \<longrightarrow> op_turnId payload = si_turnId si \<longrightarrow>
       (\<exists>run item. getRunById db' (mi_runId ref) = Some run \<and>
          getItem db' (mi_runId ref) (mi_itemIndex ref) = Some item \<and> current_iteration payload ref run item)" by blast
  from cur [rule_format, of si _ ?payload] 5 6 7 have "\<exists>run item. getRunById db' ''r'' = Some run \<and> mr_status run = RunActive \<and> getItem db' ''r'' 0 = Some item"
    by (fastforce simp: current_iteration_def)
  with db' 5 6 show ?thesis by blast
qed

text \<open>
  Whatever the callbacks of an author return or throw, frozen items are within bounds: there are at most
  500, numbered from zero without gaps, with different keys that are not blank and have at most 200
  characters, and with labels of one to 200 characters.
\<close>

lemma frozen_items_are_bounded:
  assumes "freezeMappedItems turnId spec ctx = Inr frozen"
  shows "length (fz_items frozen) \<le> 500 \<and> map fi_itemIndex (fz_items frozen) = map int [0..<length (fz_items frozen)] \<and>
    distinct (map fi_itemKey (fz_items frozen)) \<and>
    (\<forall>f \<in> set (fz_items frozen). js_trim (fi_itemKey f) \<noteq> [] \<and> length (fi_itemKey f) \<le> 200 \<and>
       1 \<le> length (fi_label f) \<and> length (fi_label f) \<le> 200)"
  using freeze_accepts [OF assms]
  by (auto simp: list_all_iff item_bounds_def MAPPED_ITEM_MAX_COUNT_def MAPPED_ITEM_KEY_MAX_LENGTH_def
      MAPPED_ITEM_LABEL_MAX_LENGTH_def Suc_le_eq)

definition sample_ctx :: server_context where
  "sample_ctx = \<lparr>sv_process = sample_process, sv_projects = [], sv_params = JNull, sv_state = JNull\<rparr>"

text \<open>The first of two reviewed drafts is done.\<close>

definition sample_payload :: outcome_payload where
  "sample_payload = \<lparr>op_turnRecordId = ''t'', op_turnId = ''draft'', op_outcome = ''ok'', op_params = None,
     op_turnResultMarkdown = None\<rparr>"

definition drafts_db :: mapped_db where
  "drafts_db = projr (commit_mapped_runs ''t'' ''p1'' (w_mappedRunWrites sample_entry) no_runs)"

definition sample_outcome :: writes where
  "sample_outcome = planned (buildMappedItemOutcomeWrites sample_env (sample_ids 0) sample_actions (Some drafts_db)
     sample_process [] sample_payload sample_spec (Some \<lparr>mi_runId = ''r'', mi_itemKey = ''a'', mi_itemIndex = 0\<rparr>) None)"

theorem item_outcome_advances_run_witness:
  "\<exists>db' si ref. commit_mapped_runs ''t2'' (pi_id sample_process) (w_mappedRunWrites sample_outcome) drafts_db = Inr db' \<and>
     results db' ''r'' = [JStr ''a''] \<and> w_turnStartWrites sample_outcome = [CreateStart si] \<and>
     si_iteration si = Some ref \<and> mi_itemIndex ref = 1"
proof -
  let ?ref = "\<lparr>mi_runId = ''r'', mi_itemKey = ''a'', mi_itemIndex = 0\<rparr>"
  have 1: "db_consistent drafts_db" by code_simp
  have 2: "buildMappedItemOutcomeWrites sample_env (sample_ids 0) sample_actions (Some drafts_db) sample_process []
      sample_payload sample_spec (Some ?ref) None = Inr (Inr sample_outcome)"
    unfolding sample_outcome_def by code_simp
  have 3: "results drafts_db ''r'' = []" "mr_itemCount (the (getRunById drafts_db ''r'')) = 2" by code_simp+
  have 4: "yieldMappedItemResult ''draft'' sample_spec ctx (iteration_of run item) (outcome_event_of sample_payload None) =
      Inr (it_itemJson item)" for ctx run item
    by (simp add: yieldMappedItemResult_def sample_spec_def outcome_event_of_def sample_payload_def or_planning_error_def
        toJsonValue_def iteration_of_def)
  have 5: "map_option it_itemJson (getItem drafts_db ''r'' 0) = Some (JStr ''a'')" by code_simp
  from item_outcome_advances_run [OF 1 2, of "''t2''"] show ?thesis
    using 3 4 5 by (fastforce simp: sample_payload_def)
qed

end
