(* ===== verification/Execution_Store.thy ===== *)
theory Execution_Store
  imports Failure_Writes Mapped_Runs Worker_Lease
begin

text \<open>
  The tables in which the engine keeps executions, and their commit: the starts of worker-owned turns
  (\<^verbatim>\<open>packages/server/src/db/turn-start-record-repo.ts\<close>), the turn records
  (\<^verbatim>\<open>process-turn-record-repo.ts\<close>), the worker leases (\<^verbatim>\<open>worker-lease-repo.ts\<close>), the constraints of these
  tables (\<^verbatim>\<open>schema.ts\<close>), and the part of \<^verbatim>\<open>process-engine/writes/commit-writes.ts\<close> that applies the
  mapped-run, start, record, process and event writes of a plan.

  Tables are lists of rows in insertion order. A JSON text column holds the value its text denotes. The
  primary keys, unique indexes and checks are tested by every statement as SQLite tests them. The clock and
  generated identifiers are arguments. A commit is a transaction: when it throws, nothing of it is kept.
\<close>

named_theorems store_simps \<open>effect of the statements on the tables\<close>

record clock =
  ck_text :: string
  ck_instant :: int

section \<open>Starts\<close>

text \<open>A row is the start with its times; a time that \<open>Date.parse\<close> does not understand is \<open>None\<close>.\<close>

record start_row = start_input +
  sr_createdAt :: "int option"
  sr_updatedAt :: "int option"

fun kind_of_state :: "start_state \<Rightarrow> start_state_kind" where
  "kind_of_state (PreparationFailed _ _ _ _ _ _) = KindPreparationFailed"
| "kind_of_state (StartingState _) = KindStarting"
| "kind_of_state (BootstrapFailedState _ _ _ _) = KindBootstrapFailed"
| "kind_of_state (AcceptedState _ _ _) = KindAccepted"
| "kind_of_state (SupersededState _) = KindSuperseded"

fun state_kind_name :: "start_state_kind \<Rightarrow> string" where
  "state_kind_name KindPreparationFailed = ''preparation_failed''"
| "state_kind_name KindStarting = ''starting''"
| "state_kind_name KindBootstrapFailed = ''bootstrap_failed''"
| "state_kind_name KindAccepted = ''accepted''"
| "state_kind_name KindSuperseded = ''superseded''"

definition starts_valid :: "start_row list \<Rightarrow> bool" where
  "starts_valid rows \<longleftrightarrow> distinct (map si_id rows) \<and> distinct (map si_proposedTurnRecordId rows) \<and>
     list_all (\<lambda>r. si_turnType r \<in> {LlmTurn, AutomaticTurn}) rows"

definition new_start_row :: "clock \<Rightarrow> start_input \<Rightarrow> start_row" where
  "new_start_row ck inp = start_input.extend inp
     (start_row.fields (Some (ck_instant ck)) (Some (ck_instant ck)))"

definition createStart :: "clock \<Rightarrow> start_row list \<Rightarrow> start_input \<Rightarrow> start_row list throws" where
  "createStart ck rows inp =
     (let rows' = rows @ [new_start_row ck inp] in
      if starts_valid rows' then Inr rows' else Inl ''constraint failed: turn_start_records'')"

definition getStartById :: "start_row list \<Rightarrow> string \<Rightarrow> start_row option" where
  "getStartById rows i = find (\<lambda>r. si_id r = i) rows"

definition listStartsByInstance :: "start_row list \<Rightarrow> string \<Rightarrow> start_row list" where
  "listStartsByInstance rows instanceId = filter (\<lambda>r. si_instanceId r = instanceId) rows"

text \<open>The state column holds the state together with the counters of automatic recovery.\<close>

definition state_column :: "start_row \<Rightarrow> start_state \<times> startup_retry option" where
  "state_column r = (si_state r, si_automaticRetry r)"

definition compareAndSetState ::
    "clock \<Rightarrow> start_row list \<Rightarrow> string \<Rightarrow> start_state_kind \<Rightarrow> start_state \<Rightarrow> startup_retry option
     \<Rightarrow> start_row option \<times> start_row list" where
  "compareAndSetState ck rows i expectedKind st retry =
     (case getStartById rows i of
        None \<Rightarrow> (None, rows)
      | Some current \<Rightarrow>
          if kind_of_state (si_state current) \<noteq> expectedKind then (None, rows)
          else
            let selected = (\<lambda>r. si_id r = i \<and> state_column r = state_column current);
                retry' = (case retry of Some x \<Rightarrow> Some x | None \<Rightarrow> si_automaticRetry current);
                rows' = map (\<lambda>r. if selected r
                   then r\<lparr>si_state := st, si_automaticRetry := retry', sr_updatedAt := Some (ck_instant ck)\<rparr> else r) rows in
            (if length (filter selected rows) = 1 then getStartById rows' i else None, rows'))"

section \<open>Turn records\<close>

record turn_row = turn_record +
  tr_instanceId :: string
  tr_parentTurnRecordId :: "string option"
  tr_turnStartRecordId :: "string option"
  tr_acceptedWorkerLeaseId :: "string option"
  tr_turnResultMarkdown :: "string option"
  tr_startedAt :: string
  tr_endedAt :: "string option"

definition worker_start_link :: "turn_row \<Rightarrow> bool" where
  "worker_start_link r \<longleftrightarrow>
     (if rec_turnType r \<in> {LlmTurn, AutomaticTurn}
      then tr_turnStartRecordId r \<noteq> None \<and> tr_acceptedWorkerLeaseId r \<noteq> None
      else tr_turnStartRecordId r = None \<and> tr_acceptedWorkerLeaseId r = None)"

text \<open>A unique index admits any number of nulls.\<close>

definition records_valid :: "turn_row list \<Rightarrow> bool" where
  "records_valid rows \<longleftrightarrow> distinct (map rec_id rows) \<and> distinct (List.map_filter tr_turnStartRecordId rows) \<and>
     list_all worker_start_link rows"

definition set_records :: "turn_row list \<Rightarrow> turn_row list throws" where
  "set_records rows = (if records_valid rows then Inr rows else Inl ''constraint failed: turn_records'')"

text \<open>
  The inputs are objects whose keys may be absent (\<open>undefined\<close>) or null. An absent key leaves the column
  as it is in an update; values outside of the declared type of a column do not occur.
\<close>

definition text_column :: "json_object \<Rightarrow> string \<Rightarrow> string option \<Rightarrow> string option" where
  "text_column inp k old = (case map_of inp k of Some (JStr s) \<Rightarrow> Some s | Some JNull \<Rightarrow> None | _ \<Rightarrow> old)"

definition required_text :: "json_object \<Rightarrow> string \<Rightarrow> string \<Rightarrow> string" where
  "required_text inp k old = (case map_of inp k of Some (JStr s) \<Rightarrow> s | _ \<Rightarrow> old)"

definition number_column :: "json_object \<Rightarrow> string \<Rightarrow> int \<Rightarrow> int" where
  "number_column inp k old = (case map_of inp k of Some (JNum n) \<Rightarrow> n | _ \<Rightarrow> old)"

definition turn_type_of_name :: "string \<Rightarrow> turn_type option" where
  "turn_type_of_name s = find (\<lambda>t. turn_type_name t = s) [LlmTurn, HumanTurn, ExternalTurn, AutomaticTurn]"

fun path_type_name :: "path_type \<Rightarrow> string" where
  "path_type_name PrimaryPath = ''primary''"
| "path_type_name LeafBranch = ''leaf_branch''"
| "path_type_name RootBranch = ''root_branch''"

definition path_type_of_name :: "string \<Rightarrow> path_type option" where
  "path_type_of_name s = find (\<lambda>t. path_type_name t = s) [PrimaryPath, LeafBranch, RootBranch]"

definition turn_type_column :: "json_object \<Rightarrow> turn_type \<Rightarrow> turn_type" where
  "turn_type_column inp old =
     coalesce (Option.bind (text_column inp ''turnType'' None) turn_type_of_name) old"

definition error_class_column :: "json_object \<Rightarrow> worker_error_class option \<Rightarrow> worker_error_class option" where
  "error_class_column inp old =
     (case map_of inp ''errorClass'' of
        Some (JStr s) \<Rightarrow> parseWorkerErrorClass s | Some JNull \<Rightarrow> None | _ \<Rightarrow> old)"

definition provenance_of_json :: "json \<Rightarrow> provenance option" where
  "provenance_of_json j =
     (case (json_get (asUnknownRecord (Some j)) ''kind'', json_get (asUnknownRecord (Some j)) ''source'') of
        (Some (JStr k), Some (JStr s)) \<Rightarrow> Some \<lparr>mp_kind = k, mp_source = s\<rparr>
      | _ \<Rightarrow> None)"

definition provenance_column :: "json_object \<Rightarrow> provenance option \<Rightarrow> provenance option" where
  "provenance_column inp old =
     (case map_of inp ''modelSelectionProvenance'' of None \<Rightarrow> old | Some j \<Rightarrow> provenance_of_json j)"

definition iteration_json :: "mapped_item_ref option \<Rightarrow> json" where
  "iteration_json it = (case it of None \<Rightarrow> JNull | Some m \<Rightarrow>
     JObj [(''runId'', JStr (mi_runId m)), (''itemKey'', JStr (mi_itemKey m)), (''itemIndex'', JNum (mi_itemIndex m))])"

definition iteration_of_json :: "json option \<Rightarrow> mapped_item_ref option" where
  "iteration_of_json j =
     (case (json_get (asUnknownRecord j) ''runId'', json_get (asUnknownRecord j) ''itemKey'',
            json_get (asUnknownRecord j) ''itemIndex'') of
        (Some (JStr r), Some (JStr k), Some (JNum n)) \<Rightarrow> Some \<lparr>mi_runId = r, mi_itemKey = k, mi_itemIndex = n\<rparr>
      | _ \<Rightarrow> None)"

definition new_turn_row :: "clock \<Rightarrow> string \<Rightarrow> json_object \<Rightarrow> turn_row" where
  "new_turn_row ck newId inp =
     \<lparr>rec_id = required_text inp ''id'' newId, rec_turnId = required_text inp ''turnId'' [],
      rec_turnType = turn_type_column inp LlmTurn, rec_status = required_text inp ''status'' ''running'',
      rec_attemptNumber = number_column inp ''attemptNumber'' 1,
      rec_pathType = coalesce (Option.bind (text_column inp ''pathType'' None) path_type_of_name) PrimaryPath,
      rec_forkPiEntryId = text_column inp ''forkPiEntryId'' None,
      rec_resultPiEntryId = text_column inp ''resultPiEntryId'' None,
      rec_modelProfileId = text_column inp ''modelProfileId'' None,
      rec_provenance = provenance_column inp None,
      rec_iteration = iteration_of_json (map_of inp ''iteration''),
      rec_errorSummary = text_column inp ''errorSummary'' None, rec_errorClass = error_class_column inp None,
      tr_instanceId = required_text inp ''instanceId'' [],
      tr_parentTurnRecordId = text_column inp ''parentTurnRecordId'' None,
      tr_turnStartRecordId = text_column inp ''turnStartRecordId'' None,
      tr_acceptedWorkerLeaseId = text_column inp ''acceptedWorkerLeaseId'' None,
      tr_turnResultMarkdown = text_column inp ''turnResultMarkdown'' None,
      tr_startedAt = required_text inp ''startedAt'' (ck_text ck), tr_endedAt = text_column inp ''endedAt'' None\<rparr>"

definition createRecord :: "clock \<Rightarrow> string \<Rightarrow> turn_row list \<Rightarrow> json_object \<Rightarrow> (turn_row \<times> turn_row list) throws" where
  "createRecord ck newId rows inp =
     (let row = new_turn_row ck newId inp in
      throws_bind (set_records (rows @ [row])) (\<lambda>rows'. Inr (row, rows')))"

definition getRecordById :: "turn_row list \<Rightarrow> string \<Rightarrow> turn_row option" where
  "getRecordById rows i = find (\<lambda>r. rec_id r = i) rows"

definition listRecordsByInstance :: "turn_row list \<Rightarrow> string \<Rightarrow> turn_row list" where
  "listRecordsByInstance rows instanceId = sort_key tr_startedAt (filter (\<lambda>r. tr_instanceId r = instanceId) rows)"

definition set_columns :: "json_object \<Rightarrow> turn_row \<Rightarrow> turn_row" where
  "set_columns inp r = r
     \<lparr>rec_turnType := turn_type_column inp (rec_turnType r), rec_status := required_text inp ''status'' (rec_status r),
      rec_attemptNumber := number_column inp ''attemptNumber'' (rec_attemptNumber r),
      tr_parentTurnRecordId := text_column inp ''parentTurnRecordId'' (tr_parentTurnRecordId r),
      tr_turnStartRecordId := text_column inp ''turnStartRecordId'' (tr_turnStartRecordId r),
      tr_acceptedWorkerLeaseId := text_column inp ''acceptedWorkerLeaseId'' (tr_acceptedWorkerLeaseId r),
      rec_forkPiEntryId := text_column inp ''forkPiEntryId'' (rec_forkPiEntryId r),
      rec_resultPiEntryId := text_column inp ''resultPiEntryId'' (rec_resultPiEntryId r),
      rec_modelProfileId := text_column inp ''modelProfileId'' (rec_modelProfileId r),
      rec_provenance := provenance_column inp (rec_provenance r),
      tr_turnResultMarkdown := text_column inp ''turnResultMarkdown'' (tr_turnResultMarkdown r),
      rec_errorSummary := text_column inp ''errorSummary'' (rec_errorSummary r),
      rec_errorClass := error_class_column inp (rec_errorClass r),
      tr_endedAt := text_column inp ''endedAt'' (tr_endedAt r)\<rparr>"

definition updateRecord :: "turn_row list \<Rightarrow> string \<Rightarrow> json_object \<Rightarrow> (turn_row option \<times> turn_row list) throws" where
  "updateRecord rows i inp =
     throws_bind (set_records (map (\<lambda>r. if rec_id r = i then set_columns inp r else r) rows))
       (\<lambda>rows'. Inr (getRecordById rows' i, rows'))"

section \<open>Worker leases\<close>

text \<open>The proof of a successful bootstrap, correlated with the lease and the start it was made for.\<close>

record prepared_start =
  ps_pathType :: path_type
  ps_contextMode :: llm_context_mode
  ps_startTarget :: start_target
  ps_forkPiEntryId :: "string option"

record llm_receipt =
  lr_verifiedResourceSnapshotDigest :: string
  lr_credentialRevision :: "int option"
  lr_loadedResourceIds :: "string list"
  lr_providerId :: string
  lr_modelId :: string
  lr_preparedStart :: "prepared_start option"

datatype receipt_kind = LlmReceipt llm_receipt | AutomaticReceipt

record bootstrap_receipt =
  br_startRecordId :: string
  br_workerLeaseId :: string
  br_receiptEpoch :: string
  br_readyAt :: string
  br_kind :: receipt_kind

record lease_row =
  wl_id :: string
  wl_instanceId :: string
  wl_workerId :: string
  wl_turnStartRecordId :: "string option"
  wl_state :: lease_state
  wl_serverEpoch :: "string option"
  wl_connectTokenHash :: "string option"
  wl_snapshotTokenHash :: "string option"
  wl_modelPolicyFingerprint :: "string option"
  wl_bootstrapReceipt :: "bootstrap_receipt option"
  wl_lastHeartbeatAt :: "string option"
  wl_startedAt :: string
  wl_connectedAt :: "string option"
  wl_workspacePreparationStartedAt :: "string option"
  wl_readyAt :: "string option"
  wl_exitedAt :: "string option"

definition leases_valid :: "lease_row list \<Rightarrow> bool" where
  "leases_valid rows \<longleftrightarrow> distinct (map wl_id rows) \<and> distinct (map wl_workerId rows)"

record lease_input =
  li_instanceId :: string
  li_workerId :: string
  li_state :: lease_state
  li_serverEpoch :: "string option"
  li_connectTokenHash :: "string option"
  li_snapshotTokenHash :: "string option"
  li_modelPolicyFingerprint :: "string option"
  li_turnStartRecordId :: "string option"

definition createLease :: "clock \<Rightarrow> string \<Rightarrow> lease_row list \<Rightarrow> lease_input \<Rightarrow> lease_row list throws" where
  "createLease ck newId rows inp =
     (let rows' = rows @ [\<lparr>wl_id = newId, wl_instanceId = li_instanceId inp, wl_workerId = li_workerId inp,
          wl_turnStartRecordId = li_turnStartRecordId inp, wl_state = li_state inp,
          wl_serverEpoch = li_serverEpoch inp, wl_connectTokenHash = li_connectTokenHash inp,
          wl_snapshotTokenHash = li_snapshotTokenHash inp, wl_modelPolicyFingerprint = li_modelPolicyFingerprint inp,
          wl_bootstrapReceipt = None, wl_lastHeartbeatAt = None, wl_startedAt = ck_text ck, wl_connectedAt = None,
          wl_workspacePreparationStartedAt = None, wl_readyAt = None, wl_exitedAt = None\<rparr>] in
      if leases_valid rows' then Inr rows' else Inl ''constraint failed: worker_leases'')"

definition getLeaseByInstance :: "lease_row list \<Rightarrow> string \<Rightarrow> lease_row option" where
  "getLeaseByInstance rows instanceId = find (\<lambda>r. wl_instanceId r = instanceId \<and> wl_exitedAt r = None) rows"

definition getLeaseById :: "lease_row list \<Rightarrow> string \<Rightarrow> lease_row option" where
  "getLeaseById rows i = find (\<lambda>r. wl_id r = i) rows"

definition listActiveLeases :: "lease_row list \<Rightarrow> lease_row list" where
  "listActiveLeases rows = filter (\<lambda>r. wl_exitedAt r = None) rows"

text \<open>A patch holds \<open>None\<close> for an absent key.\<close>

record lease_patch =
  lp_state :: "lease_state option"
  lp_serverEpoch :: "string option option"
  lp_connectTokenHash :: "string option option"
  lp_snapshotTokenHash :: "string option option"
  lp_modelPolicyFingerprint :: "string option option"
  lp_lastHeartbeatAt :: "string option option"
  lp_connectedAt :: "string option option"
  lp_workspacePreparationStartedAt :: "string option option"
  lp_readyAt :: "string option option"
  lp_exitedAt :: "string option option"

definition patch_lease :: "lease_patch \<Rightarrow> lease_row \<Rightarrow> lease_row" where
  "patch_lease p r = r
     \<lparr>wl_state := coalesce (lp_state p) (wl_state r),
      wl_serverEpoch := coalesce (lp_serverEpoch p) (wl_serverEpoch r),
      wl_connectTokenHash := coalesce (lp_connectTokenHash p) (wl_connectTokenHash r),
      wl_snapshotTokenHash := coalesce (lp_snapshotTokenHash p) (wl_snapshotTokenHash r),
      wl_modelPolicyFingerprint := coalesce (lp_modelPolicyFingerprint p) (wl_modelPolicyFingerprint r),
      wl_lastHeartbeatAt := coalesce (lp_lastHeartbeatAt p) (wl_lastHeartbeatAt r),
      wl_connectedAt := coalesce (lp_connectedAt p) (wl_connectedAt r),
      wl_workspacePreparationStartedAt := coalesce (lp_workspacePreparationStartedAt p) (wl_workspacePreparationStartedAt r),
      wl_readyAt := coalesce (lp_readyAt p) (wl_readyAt r),
      wl_exitedAt := coalesce (lp_exitedAt p) (wl_exitedAt r)\<rparr>"

definition updateLease :: "lease_row list \<Rightarrow> string \<Rightarrow> lease_patch \<Rightarrow> lease_row option \<times> lease_row list" where
  "updateLease rows i p =
     (let rows' = map (\<lambda>r. if wl_id r = i then patch_lease p r else r) rows in (getLeaseById rows' i, rows'))"

datatype observed_field = ConnectedAt | WorkspacePreparationStartedAt | ReadyAt

fun observe_field :: "observed_field \<Rightarrow> string \<Rightarrow> lease_row \<Rightarrow> lease_row" where
  "observe_field ConnectedAt t r = (if wl_connectedAt r = None then r\<lparr>wl_connectedAt := Some t\<rparr> else r)"
| "observe_field WorkspacePreparationStartedAt t r =
     (if wl_workspacePreparationStartedAt r = None then r\<lparr>wl_workspacePreparationStartedAt := Some t\<rparr> else r)"
| "observe_field ReadyAt t r = (if wl_readyAt r = None then r\<lparr>wl_readyAt := Some t\<rparr> else r)"

definition observeTimestamp ::
    "clock \<Rightarrow> lease_row list \<Rightarrow> string \<Rightarrow> observed_field \<Rightarrow> lease_row option \<times> lease_row list" where
  "observeTimestamp ck rows i f =
     (let rows' = map (\<lambda>r. if wl_id r = i then observe_field f (ck_text ck) r else r) rows in (getLeaseById rows' i, rows'))"

definition updateHeartbeat :: "clock \<Rightarrow> lease_row list \<Rightarrow> string \<Rightarrow> bool \<times> lease_row list" where
  "updateHeartbeat ck rows workerId =
     (filter (\<lambda>r. wl_workerId r = workerId) rows \<noteq> [],
      map (\<lambda>r. if wl_workerId r = workerId then r\<lparr>wl_lastHeartbeatAt := Some (ck_text ck)\<rparr> else r) rows)"

datatype receipt_result = ReceiptStored | ReceiptReplay | ReceiptChanged | ReceiptMissing

definition compareAndSetBootstrapReceipt ::
    "lease_row list \<Rightarrow> string \<Rightarrow> bootstrap_receipt \<Rightarrow> receipt_result \<times> lease_row list" where
  "compareAndSetBootstrapReceipt rows i receipt =
     (case getLeaseById rows i of
        None \<Rightarrow> (ReceiptMissing, rows)
      | Some existing \<Rightarrow> (case wl_bootstrapReceipt existing of
          Some old \<Rightarrow> (if old = receipt then ReceiptReplay else ReceiptChanged, rows)
        | None \<Rightarrow>
            let selected = (\<lambda>r. wl_id r = i \<and> wl_bootstrapReceipt r = None) in
            (if length (filter selected rows) = 1 then ReceiptStored else ReceiptChanged,
             map (\<lambda>r. if selected r then r\<lparr>wl_bootstrapReceipt := Some receipt\<rparr> else r) rows)))"

section \<open>Committing a plan\<close>

text \<open>The store as the engine sees it for one process; events are numbered when they are written.\<close>

record engine_db =
  ed_process :: process_instance
  ed_mapped :: mapped_db
  ed_starts :: "start_row list"
  ed_records :: "turn_row list"
  ed_leases :: "lease_row list"
  ed_events :: "(int \<times> process_event) list"

fun commit_start :: "clock \<Rightarrow> turn_start_write \<Rightarrow> start_row list \<Rightarrow> start_row list throws" where
  "commit_start ck (CreateStart inp) rows = createStart ck rows inp"
| "commit_start ck (CasStartState i kind st retry) rows =
     (case compareAndSetState ck rows i kind st retry of
        (None, _) \<Rightarrow> Inl (''Turn start '' @ quoted i @ '' changed before acceptance'')
      | (Some _, rows') \<Rightarrow> Inr rows')"

fun commit_starts :: "clock \<Rightarrow> turn_start_write list \<Rightarrow> start_row list \<Rightarrow> start_row list throws" where
  "commit_starts ck [] rows = Inr rows"
| "commit_starts ck (w # ws) rows = throws_bind (commit_start ck w rows) (commit_starts ck ws)"

text \<open>The records written by a plan, in order; no plan deletes a turn record. Identifiers that the inputs leave out are generated.\<close>

fun commit_record ::
    "clock \<Rightarrow> string \<Rightarrow> json_object row_write \<Rightarrow> turn_row list \<Rightarrow> (turn_row option \<times> turn_row list) throws" where
  "commit_record ck newId (CreateRow inp) rows =
     throws_bind (createRecord ck newId rows inp) (\<lambda>(row, rows'). Inr (Some row, rows'))"
| "commit_record ck newId (UpdateRow i inp) rows = updateRecord rows i inp"
| "commit_record ck newId (DeleteRow i) rows = Inr (None, rows)"

fun commit_records ::
    "clock \<Rightarrow> (nat \<Rightarrow> string) \<Rightarrow> json_object row_write list \<Rightarrow> turn_row list \<Rightarrow> (turn_row list \<times> turn_row list) throws" where
  "commit_records ck ids [] rows = Inr ([], rows)"
| "commit_records ck ids (w # ws) rows =
     throws_bind (commit_record ck (ids (length ws)) w rows) (\<lambda>(row, rows1).
       throws_bind (commit_records ck ids ws rows1) (\<lambda>(written, rows2).
         Inr (case row of Some r \<Rightarrow> r # written | None \<Rightarrow> written, rows2)))"

definition append_event :: "process_event \<Rightarrow> (int \<times> process_event) list \<Rightarrow> (int \<times> process_event) list" where
  "append_event e es = es @ [(Max (insert 0 (set (map fst es))) + 1, e)]"

definition lifecycle_event :: "string \<Rightarrow> turn_row \<Rightarrow> process_event" where
  "lifecycle_event instanceId r = \<lparr>pe_instanceId = instanceId, pe_eventType = ''turn.lifecycle'',
     pe_data = Some [(''turnRecordId'', JStr (rec_id r)), (''status'', JStr (rec_status r))]\<rparr>"

definition commit_process :: "process_instance \<Rightarrow> writes \<Rightarrow> process_instance" where
  "commit_process p w = (if w_changedFields w \<noteq> [] then committed p w else p)"

definition commitWrites :: "clock \<Rightarrow> (nat \<Rightarrow> string) \<Rightarrow> engine_db \<Rightarrow> writes \<Rightarrow> engine_db throws" where
  "commitWrites ck ids db w =
     (let instanceId = pi_id (ed_process db) in
      throws_bind (commit_mapped_runs (ck_text ck) instanceId (w_mappedRunWrites w) (ed_mapped db)) (\<lambda>mapped.
      throws_bind (commit_starts ck (w_turnStartWrites w) (ed_starts db)) (\<lambda>starts.
      throws_bind (commit_records ck ids (w_turnRecordWrites w) (ed_records db)) (\<lambda>(written, records).
      Inr (db\<lparr>ed_mapped := mapped, ed_starts := starts, ed_records := records,
         ed_process := commit_process (ed_process db) w,
         ed_events := fold append_event (w_events w @ map (lifecycle_event instanceId) written) (ed_events db)\<rparr>)))))"

section \<open>Reading the tables\<close>

lemma getStartById_iff:
  "starts_valid rows \<Longrightarrow> getStartById rows i = Some r \<longleftrightarrow> r \<in> set rows \<and> si_id r = i"
  by (auto simp: getStartById_def starts_valid_def find_Some_iff in_set_conv_nth distinct_conv_nth)

lemma getRecordById_iff:
  "records_valid rows \<Longrightarrow> getRecordById rows i = Some r \<longleftrightarrow> r \<in> set rows \<and> rec_id r = i"
  by (auto simp: getRecordById_def records_valid_def find_Some_iff in_set_conv_nth distinct_conv_nth)

lemma new_start_row_simps [simp]:
  "si_id (new_start_row ck inp) = si_id inp" "si_instanceId (new_start_row ck inp) = si_instanceId inp"
  "si_turnId (new_start_row ck inp) = si_turnId inp" "si_turnType (new_start_row ck inp) = si_turnType inp"
  "si_proposedTurnRecordId (new_start_row ck inp) = si_proposedTurnRecordId inp"
  "si_state (new_start_row ck inp) = si_state inp" "si_automaticRetry (new_start_row ck inp) = si_automaticRetry inp"
  "start_input.truncate (new_start_row ck inp) = inp"
  by (simp_all add: new_start_row_def start_input.defs start_row.defs)

text \<open>A successful exchange changes one row, and only its state.\<close>

definition set_state :: "clock \<Rightarrow> start_state \<Rightarrow> startup_retry option \<Rightarrow> start_row \<Rightarrow> start_row" where
  "set_state ck st retry r = r\<lparr>si_state := st,
     si_automaticRetry := (case retry of Some x \<Rightarrow> Some x | None \<Rightarrow> si_automaticRetry r),
     sr_updatedAt := Some (ck_instant ck)\<rparr>"

lemma set_state_simps [simp]:
  "si_id (set_state ck st retry r) = si_id r" "si_instanceId (set_state ck st retry r) = si_instanceId r"
  "si_turnId (set_state ck st retry r) = si_turnId r" "si_turnType (set_state ck st retry r) = si_turnType r"
  "si_proposedTurnRecordId (set_state ck st retry r) = si_proposedTurnRecordId r"
  "si_state (set_state ck st retry r) = st"
  "si_startKind (set_state ck st retry r) = si_startKind r"
  "si_automaticRetry (set_state ck st retry r) = (case retry of Some x \<Rightarrow> Some x | None \<Rightarrow> si_automaticRetry r)"
  by (simp_all add: set_state_def)

lemma starts_valid_map:
  assumes "\<And>r. si_id (g r) = si_id r" "\<And>r. si_proposedTurnRecordId (g r) = si_proposedTurnRecordId r"
    "\<And>r. si_turnType (g r) = si_turnType r"
  shows "starts_valid (map g rows) = starts_valid rows"
proof -
  have "si_id \<circ> g = si_id" "si_proposedTurnRecordId \<circ> g = si_proposedTurnRecordId"
    "(\<lambda>r. si_turnType r \<in> {LlmTurn, AutomaticTurn}) \<circ> g = (\<lambda>r. si_turnType r \<in> {LlmTurn, AutomaticTurn})"
    using assms by auto
  then show ?thesis by (simp add: starts_valid_def list.pred_map)
qed

lemma compareAndSetState_cases:
  assumes "starts_valid rows"
  obtains (refused) "compareAndSetState ck rows i k st retry = (None, rows)"
      "\<And>r. r \<in> set rows \<Longrightarrow> si_id r = i \<Longrightarrow> kind_of_state (si_state r) \<noteq> k"
    | (exchanged) current where "current \<in> set rows" "si_id current = i" "kind_of_state (si_state current) = k"
      "compareAndSetState ck rows i k st retry =
        (Some (set_state ck st retry current), map (\<lambda>r. if si_id r = i then set_state ck st retry r else r) rows)"
proof (cases "\<exists>current \<in> set rows. si_id current = i \<and> kind_of_state (si_state current) = k")
  case False
  then have "compareAndSetState ck rows i k st retry = (None, rows)"
    by (auto simp: compareAndSetState_def getStartById_iff [OF assms] split: option.splits)
  with False show ?thesis by (intro refused) auto
next
  case True
  then obtain current where c: "current \<in> set rows" "si_id current = i" "kind_of_state (si_state current) = k" by blast
  have only: "r = current" if "r \<in> set rows" "si_id r = i" for r
    using assms c that by (auto simp: starts_valid_def distinct_map inj_on_def)
  have sel: "si_id r = i \<and> state_column r = state_column current \<longleftrightarrow> si_id r = i" if "r \<in> set rows" for r
    using only [OF that] by auto
  let ?rows' = "map (\<lambda>r. if si_id r = i then set_state ck st retry r else r) rows"
  have flt: "filter (\<lambda>r. si_id r = i \<and> state_column r = state_column current) rows = filter (\<lambda>r. si_id r = i) rows"
    using sel by (intro filter_cong) auto
  have len: "length (filter (\<lambda>r. si_id r = i) rows) = 1"
  proof -
    have "distinct (filter (\<lambda>r. si_id r = i) rows)"
      using assms by (auto simp: starts_valid_def distinct_map intro: distinct_filter)
    moreover have "set (filter (\<lambda>r. si_id r = i) rows) = {current}" using c by (auto dest: only)
    ultimately show ?thesis using distinct_card [of "filter (\<lambda>r. si_id r = i) rows"] by simp
  qed
  have rows': "map (\<lambda>r. if si_id r = i \<and> state_column r = state_column current
       then r\<lparr>si_state := st, si_automaticRetry := (case retry of Some x \<Rightarrow> Some x | None \<Rightarrow> si_automaticRetry current),
              sr_updatedAt := Some (ck_instant ck)\<rparr> else r) rows = ?rows'"
    by (intro map_cong) (auto simp: set_state_def dest: only)
  have get: "getStartById ?rows' i = Some (set_state ck st retry current)"
  proof -
    have "starts_valid ?rows'" using assms by (subst starts_valid_map) auto
    moreover have "set_state ck st retry current \<in> set ?rows'" using c by force
    ultimately show ?thesis using c by (simp add: getStartById_iff)
  qed
  have cur: "getStartById rows i = Some current" using c by (simp add: getStartById_iff [OF assms])
  have "compareAndSetState ck rows i k st retry = (Some (set_state ck st retry current), ?rows')"
    by (simp only: compareAndSetState_def cur option.case c(3) Let_def flt len rows' get simp_thms if_False if_True)
  with c show ?thesis by (intro exchanged)
qed

section \<open>Starts and their records\<close>

text \<open>The columns of a record that tie it to its start.\<close>

definition row_identity :: "turn_row \<Rightarrow> string \<times> string \<times> string \<times> string option \<times> string option" where
  "row_identity r = (rec_id r, rec_turnId r, tr_instanceId r, tr_turnStartRecordId r, tr_acceptedWorkerLeaseId r)"

text \<open>
  An accepted start has the record it proposed, made for its turn and its accepted lease. A start that is
  not accepted has none, and the id it proposes is not taken.
\<close>

definition start_record_ok :: "turn_row list \<Rightarrow> start_row \<Rightarrow> bool" where
  "start_record_ok records s =
     (case si_state s of
        AcceptedState _ t l \<Rightarrow> t = si_proposedTurnRecordId s \<and>
          (t, si_turnId s, si_instanceId s, Some (si_id s), Some l) \<in> row_identity ` set records
      | _ \<Rightarrow> \<forall>r \<in> set records. rec_id r \<noteq> si_proposedTurnRecordId s \<and> tr_turnStartRecordId r \<noteq> Some (si_id s))"

definition linked :: "start_row list \<Rightarrow> turn_row list \<Rightarrow> bool" where
  "linked starts records \<longleftrightarrow> starts_valid starts \<and> records_valid records \<and>
     (\<forall>s \<in> set starts. start_record_ok records s) \<and>
     (\<forall>r \<in> set records. \<forall>i \<in> set_option (tr_turnStartRecordId r). i \<in> si_id ` set starts)"

text \<open>Accepted starts are left as they are.\<close>

definition keeps_accepted :: "start_row list \<Rightarrow> start_row list \<Rightarrow> bool" where
  "keeps_accepted starts starts' \<longleftrightarrow> (\<forall>s \<in> set starts. accepted_state (si_state s) \<longrightarrow> s \<in> set starts')"

lemma accepted_state_iff: "accepted_state st \<longleftrightarrow> (\<exists>x t l. st = AcceptedState x t l)"
  by (cases st) auto

lemma accepted_kind: "accepted_state st \<longleftrightarrow> kind_of_state st = KindAccepted"
  by (cases st) auto

lemma start_record_ok_unaccepted:
  "\<not> accepted_state (si_state s) \<Longrightarrow> start_record_ok records s \<longleftrightarrow>
     (\<forall>r \<in> set records. rec_id r \<noteq> si_proposedTurnRecordId s \<and> tr_turnStartRecordId r \<noteq> Some (si_id s))"
  by (auto simp: start_record_ok_def split: start_state.splits)

lemma start_record_ok_identity:
  assumes "row_identity ` set records' = row_identity ` set records"
  shows "start_record_ok records' s = start_record_ok records s"
proof -
  have *: "(\<forall>r \<in> set rs. rec_id r \<noteq> a \<and> tr_turnStartRecordId r \<noteq> b) \<longleftrightarrow>
      a \<notin> fst ` row_identity ` set rs \<and> b \<notin> (\<lambda>(_, _, _, j, _). j) ` row_identity ` set rs" for rs a b
    by (auto simp: row_identity_def image_image)
  show ?thesis unfolding start_record_ok_def * assms ..
qed

lemma keeps_accepted_refl [simp]: "keeps_accepted starts starts"
  by (simp add: keeps_accepted_def)

lemma keeps_accepted_trans: "keeps_accepted a b \<Longrightarrow> keeps_accepted b c \<Longrightarrow> keeps_accepted a c"
  by (auto simp: keeps_accepted_def)

lemma linked_record:
  assumes "linked starts records" "r \<in> set records" "tr_turnStartRecordId r = Some i"
  obtains s x l where "s \<in> set starts" "si_id s = i" "si_state s = AcceptedState x (rec_id r) l"
    "si_proposedTurnRecordId s = rec_id r" "tr_acceptedWorkerLeaseId r = Some l" "rec_turnId r = si_turnId s"
proof -
  obtain s where s: "s \<in> set starts" "si_id s = i" using assms by (fastforce simp: linked_def)
  have ok: "start_record_ok records s" using assms(1) s by (simp add: linked_def)
  have "accepted_state (si_state s)" using ok assms(2,3) s start_record_ok_unaccepted by blast
  then obtain x t l where st: "si_state s = AcceptedState x t l" by (auto simp: accepted_state_iff)
  with ok obtain r' where r': "r' \<in> set records" "rec_id r' = t" "tr_turnStartRecordId r' = Some i"
      "tr_acceptedWorkerLeaseId r' = Some l" "rec_turnId r' = si_turnId s" "t = si_proposedTurnRecordId s"
    using s by (auto simp: start_record_ok_def row_identity_def)
  have "distinct (List.map_filter tr_turnStartRecordId records)" using assms(1) by (simp add: linked_def records_valid_def)
  then have "r' = r" using assms(2,3) r'(1,3)
  proof (induction records)
    case (Cons a rs)
    have "i \<in> set (List.map_filter tr_turnStartRecordId rs)" if "b \<in> set rs" "tr_turnStartRecordId b = Some i" for b
      using that by (force simp: List.map_filter_def)
    with Cons show ?case by (auto simp: map_filter_simps split: option.splits)
  qed simp
  with r' s st that show thesis by auto
qed

lemma set_records_simps: "set_records rows = Inr rows' \<longleftrightarrow> rows' = rows \<and> records_valid rows"
  by (auto simp: set_records_def)

lemma set_columns_identity: "keeps_link inp \<Longrightarrow> row_identity (set_columns inp r) = row_identity r"
  by (simp add: row_identity_def set_columns_def keeps_link_def text_column_def)

lemma commit_records_keep:
  assumes "commit_records ck ids ws rows = Inr (written, rows')" "list_all unaccepting_record ws" "records_valid rows"
  shows "map row_identity rows' = map row_identity rows \<and> records_valid rows'"
  using assms
proof (induction ws arbitrary: rows written)
  case (Cons w ws)
  obtain i inp where w: "w = UpdateRow i inp" "keeps_link inp" using Cons.prems(2) by (cases w) auto
  let ?rows1 = "map (\<lambda>r. if rec_id r = i then set_columns inp r else r) rows"
  from Cons.prems(1) obtain written2 where "commit_records ck ids ws ?rows1 = Inr (written2, rows')" "records_valid ?rows1"
    by (auto simp: w updateRecord_def set_records_simps throws_bind_Inr split: prod.splits)
  with Cons.IH [of ?rows1 written2] Cons.prems(2) have "map row_identity rows' = map row_identity ?rows1 \<and> records_valid rows'"
    by simp
  moreover have "map row_identity ?rows1 = map row_identity rows" using w(2) by (auto simp: set_columns_identity)
  ultimately show ?case by simp
qed simp

lemma commit_start_keeps:
  assumes "linked starts records" "commit_start ck w starts = Inr starts'" "unaccepting_start w"
    and fresh: "\<And>si. w = CreateStart si \<Longrightarrow> si_proposedTurnRecordId si \<notin> rec_id ` set records"
  shows "linked starts' records \<and> keeps_accepted starts starts'"
proof (cases w)
  case (CreateStart si)
  with assms(2) have st: "starts' = starts @ [new_start_row ck si]" "starts_valid starts'"
    by (auto simp: createStart_def Let_def split: if_splits)
  then have "si_id si \<notin> si_id ` set starts" by (auto simp: starts_valid_def)
  then have "start_record_ok records (new_start_row ck si)"
    using assms(1,3) fresh [OF CreateStart] CreateStart
    by (subst start_record_ok_unaccepted) (auto simp: linked_def image_iff)
  with assms(1) st show ?thesis by (auto simp: linked_def keeps_accepted_def)
next
  case (CasStartState i k state retry)
  have valid: "starts_valid starts" using assms(1) by (simp add: linked_def)
  from valid show ?thesis
  proof (cases rule: compareAndSetState_cases [where i = i and k = k and st = state and retry = retry and ck = ck])
    case refused
    with assms(2) CasStartState show ?thesis by simp
  next
    case (exchanged current)
    let ?g = "\<lambda>r. if si_id r = i then set_state ck state retry r else r"
    have st: "starts' = map ?g starts" using assms(2) exchanged CasStartState by simp
    have only: "r = current" if "r \<in> set starts" "si_id r = i" for r
      using valid exchanged(1,2) that by (auto simp: starts_valid_def distinct_map inj_on_def)
    have cur: "\<not> accepted_state (si_state current)" "\<not> accepted_state state"
      using assms(3) exchanged(3) CasStartState by (auto simp: accepted_kind)
    have ok: "start_record_ok records (?g r)" if "r \<in> set starts" for r
    proof (cases "si_id r = i")
      case True
      with only that have "r = current" by blast
      with assms(1) that cur show ?thesis by (auto simp: linked_def start_record_ok_unaccepted)
    qed (use assms(1) that in \<open>simp add: linked_def\<close>)
    have "\<forall>s \<in> set starts'. start_record_ok records s" unfolding st set_map using ok by blast
    moreover have "starts_valid starts'" unfolding st using valid by (subst starts_valid_map) auto
    moreover have "si_id ` set starts' = si_id ` set starts"
      unfolding st set_map image_image by (rule image_cong) simp_all
    moreover have "keeps_accepted starts starts'" using only cur by (force simp: keeps_accepted_def st)
    ultimately show ?thesis using assms(1) unfolding linked_def by simp
  qed
qed

lemma commit_starts_keep:
  assumes "linked starts records" "commit_starts ck ws starts = Inr starts'" "list_all unaccepting_start ws"
    and "\<And>si. CreateStart si \<in> set ws \<Longrightarrow> si_proposedTurnRecordId si \<notin> rec_id ` set records"
  shows "linked starts' records \<and> keeps_accepted starts starts'"
  using assms
proof (induction ws arbitrary: starts)
  case (Cons w ws)
  then obtain starts1 where 1: "commit_start ck w starts = Inr starts1" "commit_starts ck ws starts1 = Inr starts'"
    by (auto simp: throws_bind_Inr)
  have "linked starts1 records \<and> keeps_accepted starts starts1"
    using Cons.prems 1 by (intro commit_start_keeps) auto
  moreover from this 1 Cons.prems have "linked starts' records \<and> keeps_accepted starts1 starts'"
    by (intro Cons.IH) auto
  ultimately show ?case by (blast intro: keeps_accepted_trans)
qed simp

lemma linked_identity:
  assumes "linked starts records" "map row_identity records' = map row_identity records" "records_valid records'"
  shows "linked starts records'"
proof -
  have ids: "row_identity ` set records' = row_identity ` set records" using arg_cong [OF assms(2), of set] by simp
  have *: "(\<forall>r \<in> set rs. \<forall>i \<in> set_option (tr_turnStartRecordId r). i \<in> A) \<longleftrightarrow>
      (\<forall>j \<in> (\<lambda>(_, _, _, j, _). j) ` row_identity ` set rs. \<forall>i \<in> set_option j. i \<in> A)" for rs A
    by (auto simp: row_identity_def image_image)
  have "(\<forall>r \<in> set records'. \<forall>i \<in> set_option (tr_turnStartRecordId r). i \<in> A) \<longleftrightarrow>
      (\<forall>r \<in> set records. \<forall>i \<in> set_option (tr_turnStartRecordId r). i \<in> A)" for A
    unfolding * ids ..
  with assms show ?thesis unfolding linked_def start_record_ok_identity [OF ids] by simp
qed

definition db_linked :: "engine_db \<Rightarrow> bool" where
  "db_linked db \<longleftrightarrow> linked (ed_starts db) (ed_records db)"

text \<open>The generated record ids of a plan are new.\<close>

definition fresh_ids :: "engine_db \<Rightarrow> writes \<Rightarrow> bool" where
  "fresh_ids db w \<longleftrightarrow> (\<forall>si. CreateStart si \<in> set (w_turnStartWrites w) \<longrightarrow>
     si_proposedTurnRecordId si \<notin> rec_id ` set (ed_records db))"

lemma commitWrites_cases:
  assumes "commitWrites ck ids db w = Inr db'"
  obtains mapped starts written records where
    "commit_mapped_runs (ck_text ck) (pi_id (ed_process db)) (w_mappedRunWrites w) (ed_mapped db) = Inr mapped"
    "commit_starts ck (w_turnStartWrites w) (ed_starts db) = Inr starts"
    "commit_records ck ids (w_turnRecordWrites w) (ed_records db) = Inr (written, records)"
    "db' = db\<lparr>ed_mapped := mapped, ed_starts := starts, ed_records := records,
       ed_process := commit_process (ed_process db) w,
       ed_events := fold append_event (w_events w @ map (lifecycle_event (pi_id (ed_process db))) written) (ed_events db)\<rparr>"
  using assms by (auto simp: commitWrites_def Let_def throws_bind_Inr split: prod.splits)

lemma commit_unaccepting:
  assumes "db_linked db" "unaccepting w" "fresh_ids db w" "commitWrites ck ids db w = Inr db'"
  shows "db_linked db' \<and> keeps_accepted (ed_starts db) (ed_starts db')"
  using assms(4)
proof (cases rule: commitWrites_cases)
  case (1 mapped starts written records)
  have u: "list_all unaccepting_start (w_turnStartWrites w)" "list_all unaccepting_record (w_turnRecordWrites w)"
    using assms(2) by (simp_all add: unaccepting_def)
  have l: "linked starts (ed_records db) \<and> keeps_accepted (ed_starts db) starts"
    using assms(1,3) by (intro commit_starts_keep [OF _ 1(2) u(1)]) (auto simp: db_linked_def fresh_ids_def)
  then have "map row_identity records = map row_identity (ed_records db) \<and> records_valid records"
    by (intro commit_records_keep [OF 1(3) u(2)]) (simp add: linked_def)
  with l 1(4) show ?thesis by (auto simp: db_linked_def intro: linked_identity)
qed

end
