(* ===== verification/Turn_Starts.thy ===== *)
theory Turn_Starts
  imports Execution_Store
begin

text \<open>
  The life of a worker start (\<^verbatim>\<open>packages/server/src/process-engine/ops\<close>): a worker that has bootstrapped
  for a start has it accepted (\<^verbatim>\<open>accept-worker-turn-start.ts\<close>), a worker or a turn fails
  (\<^verbatim>\<open>worker-failure.ts\<close>, \<^verbatim>\<open>turn-failed.ts\<close>), a running turn is stopped (\<^verbatim>\<open>abort-turn.ts\<close>), and a start
  that failed before its acceptance is replaced by hand or automatically (\<^verbatim>\<open>retry-startup.ts\<close>,
  \<^verbatim>\<open>automatic-retry-startup.ts\<close>, \<^verbatim>\<open>startup-retry-policy.ts\<close>). An operation reads the store and decides:
  it returns a plan with its data, a rejection, or it throws (the outer \<open>Inl\<close>).

  Generated identifiers and the clock are arguments; whether a supervisor and a worker exist, and whether
  the model policy selects a model again, are arguments too.
\<close>

declare commit_process_def [simp]

section \<open>Decisions\<close>

record 'a decision =
  dc_writes :: writes
  dc_data :: 'a
  dc_metadata :: "json_object option"

type_synonym 'a decide = "(write_failure + 'a decision) throws"

definition accept :: "writes \<Rightarrow> 'a \<Rightarrow> json_object option \<Rightarrow> 'a decide" where
  "accept w d metadata = Inr (Inr \<lparr>dc_writes = createWrites w, dc_data = d, dc_metadata = metadata\<rparr>)"

definition reject :: "string \<Rightarrow> string \<Rightarrow> 'a decide" where
  "reject code message = Inr (Inl \<lparr>wf_code = code, wf_msg = message\<rparr>)"

definition noWrites :: "'a \<Rightarrow> 'a decide" where
  "noWrites d = accept no_writes d None"

text \<open>The overrides of an operator; \<open>None\<close> is an absent key.\<close>

record model_overrides =
  mo_nextTurnModelProfileId :: "string option option"
  mo_providerOptions :: "(string \<times> string) list option"

definition modelOverrideMetadata :: "model_overrides \<Rightarrow> json_object option" where
  "modelOverrideMetadata inp =
     (if mo_nextTurnModelProfileId inp = None \<and> mo_providerOptions inp = None then None
      else Some ((case mo_nextTurnModelProfileId inp of None \<Rightarrow> []
            | Some m \<Rightarrow> [(''nextTurnModelProfileId'', json_nullable m)])
         @ (case mo_providerOptions inp of None \<Rightarrow> []
            | Some opts \<Rightarrow> [(''providerOptions'', string_map_json opts)])))"

section \<open>Accepting a start\<close>

record accept_input =
  ai_workerLeaseId :: string
  ai_startRecordId :: string
  ai_proposedTurnRecordId :: string

definition receiptMatchesStart :: "bootstrap_receipt \<Rightarrow> string \<Rightarrow> string \<Rightarrow> bool" where
  "receiptMatchesStart receipt startId leaseId \<longleftrightarrow>
     br_startRecordId receipt = startId \<and> br_workerLeaseId receipt = leaseId"

definition CONTINUATION_METADATA_KEYS :: "string list" where
  "CONTINUATION_METADATA_KEYS = [''continueFromPiEntryId'', ''continueFromTurnRecordId'',
     ''continueSavedPrimaryLeafEntryId'', ''continuePrompt'', ''failedTurnRecovery'']"

definition metadataAfterAcceptedContinue :: "json_object option \<Rightarrow> json_object option" where
  "metadataAfterAcceptedContinue metadata =
     (let next = clear_keys CONTINUATION_METADATA_KEYS (coalesce metadata []) in
      if next \<noteq> [] then Some next else None)"

definition preparedStartMatchesDefinition :: "prepared_start \<Rightarrow> turn_binding \<Rightarrow> bool" where
  "preparedStartMatchesDefinition prepared def =
     (if ps_pathType prepared \<noteq> tb_branchType def \<or> ps_contextMode prepared \<noteq> tb_context def then False
      else case ps_startTarget prepared of
        TargetCurrentLeaf \<Rightarrow> (case ps_forkPiEntryId prepared of None \<Rightarrow> True | Some e \<Rightarrow> js_trim e \<noteq> [])
      | TargetEntry e \<Rightarrow> js_trim e \<noteq> [] \<and> ps_forkPiEntryId prepared = Some e
      | TargetRoot \<Rightarrow> ps_forkPiEntryId prepared = None)"

text \<open>The receipt fits the start: \<open>None\<close>, or the reason why it does not.\<close>

definition receipt_problem :: "graph_registry \<Rightarrow> string \<Rightarrow> start_row \<Rightarrow> resolved_start \<Rightarrow> bootstrap_receipt \<Rightarrow> string option" where
  "receipt_problem graphs processId start resolved receipt =
     (if si_turnType start = LlmTurn then
        (case (br_kind receipt, resolved, turn_binding_of graphs processId (si_turnId start)) of
           (LlmReceipt r, ResolvedLlm s, Some def) \<Rightarrow>
             if (case lr_preparedStart r of None \<Rightarrow> True
                 | Some prepared \<Rightarrow> tv_turnType (tb_view def) \<noteq> LlmTurn \<or> \<not> preparedStartMatchesDefinition prepared def)
               \<or> lr_verifiedResourceSnapshotDigest r \<noteq> ls_piResourceSnapshotDigest s
               \<or> lr_providerId r \<noteq> rm_providerId (ls_model s) \<or> lr_modelId r \<noteq> rm_modelId (ls_model s)
             then Some ''LLM bootstrap receipt does not match the durable start'' else None
         | _ \<Rightarrow> Some ''LLM bootstrap receipt does not match the durable start'')
      else if br_kind receipt \<noteq> AutomaticReceipt then Some ''Automatic start requires an automatic receipt''
      else None)"

definition prepared_of :: "bootstrap_receipt \<Rightarrow> prepared_start option" where
  "prepared_of receipt = (case br_kind receipt of LlmReceipt r \<Rightarrow> lr_preparedStart r | AutomaticReceipt \<Rightarrow> None)"

definition llm_of :: "resolved_start \<Rightarrow> llm_start option" where
  "llm_of r = (case r of ResolvedLlm s \<Rightarrow> Some s | ResolvedAutomatic \<Rightarrow> None)"

definition provenance_json :: "provenance option \<Rightarrow> json" where
  "provenance_json prov = (case prov of None \<Rightarrow> JNull
     | Some x \<Rightarrow> JObj [(''kind'', JStr (mp_kind x)), (''source'', JStr (mp_source x))])"

definition accepted_record :: "turn_row list \<Rightarrow> start_row \<Rightarrow> resolved_start \<Rightarrow> bootstrap_receipt \<Rightarrow> string \<Rightarrow> json_object" where
  "accepted_record records start resolved receipt leaseId =
     (let parent = (if truthy (si_recoveryTurnRecordId start)
                    then getRecordById records (the (si_recoveryTurnRecordId start)) else None);
          prepared = prepared_of receipt; llm = llm_of resolved in
      [(''id'', JStr (si_proposedTurnRecordId start)), (''instanceId'', JStr (si_instanceId start)),
       (''turnId'', JStr (si_turnId start)), (''turnType'', JStr (turn_type_name (si_turnType start))),
       (''status'', JStr ''running''),
       (''attemptNumber'', JNum (coalesce (map_option rec_attemptNumber parent) 0 + 1)),
       (''parentTurnRecordId'', json_nullable (si_recoveryTurnRecordId start)),
       (''pathType'', JStr (path_type_name (coalesce (map_option ps_pathType prepared) PrimaryPath))),
       (''forkPiEntryId'', json_nullable (Option.bind prepared ps_forkPiEntryId)),
       (''turnStartRecordId'', JStr (si_id start)), (''acceptedWorkerLeaseId'', JStr leaseId),
       (''modelProfileId'', json_nullable (map_option (\<lambda>s. rm_profileId (ls_model s)) llm)),
       (''modelSelectionProvenance'', provenance_json (Option.bind llm ls_modelSelectionProvenance)),
       (''iteration'', iteration_json (si_iteration start))])"

definition accepting_writes ::
    "process_instance \<Rightarrow> turn_row list \<Rightarrow> start_row \<Rightarrow> resolved_start \<Rightarrow> bootstrap_receipt \<Rightarrow> string \<Rightarrow> writes" where
  "accepting_writes p records start resolved receipt leaseId =
     (let w = no_writes
        \<lparr>w_turnRecordWrites := [CreateRow (accepted_record records start resolved receipt leaseId)],
         w_turnStartWrites := [CasStartState (si_id start) KindStarting
           (AcceptedState resolved (si_proposedTurnRecordId start) leaseId) None]\<rparr> in
      if si_startKind start = ContinueStart
      then w\<lparr>w_processPatch := [(FMetadata, nullable_meta (metadataAfterAcceptedContinue (pi_metadata p)))],
             w_changedFields := [FMetadata]\<rparr>
      else w)"

definition accept_starting ::
    "graph_registry \<Rightarrow> engine_db \<Rightarrow> start_row \<Rightarrow> resolved_start \<Rightarrow> bootstrap_receipt \<Rightarrow> string \<Rightarrow> string decide" where
  "accept_starting graphs db start resolved receipt leaseId =
     throws_bind (getProcessTurnGraph graphs (pi_processId (ed_process db)) (si_turnId start)) (\<lambda>definition.
       if map_option tv_turnType definition \<noteq> Some (si_turnType start)
       then reject ''turn_start_invalid'' ''Current process definition rejects this worker start''
       else case receipt_problem graphs (pi_processId (ed_process db)) start resolved receipt of
         Some message \<Rightarrow> reject ''worker_receipt_invalid'' message
       | None \<Rightarrow> accept (accepting_writes (ed_process db) (ed_records db) start resolved receipt leaseId)
                  (si_proposedTurnRecordId start) None)"

text \<open>The start and the lease with its receipt that an acceptance is about.\<close>

definition matching_start :: "engine_db \<Rightarrow> accept_input \<Rightarrow> start_row option" where
  "matching_start db inp =
     (case getStartById (ed_starts db) (ai_startRecordId inp) of
        None \<Rightarrow> None
      | Some start \<Rightarrow>
          if si_instanceId start \<noteq> pi_id (ed_process db) \<or>
             si_proposedTurnRecordId start \<noteq> ai_proposedTurnRecordId inp \<or>
             Some (si_turnId start) \<noteq> pi_selectedTurnId (ed_process db)
          then None else Some start)"

definition matching_receipt :: "engine_db \<Rightarrow> accept_input \<Rightarrow> start_row \<Rightarrow> bootstrap_receipt option" where
  "matching_receipt db inp start =
     (case getLeaseByInstance (ed_leases db) (pi_id (ed_process db)) of
        None \<Rightarrow> None
      | Some lease \<Rightarrow>
          if wl_id lease \<noteq> ai_workerLeaseId inp then None
          else (case wl_bootstrapReceipt lease of
              None \<Rightarrow> None
            | Some receipt \<Rightarrow> if receiptMatchesStart receipt (si_id start) (wl_id lease) then Some receipt else None))"

definition AcceptWorkerTurnStart :: "graph_registry \<Rightarrow> engine_db \<Rightarrow> accept_input \<Rightarrow> string decide" where
  "AcceptWorkerTurnStart graphs db inp =
     (if pi_lifecycleStatus (ed_process db) \<noteq> ActiveProcess \<or>
         pi_currentExecution (ed_process db) \<noteq> Some (ai_startRecordId inp)
      then reject ''stale_turn_start'' ''Worker start is no longer current and active''
      else case matching_start db inp of
        None \<Rightarrow> reject ''stale_turn_start'' ''Worker start does not match the selected process turn''
      | Some start \<Rightarrow> (case matching_receipt db inp start of
          None \<Rightarrow> reject ''worker_receipt_invalid'' ''Worker lease has no matching bootstrap receipt''
        | Some receipt \<Rightarrow> (case si_state start of
            AcceptedState _ turnRecordId leaseId \<Rightarrow>
              if turnRecordId = ai_proposedTurnRecordId inp \<and> leaseId = ai_workerLeaseId inp
              then noWrites turnRecordId
              else reject ''turn_start_already_accepted'' ''Worker start was accepted with a different identity''
          | StartingState resolved \<Rightarrow> accept_starting graphs db start resolved receipt (ai_workerLeaseId inp)
          | _ \<Rightarrow> reject ''turn_start_not_starting'' ''Worker start is not awaiting acceptance'')))"

section \<open>Failures\<close>

definition resolveCurrentExecutionTurnRecordId :: "process_instance \<Rightarrow> start_row list \<Rightarrow> string option" where
  "resolveCurrentExecutionTurnRecordId p starts =
     (case Option.bind (pi_currentExecution p) (getStartById starts) of
        None \<Rightarrow> None
      | Some start \<Rightarrow> (case si_state start of AcceptedState _ turnRecordId _ \<Rightarrow> Some turnRecordId | _ \<Rightarrow> None))"

record worker_failure_payload =
  wp_errorCode :: string
  wp_message :: string
  wp_errorClass :: "worker_error_class option"
  wp_workerLeaseId :: "string option"
  wp_resultPiEntryId :: "string option"
  wp_recoveryContext :: "recovery_context option"

definition failed_intent :: "worker_failure_payload \<Rightarrow> worker_intent" where
  "failed_intent inp = StopWithReason (''worker_failed:'' @ wp_errorCode inp)"

text \<open>The report names a lease that does not hold the current start of the process.\<close>

definition late_failure :: "engine_db \<Rightarrow> start_row option \<Rightarrow> worker_failure_payload \<Rightarrow> bool" where
  "late_failure db currentStart inp \<longleftrightarrow> truthy (wp_workerLeaseId inp) \<and>
     (case getLeaseById (ed_leases db) (the (wp_workerLeaseId inp)) of
        None \<Rightarrow> True
      | Some lease \<Rightarrow> wl_instanceId lease \<noteq> pi_id (ed_process db) \<or>
          (case wl_turnStartRecordId lease of
             Some s \<Rightarrow> map_option si_id currentStart \<noteq> Some s
           | None \<Rightarrow> map_option wl_id (getLeaseByInstance (ed_leases db) (pi_id (ed_process db))) \<noteq> Some (wl_id lease)))"

definition reported_lease :: "engine_db \<Rightarrow> worker_failure_payload \<Rightarrow> lease_row option" where
  "reported_lease db inp =
     (if truthy (wp_workerLeaseId inp) then getLeaseById (ed_leases db) (the (wp_workerLeaseId inp))
      else getLeaseByInstance (ed_leases db) (pi_id (ed_process db)))"

definition bootstrap_failed_writes :: "engine_db \<Rightarrow> start_row \<Rightarrow> resolved_start \<Rightarrow> worker_failure_payload \<Rightarrow> writes" where
  "bootstrap_failed_writes db start resolved inp = no_writes
     \<lparr>w_turnStartWrites := [CasStartState (si_id start) KindStarting
        (BootstrapFailedState resolved (map_option wl_id (reported_lease db inp)) (wp_errorCode inp) (wp_message inp)) None],
      w_processPatch := [(FLifecycleStatus, VLifecycle ErrorProcess)], w_changedFields := [FLifecycleStatus],
      w_workerIntent := Some (failed_intent inp)\<rparr>"

definition running_turn :: "engine_db \<Rightarrow> start_row option \<Rightarrow> turn_record option" where
  "running_turn db currentStart =
     (case map_option si_state currentStart of
        Some (AcceptedState _ turnRecordId _) \<Rightarrow> (case getRecordById (ed_records db) turnRecordId of
            Some r \<Rightarrow> if rec_status r = ''running'' then Some (turn_record.truncate r) else None
          | None \<Rightarrow> None)
      | _ \<Rightarrow> None)"

definition WorkerFailure :: "graph_registry \<Rightarrow> clock \<Rightarrow> engine_db \<Rightarrow> worker_failure_payload \<Rightarrow> unit decide" where
  "WorkerFailure graphs ck db inp =
     (let p = ed_process db;
          currentStart = Option.bind (pi_currentExecution p) (getStartById (ed_starts db));
          running = running_turn db currentStart in
      if late_failure db currentStart inp then noWrites ()
      else case map_option (\<lambda>s. (s, si_state s)) currentStart of
        Some (start, StartingState resolved) \<Rightarrow>
          if pi_lifecycleStatus p \<noteq> ActiveProcess then noWrites ()
          else accept (bootstrap_failed_writes db start resolved inp) () None
      | _ \<Rightarrow>
          if running = None \<and> pi_lifecycleStatus p = ErrorProcess then noWrites ()
          else throws_bind (if running = None
              then selectedTurnRequiresWorker graphs (Some (pi_processId p)) (pi_selectedTurnId p)
                     (pi_lifecycleStatus p) (pi_metadata p)
              else Inr True) (\<lambda>needed.
            if \<not> needed then accept (no_writes\<lparr>w_workerIntent := Some (failed_intent inp)\<rparr>) () None
            else throws_bind (buildWorkerFailureWrites p
                \<lparr>wfi_message = wp_message inp, wfi_errorCode = wp_errorCode inp, wfi_errorClass = wp_errorClass inp,
                 wfi_activeTurnRecord = running, wfi_resultPiEntryId = wp_resultPiEntryId inp,
                 wfi_recoveryContext = wp_recoveryContext inp, wfi_endedAt = ck_text ck\<rparr>) (\<lambda>w.
              accept w () None)))"

definition validateTurnFailedCorrelation :: "turn_failed_input \<Rightarrow> string option \<Rightarrow> write_failure option" where
  "validateTurnFailedCorrelation payload expected =
     (if expected \<noteq> Some (tf_turnRecordId payload)
      then Some \<lparr>wf_code = ''stale_turn_record'',
        wf_msg = ''Ignoring turn failure for stale turnRecordId '' @ quoted (tf_turnRecordId payload)\<rparr>
      else None)"

definition TurnFailed :: "clock \<Rightarrow> engine_db \<Rightarrow> turn_failed_input \<Rightarrow> unit decide" where
  "TurnFailed ck db payload =
     (let expected = resolveCurrentExecutionTurnRecordId (ed_process db) (ed_starts db) in
      case validateTurnFailedCorrelation payload expected of
        Some failure \<Rightarrow> Inr (Inl failure)
      | None \<Rightarrow> (case getRecordById (ed_records db) (tf_turnRecordId payload) of
          None \<Rightarrow> reject ''stale_turn_record'' ''Accepted worker turn record is missing and cannot be failed''
        | Some existing \<Rightarrow> accept (buildTurnFailedWrites (ed_process db) payload (turn_record.truncate existing) (ck_text ck))
                             () None))"

definition AbortTurn :: "bool \<Rightarrow> bool \<Rightarrow> engine_db \<Rightarrow> string \<Rightarrow> actor option \<Rightarrow> unit decide" where
  "AbortTurn supervised hasWorker db reason who =
     (let p = ed_process db;
          current = Option.bind (resolveCurrentExecutionTurnRecordId p (ed_starts db)) (\<lambda>i.
            if i \<noteq> [] then getRecordById (ed_records db) i else None) in
      if \<not> supervised then reject ''worker_supervisor_unavailable'' ''Worker supervisor is not available''
      else if pi_lifecycleStatus p \<noteq> ActiveProcess
      then reject ''invalid_transition'' ''Only an active process with a running turn can be stopped''
      else case current of
        None \<Rightarrow> reject ''invalid_transition'' ''This process has no running LLM turn to stop''
      | Some r \<Rightarrow>
          if rec_status r \<noteq> ''running'' \<or> rec_turnType r \<noteq> LlmTurn
          then reject ''invalid_transition'' ''This process has no running LLM turn to stop''
          else if \<not> hasWorker
          then reject ''worker_unavailable'' ''No active worker is available to stop this turn''
          else accept (appendProcessEvent (createWrites (no_writes\<lparr>w_workerIntent := Some (AbortTurnIntent reason)\<rparr>)) p
              ''turn_abort_requested'' ''info'' ''Turn abort requested''
              (Some [(''turnRecordId'', JStr (rec_id r)), (''turnId'', JStr (rec_turnId r)), (''reason'', JStr reason),
                     (''actor'', actor_json (coalesce who SYSTEM_ACTOR))])) () None)"

section \<open>Replacing a start that failed\<close>

definition MAX_STARTUP_STARTS :: int where "MAX_STARTUP_STARTS = 3"

text \<open>\<open>String(value)\<close> of a JSON value.\<close>

fun js_string :: "json \<Rightarrow> string" where
  "js_string JNull = ''null''"
| "js_string (JBool b) = (if b then ''true'' else ''false'')"
| "js_string (JNum n) = int_text n"
| "js_string (JStr s) = s"
| "js_string (JArr xs) = js_join '','' (map (\<lambda>x. if x = JNull then [] else js_string x) xs)"
| "js_string (JObj _) = ''[object Object]''"

definition js_string_of :: "json option \<Rightarrow> string" where
  "js_string_of v = (case v of None \<Rightarrow> ''undefined'' | Some j \<Rightarrow> js_string j)"

definition event_field :: "process_event option \<Rightarrow> string \<Rightarrow> json option" where
  "event_field e k = json_get (Option.bind e pe_data) k"

definition listByInstanceEventTypes :: "(int \<times> process_event) list \<Rightarrow> string \<Rightarrow> string \<Rightarrow> process_event list" where
  "listByInstanceEventTypes events instanceId eventType =
     map snd (rev (sort_key fst (filter (\<lambda>(_, e). pe_instanceId e = instanceId \<and> pe_eventType e = eventType) events)))"

text \<open>The replacement was asked for by an operator.\<close>

definition manual_retry :: "process_event option \<Rightarrow> bool" where
  "manual_retry e \<longleftrightarrow> event_field e ''retrySource'' = Some (JStr ''manual'') \<or>
     (case event_field e ''actor'' of None \<Rightarrow> False
      | Some a \<Rightarrow> json_truthy a \<and> json_get (asUnknownRecord (Some a)) ''kind'' \<noteq> Some (JStr ''system''))"

text \<open>
  The walk back through the starts that were replaced, for starts written before the counters existed. It
  stops at the first start of the episode, at a start with counters, or when the history is broken, which
  uses up the allowance.
\<close>

function retry_walk ::
    "start_row list \<Rightarrow> (string \<Rightarrow> process_event option) \<Rightarrow> string \<Rightarrow> start_row \<Rightarrow> int \<Rightarrow> string list \<Rightarrow> startup_retry" where
  "retry_walk starts predecessors turnId current count seen =
     (let stop = (\<lambda>n. \<lparr>rt_episodeStartRecordId = si_id current, rt_starts = n, rt_nextRetryAt = None\<rparr>) in
      if si_startKind current \<noteq> StartupRetryStart then stop count
      else
        let e = predecessors (si_id current) in
        if manual_retry e then stop count
        else case js_map (map (\<lambda>s. (si_id s, s)) starts) (js_string_of (event_field e ''previousStartRecordId'')) of
          None \<Rightarrow> stop (max count MAX_STARTUP_STARTS)
        | Some previous \<Rightarrow>
            if si_id previous \<in> set seen \<or> si_turnId previous \<noteq> turnId then stop (max count MAX_STARTUP_STARTS)
            else (case si_automaticRetry previous of
                Some r \<Rightarrow> r\<lparr>rt_starts := rt_starts r + (count + 1) - 1, rt_nextRetryAt := None\<rparr>
              | None \<Rightarrow> retry_walk starts predecessors turnId previous (count + 1) (si_id previous # seen)))"
  by pat_completeness auto

termination
proof (relation "measure (\<lambda>(starts, _, _, _, _, seen). card (si_id ` set starts - set seen))")
  fix starts :: "start_row list" and predecessors :: "string \<Rightarrow> process_event option" and turnId current count seen
    and previous :: start_row and stop e
  assume "js_map (map (\<lambda>s. (si_id s, s)) starts) (js_string_of (event_field e ''previousStartRecordId'')) = Some previous"
    and "\<not> (si_id previous \<in> set seen \<or> si_turnId previous \<noteq> turnId)"
  then have "si_id ` set starts - set (si_id previous # seen) \<subset> si_id ` set starts - set seen"
    by (auto dest: js_map_SomeD)
  then have "card (si_id ` set starts - set (si_id previous # seen)) < card (si_id ` set starts - set seen)"
    by (intro psubset_card_mono) simp_all
  then show "((starts, predecessors, turnId, previous, count + 1, si_id previous # seen),
      starts, predecessors, turnId, current, count, seen)
      \<in> measure (\<lambda>(starts, _, _, _, _, seen). card (si_id ` set starts - set seen))"
    by simp
qed simp

declare retry_walk.simps [simp del]

definition startupRetryState :: "start_row \<Rightarrow> start_row list \<Rightarrow> process_event list \<Rightarrow> startup_retry" where
  "startupRetryState start starts events =
     (case si_automaticRetry start of
        Some r \<Rightarrow> r
      | None \<Rightarrow> retry_walk starts
          (js_map (map (\<lambda>e. (js_string_of (event_field (Some e) ''startRecordId''), e))
             (filter (\<lambda>e. pe_eventType e = ''startup_retry_scheduled'') events)))
          (si_turnId start) start 1 [si_id start])"

datatype recovery_status = RecoveryBlocked | RecoveryWaiting | RecoveryReady | RecoveryWaitingForModel
  | RecoveryExhausted | RecoveryRetried

record recovery_summary =
  rs_status :: recovery_status
  rs_reason :: string
  rs_starts :: int
  rs_maxStarts :: int
  rs_nextRetryAt :: "int option"

definition summary_of :: "startup_retry \<Rightarrow> recovery_status \<Rightarrow> string \<Rightarrow> int option \<Rightarrow> recovery_summary" where
  "summary_of retry status reason nextRetryAt =
     \<lparr>rs_status = status, rs_reason = reason, rs_starts = rt_starts retry, rs_maxStarts = MAX_STARTUP_STARTS,
      rs_nextRetryAt = nextRetryAt\<rparr>"

definition TRANSIENT_CODES :: "string list" where
  "TRANSIENT_CODES = [''startup_timeout'', ''spawn_error'', ''worker_spawn_failed'', ''worker_adoption_failed'',
     ''process_exited'']"

text \<open>\<open>30_000 * 2 ** (starts - 1)\<close>; \<open>new Date\<close> drops the fraction of an instant.\<close>

definition retry_delay :: "int \<Rightarrow> int" where
  "retry_delay starts = (if starts \<ge> 1 then 30000 * 2 ^ nat (starts - 1) else 30000 div 2 ^ nat (1 - starts))"

text \<open>The code of a failure before the acceptance, and whether the bootstrap failed.\<close>

definition start_failure :: "start_state \<Rightarrow> (string \<times> bool) option" where
  "start_failure st =
     (case st of
        PreparationFailed _ _ code _ _ _ \<Rightarrow> Some (code, False)
      | BootstrapFailedState _ _ code _ \<Rightarrow> Some (code, True)
      | _ \<Rightarrow> None)"

definition automaticStartupRecovery :: "start_row \<Rightarrow> startup_retry \<Rightarrow> int \<Rightarrow> bool \<Rightarrow> recovery_summary" where
  "automaticStartupRecovery start retry now modelRestored =
     (let summary = summary_of retry in
      case start_failure (si_state start) of
        None \<Rightarrow> summary RecoveryBlocked ''This start is no longer eligible for automatic recovery.'' None
      | Some (code, bootstrap) \<Rightarrow>
          let modelFailure = (code = ''model_unavailable'' \<or> code = ''model_stale'');
              transient = (bootstrap \<and> code \<in> set TRANSIENT_CODES) in
          if \<not> modelFailure \<and> \<not> transient
          then summary RecoveryBlocked ''Automatic retry stopped. Correct the failure and retry manually.'' None
          else if rt_starts retry \<ge> MAX_STARTUP_STARTS
          then summary RecoveryExhausted
                 ''Automatic startup retries exhausted. Retry manually after correcting the failure.'' None
          else if modelFailure
          then (if modelRestored then summary RecoveryReady ''Model availability restored.'' None
                else summary RecoveryWaitingForModel ''Waiting for model availability to be restored.'' None)
          else case sr_updatedAt start of
            None \<Rightarrow> summary RecoveryBlocked ''Startup failure timing is unavailable. Retry manually.'' None
          | Some failureAt \<Rightarrow>
              let nextRetryAt = coalesce (rt_nextRetryAt retry) (failureAt + retry_delay (rt_starts retry)) in
              summary (if nextRetryAt > now then RecoveryWaiting else RecoveryReady)
                ''A transient worker startup failure is eligible for automatic recovery.'' (Some nextRetryAt))"

record retry_input =
  ri_startRecordId :: string
  ri_overrides :: model_overrides
  ri_actor :: "actor option"
  ri_automaticRetry :: "startup_retry option"

text \<open>The state of the replacement; an LLM start is prepared again.\<close>

definition replacement_state :: "start_state \<Rightarrow> start_state option" where
  "replacement_state st =
     (case st of
        PreparationFailed model opts _ _ prov revision \<Rightarrow>
          Some (PreparationFailed model opts ''model_required'' ''LLM start requires retry preparation'' prov revision)
      | BootstrapFailedState ResolvedAutomatic _ _ _ \<Rightarrow> Some (StartingState ResolvedAutomatic)
      | BootstrapFailedState (ResolvedLlm s) _ _ _ \<Rightarrow>
          Some (PreparationFailed (Some (rm_profileId (ls_model s))) (ls_providerOptions s) ''model_required''
            ''LLM start requires retry preparation'' (ls_modelSelectionProvenance s) None)
      | _ \<Rightarrow> None)"

definition replacement_start :: "string \<Rightarrow> string \<Rightarrow> start_row \<Rightarrow> start_state \<Rightarrow> startup_retry option \<Rightarrow> start_input" where
  "replacement_start startId recordId failed st retry =
     \<lparr>si_id = startId, si_instanceId = si_instanceId failed, si_turnId = si_turnId failed,
      si_turnType = si_turnType failed, si_proposedTurnRecordId = recordId, si_startKind = StartupRetryStart,
      si_recoveryTurnRecordId = si_recoveryTurnRecordId failed, si_continuation = si_continuation failed,
      si_state = st, si_iteration = si_iteration failed, si_automaticRetry = retry\<rparr>"

definition replacement_writes ::
    "string \<Rightarrow> string \<Rightarrow> process_instance \<Rightarrow> start_row \<Rightarrow> start_state \<Rightarrow> retry_input \<Rightarrow> writes" where
  "replacement_writes startId recordId p failed st inp =
     (let starting = (kind_of_state st = KindStarting);
          w0 = createWrites (no_writes\<lparr>w_workerIntent := (if starting then Some RestartWorker else None)\<rparr>);
          w1 = w0\<lparr>w_turnStartWrites := w_turnStartWrites w0
                 @ [CreateStart (replacement_start startId recordId failed st (ri_automaticRetry inp))]\<rparr>;
          w2 = applyProcessPatchField w1 p FCurrentExecution (VExecution startId);
          w3 = applyProcessPatchField w2 p FLifecycleStatus (VLifecycle (if starting then ActiveProcess else ErrorProcess));
          w4 = appendProcessEvent w3 p ''startup_retry_scheduled'' ''info'' ''Startup retry scheduled''
            (Some [(''previousStartRecordId'', JStr (si_id failed)), (''startRecordId'', JStr startId),
                   (''state'', JStr (state_kind_name (kind_of_state st))),
                   (''retrySource'', JStr (if ri_automaticRetry inp \<noteq> None then ''automatic'' else ''manual''))]) in
      fst (stampActorOnEvents w4 (ri_actor inp) ''startup_retry_scheduled''))"

definition RetryStartup :: "string \<Rightarrow> string \<Rightarrow> engine_db \<Rightarrow> retry_input \<Rightarrow> string decide" where
  "RetryStartup startId recordId db inp =
     (let p = ed_process db in
      if pi_lifecycleStatus p \<noteq> ErrorProcess \<or> pi_currentExecution p \<noteq> Some (ri_startRecordId inp)
      then reject ''stale_turn_start'' ''Startup retry target is no longer current''
      else case getStartById (ed_starts db) (ri_startRecordId inp) of
        None \<Rightarrow> reject ''retry_target_missing'' ''Startup retry requires a failed current start''
      | Some failed \<Rightarrow> (case replacement_state (si_state failed) of
          None \<Rightarrow> reject ''retry_target_missing'' ''Startup retry requires a failed current start''
        | Some st \<Rightarrow> accept (replacement_writes startId recordId p failed st inp) startId
            (modelOverrideMetadata (ri_overrides inp))))"

text \<open>
  \<open>available\<close> says whether the model policy selects a model for the start again; it is asked only when a
  change of the availability caused the recovery and the preparation of the start had failed.
\<close>

record auto_retry_input =
  ar_startRecordId :: string
  ar_availabilityCause :: bool

definition no_model_overrides :: model_overrides where
  "no_model_overrides = \<lparr>mo_nextTurnModelProfileId = None, mo_providerOptions = None\<rparr>"

definition AutomaticRetryStartup ::
    "string \<Rightarrow> string \<Rightarrow> int \<Rightarrow> bool \<Rightarrow> engine_db \<Rightarrow> auto_retry_input \<Rightarrow> recovery_summary decide" where
  "AutomaticRetryStartup startId recordId now available db inp =
     (let p = ed_process db in
      if pi_lifecycleStatus p \<noteq> ErrorProcess \<or> pi_currentExecution p \<noteq> Some (ar_startRecordId inp)
      then reject ''stale_turn_start'' ''Startup recovery target is no longer current''
      else case Option.bind (getStartById (ed_starts db) (ar_startRecordId inp)) (\<lambda>s.
          map_option (\<lambda>f. (s, f)) (start_failure (si_state s))) of
        None \<Rightarrow> reject ''retry_target_missing'' ''Automatic recovery requires an unaccepted failed start''
      | Some (start, _, bootstrap) \<Rightarrow>
          let retry = (case si_automaticRetry start of
                  Some r \<Rightarrow> r
                | None \<Rightarrow> startupRetryState start (listStartsByInstance (ed_starts db) (pi_id p))
                    (listByInstanceEventTypes (ed_events db) (pi_id p) ''startup_retry_scheduled''));
              modelRestored = (ar_availabilityCause inp \<and> \<not> bootstrap \<and> available);
              summary = automaticStartupRecovery start retry now modelRestored in
          if rs_status summary \<noteq> RecoveryReady then
            (if si_automaticRetry start \<noteq> None \<and> rt_nextRetryAt retry = rs_nextRetryAt summary
             then accept no_writes summary None
             else accept (no_writes
                \<lparr>w_turnStartWrites := [CasStartState (si_id start) (kind_of_state (si_state start)) (si_state start)
                   (Some (retry\<lparr>rt_nextRetryAt := rs_nextRetryAt summary\<rparr>))],
                 w_processPatch := [(FCurrentExecution, pi_fields p FCurrentExecution)],
                 w_changedFields := [FCurrentExecution]\<rparr>) summary None)
          else throws_bind (RetryStartup startId recordId db
              \<lparr>ri_startRecordId = ar_startRecordId inp, ri_overrides = no_model_overrides, ri_actor = None,
               ri_automaticRetry = Some (retry\<lparr>rt_starts := rt_starts retry + 1, rt_nextRetryAt := None\<rparr>)\<rparr>) (\<lambda>r.
            case r of
              Inl failure \<Rightarrow> reject (wf_code failure) (wf_msg failure)
            | Inr d \<Rightarrow> accept (dc_writes d)
                (summary\<lparr>rs_starts := rt_starts retry + 1, rs_status := RecoveryRetried, rs_nextRetryAt := None,
                         rs_reason := ''Worker startup retry requested.''\<rparr>) (dc_metadata d)))"

section \<open>Accepted starts\<close>

lemma turn_type_of_name_inverse [simp]: "turn_type_of_name (turn_type_name t) = Some t"
  by (cases t) (simp_all add: turn_type_of_name_def)

lemma path_type_of_name_inverse [simp]: "path_type_of_name (path_type_name t) = Some t"
  by (cases t) (simp_all add: path_type_of_name_def)

lemma iteration_of_json_inverse [simp]: "iteration_of_json (Some (iteration_json it)) = it"
  by (cases it) (simp_all add: iteration_of_json_def iteration_json_def asUnknownRecord_def json_get_def)

lemma provenance_of_json_inverse [simp]: "provenance_of_json (provenance_json x) = x"
  by (cases x) (simp_all add: provenance_of_json_def provenance_json_def asUnknownRecord_def json_get_def)

text \<open>The record that an acceptance creates.\<close>

definition parent_attempt :: "turn_row list \<Rightarrow> start_row \<Rightarrow> int" where
  "parent_attempt records start =
     coalesce (map_option rec_attemptNumber (if truthy (si_recoveryTurnRecordId start)
       then getRecordById records (the (si_recoveryTurnRecordId start)) else None)) 0"

lemma accepted_row:
  assumes "r = new_turn_row ck newId (accepted_record records start resolved receipt leaseId)"
  shows "rec_id r = si_proposedTurnRecordId start" "rec_turnId r = si_turnId start" "rec_turnType r = si_turnType start"
    "rec_status r = ''running''" "rec_attemptNumber r = parent_attempt records start + 1"
    "rec_pathType r = coalesce (map_option ps_pathType (prepared_of receipt)) PrimaryPath"
    "rec_forkPiEntryId r = Option.bind (prepared_of receipt) ps_forkPiEntryId"
    "rec_iteration r = si_iteration start" "rec_provenance r = Option.bind (llm_of resolved) ls_modelSelectionProvenance"
    "rec_modelProfileId r = map_option (\<lambda>s. rm_profileId (ls_model s)) (llm_of resolved)"
    "tr_instanceId r = si_instanceId start" "tr_turnStartRecordId r = Some (si_id start)"
    "tr_acceptedWorkerLeaseId r = Some leaseId" "tr_parentTurnRecordId r = si_recoveryTurnRecordId start"
    "tr_endedAt r = None"
  by (simp_all add: assms new_turn_row_def accepted_record_def Let_def required_text_def text_column_def number_column_def
      turn_type_column_def provenance_column_def json_nullable_def parent_attempt_def split: option.split)

lemmas accepted_row_simps = accepted_row [OF refl]

lemma accepted_row_identity:
  "row_identity (new_turn_row ck newId (accepted_record records start resolved receipt leaseId)) =
     (si_proposedTurnRecordId start, si_turnId start, si_instanceId start, Some (si_id start), Some leaseId)"
  by (simp add: row_identity_def accepted_row_simps)

text \<open>A plan that accepts a start of the store, whatever else it does to the process.\<close>

definition accepts :: "engine_db \<Rightarrow> start_row \<Rightarrow> resolved_start \<Rightarrow> bootstrap_receipt \<Rightarrow> string \<Rightarrow> writes \<Rightarrow> bool" where
  "accepts db start resolved receipt leaseId w \<longleftrightarrow>
     start \<in> set (ed_starts db) \<and> si_state start = StartingState resolved \<and>
     w_turnStartWrites w = [CasStartState (si_id start) KindStarting
       (AcceptedState resolved (si_proposedTurnRecordId start) leaseId) None] \<and>
     w_turnRecordWrites w = [CreateRow (accepted_record (ed_records db) start resolved receipt leaseId)]"

definition accepted_start :: "clock \<Rightarrow> start_row \<Rightarrow> resolved_start \<Rightarrow> string \<Rightarrow> start_row" where
  "accepted_start ck start resolved leaseId =
     set_state ck (AcceptedState resolved (si_proposedTurnRecordId start) leaseId) None start"

lemma linked_accept:
  fixes starts :: "start_row list" and ck :: clock
  assumes "linked starts records" "start \<in> set starts" "si_state start = StartingState resolved"
    and row: "row_identity r = (si_proposedTurnRecordId start, si_turnId start, si_instanceId start, Some (si_id start), Some leaseId)"
      "rec_turnType r = si_turnType start"
  defines "starts' \<equiv> map (\<lambda>s. if si_id s = si_id start
      then set_state ck (AcceptedState resolved (si_proposedTurnRecordId start) leaseId) None s else s) starts"
  shows "records_valid (records @ [r])" "linked starts' (records @ [r])" "keeps_accepted starts starts'"
    "accepted_start ck start resolved leaseId \<in> set starts'"
proof -
  have valid: "starts_valid starts" "records_valid records" using assms(1) by (simp_all add: linked_def)
  have r: "rec_id r = si_proposedTurnRecordId start" "tr_turnStartRecordId r = Some (si_id start)"
      "tr_acceptedWorkerLeaseId r = Some leaseId" using row(1) by (simp_all add: row_identity_def)
  have only: "s = start" if "s \<in> set starts" "si_id s = si_id start" for s
    using valid(1) assms(2) that by (auto simp: starts_valid_def distinct_map inj_on_def)
  have proposed: "s = start" if "s \<in> set starts" "si_proposedTurnRecordId s = si_proposedTurnRecordId start" for s
    using valid(1) assms(2) that by (auto simp: starts_valid_def distinct_map inj_on_def)
  have "start_record_ok records start" using assms(1,2) by (simp add: linked_def)
  then have free: "x \<in> set records \<Longrightarrow> rec_id x \<noteq> si_proposedTurnRecordId start \<and> tr_turnStartRecordId x \<noteq> Some (si_id start)" for x
    using assms(3) by (simp add: start_record_ok_unaccepted)
  have ty: "si_turnType start \<in> {LlmTurn, AutomaticTurn}"
    using valid(1) assms(2) by (auto simp: starts_valid_def list_all_iff)
  have "si_id start \<notin> set (List.map_filter tr_turnStartRecordId records)"
    using free by (force simp: List.map_filter_def)
  moreover have "List.map_filter tr_turnStartRecordId (records @ [r]) = List.map_filter tr_turnStartRecordId records @ [si_id start]"
    using r by (simp add: List.map_filter_def)
  moreover have "rec_id r \<notin> rec_id ` set records" using free r(1) by (metis imageE)
  ultimately show rv: "records_valid (records @ [r])"
    using valid(2) ty row(2) r by (auto simp: records_valid_def worker_start_link_def)
  show "keeps_accepted starts starts'" using only assms(3) by (force simp: keeps_accepted_def starts'_def)
  show "accepted_start ck start resolved leaseId \<in> set starts'"
    using assms(2) by (force simp: starts'_def accepted_start_def)
  have ids: "si_id ` set starts' = si_id ` set starts"
    unfolding starts'_def set_map image_image by (rule image_cong) simp_all
  have ok: "start_record_ok (records @ [r]) (if si_id s = si_id start
      then set_state ck (AcceptedState resolved (si_proposedTurnRecordId start) leaseId) None s else s)"
    if s: "s \<in> set starts" for s
  proof (cases "si_id s = si_id start")
    case True
    with only s have "s = start" by blast
    then show ?thesis using row(1) by (simp add: start_record_ok_def)
  next
    case False
    then have "si_proposedTurnRecordId s \<noteq> si_proposedTurnRecordId start" using proposed s by blast
    moreover have "start_record_ok records s" using assms(1) s by (simp add: linked_def)
    ultimately show ?thesis using False r by (auto simp: start_record_ok_def split: start_state.splits)
  qed
  have "starts_valid starts'" unfolding starts'_def using valid(1) by (subst starts_valid_map) auto
  moreover have "\<forall>s \<in> set starts'. start_record_ok (records @ [r]) s"
    unfolding starts'_def set_map using ok by blast
  moreover have "\<forall>x \<in> set (records @ [r]). \<forall>i \<in> set_option (tr_turnStartRecordId x). i \<in> si_id ` set starts'"
    unfolding ids using assms(1,2) r(2) by (auto simp: linked_def)
  ultimately show "linked starts' (records @ [r])" using rv unfolding linked_def by blast
qed

lemma commit_acceptance:
  fixes db :: engine_db and ck :: clock and ids :: "nat \<Rightarrow> string"
  assumes "db_linked db" "accepts db start resolved receipt leaseId w"
    and "commit_mapped_runs (ck_text ck) (pi_id (ed_process db)) (w_mappedRunWrites w) (ed_mapped db) = Inr mapped"
  defines "r \<equiv> new_turn_row ck (ids 0) (accepted_record (ed_records db) start resolved receipt leaseId)"
  obtains db' where "commitWrites ck ids db w = Inr db'" "db_linked db'" "keeps_accepted (ed_starts db) (ed_starts db')"
    "accepted_start ck start resolved leaseId \<in> set (ed_starts db')" "ed_records db' = ed_records db @ [r]"
    "ed_leases db' = ed_leases db"
    "ed_process db' = commit_process (ed_process db) w"
proof -
  have st: "start \<in> set (ed_starts db)" "si_state start = StartingState resolved"
    using assms(2) by (simp_all add: accepts_def)
  have lk: "linked (ed_starts db) (ed_records db)" using assms(1) by (simp add: db_linked_def)
  have r: "row_identity r = (si_proposedTurnRecordId start, si_turnId start, si_instanceId start, Some (si_id start), Some leaseId)"
      "rec_turnType r = si_turnType start"
    by (simp_all add: r_def accepted_row_identity accepted_row_simps)
  note acc = linked_accept [OF lk st r]
  let ?starts' = "map (\<lambda>s. if si_id s = si_id start
      then set_state ck (AcceptedState resolved (si_proposedTurnRecordId start) leaseId) None s else s) (ed_starts db)"
  have valid: "starts_valid (ed_starts db)" using lk by (simp add: linked_def)
  have cas: "commit_starts ck (w_turnStartWrites w) (ed_starts db) = Inr ?starts'"
    using valid
  proof (cases rule: compareAndSetState_cases [where i = "si_id start" and k = KindStarting and ck = ck and retry = None
        and st = "AcceptedState resolved (si_proposedTurnRecordId start) leaseId"])
    case refused
    with st show ?thesis by (metis kind_of_state.simps(2))
  next
    case (exchanged current)
    then show ?thesis using assms(2) by (simp add: accepts_def)
  qed
  have rec: "commit_records ck ids (w_turnRecordWrites w) (ed_records db) = Inr ([r], ed_records db @ [r])"
    using assms(2) acc(1) by (simp add: accepts_def createRecord_def set_records_def Let_def r_def)
  define db' where "db' = db\<lparr>ed_mapped := mapped, ed_starts := ?starts', ed_records := ed_records db @ [r],
     ed_process := commit_process (ed_process db) w,
     ed_events := fold append_event (w_events w @ map (lifecycle_event (pi_id (ed_process db))) [r]) (ed_events db)\<rparr>"
  have "commitWrites ck ids db w = Inr db'"
    using assms(3) cas rec by (simp add: commitWrites_def Let_def db'_def)
  moreover have "db_linked db'" using acc(2) by (simp add: db_linked_def db'_def)
  moreover have "keeps_accepted (ed_starts db) (ed_starts db')"
    "accepted_start ck start resolved leaseId \<in> set (ed_starts db')"
    using acc(3,4) by (simp_all add: db'_def)
  ultimately show thesis by (rule that) (simp_all add: db'_def)
qed

lemma only_record_of_start:
  "records_valid rows \<Longrightarrow> r \<in> set rows \<Longrightarrow> tr_turnStartRecordId r = Some i \<Longrightarrow>
   filter (\<lambda>r. tr_turnStartRecordId r = Some i) rows = [r]"
  unfolding records_valid_def
proof (induction rows)
  case (Cons a rows)
  have mem: "i \<in> set (List.map_filter tr_turnStartRecordId rows) \<longleftrightarrow> (\<exists>b \<in> set rows. tr_turnStartRecordId b = Some i)"
    by (force simp: List.map_filter_def)
  show ?case
  proof (cases "tr_turnStartRecordId a = Some i")
    case True
    with Cons.prems(1) mem have none: "\<forall>b \<in> set rows. tr_turnStartRecordId b \<noteq> Some i" by (auto simp: map_filter_simps)
    with Cons.prems(2,3) have "r = a" by auto
    moreover have "filter (\<lambda>r. tr_turnStartRecordId r = Some i) rows = []" using none by (simp add: filter_empty_conv)
    ultimately show ?thesis using True by simp
  next
    case False
    with Cons show ?thesis by (auto simp: map_filter_simps split: option.splits)
  qed
qed simp

text \<open>What an accepted start has.\<close>

lemma accepted_record_exists:
  assumes "db_linked db" "s \<in> set (ed_starts db)" "si_state s = AcceptedState x t l"
  obtains r where "filter (\<lambda>r. tr_turnStartRecordId r = Some (si_id s)) (ed_records db) = [r]" "rec_id r = t"
    "t = si_proposedTurnRecordId s" "tr_acceptedWorkerLeaseId r = Some l" "rec_turnId r = si_turnId s"
    "tr_instanceId r = si_instanceId s"
proof -
  have "start_record_ok (ed_records db) s" using assms(1,2) by (simp add: db_linked_def linked_def)
  then obtain r where r: "r \<in> set (ed_records db)" "rec_id r = t" "t = si_proposedTurnRecordId s"
      "tr_turnStartRecordId r = Some (si_id s)" "tr_acceptedWorkerLeaseId r = Some l" "rec_turnId r = si_turnId s"
      "tr_instanceId r = si_instanceId s"
    using assms(3) by (auto simp: start_record_ok_def row_identity_def)
  have "records_valid (ed_records db)" using assms(1) by (simp add: db_linked_def linked_def)
  from only_record_of_start [OF this r(1,4)] r show thesis by (intro that)
qed

text \<open>The two ways in which an acceptance is granted.\<close>

lemma accept_granted:
  assumes "AcceptWorkerTurnStart graphs db inp = Inr (Inr d)"
  obtains (replayed) start receipt x where "matching_start db inp = Some start" "matching_receipt db inp start = Some receipt"
      "si_state start = AcceptedState x (ai_proposedTurnRecordId inp) (ai_workerLeaseId inp)"
      "d = \<lparr>dc_writes = createWrites no_writes, dc_data = ai_proposedTurnRecordId inp, dc_metadata = None\<rparr>"
  | (accepted) start receipt resolved view where "matching_start db inp = Some start" "matching_receipt db inp start = Some receipt"
      "si_state start = StartingState resolved"
      "getProcessTurnGraph graphs (pi_processId (ed_process db)) (si_turnId start) = Inr view"
      "map_option tv_turnType view = Some (si_turnType start)"
      "receipt_problem graphs (pi_processId (ed_process db)) start resolved receipt = None"
      "d = \<lparr>dc_writes = createWrites (accepting_writes (ed_process db) (ed_records db) start resolved receipt (ai_workerLeaseId inp)),
        dc_data = si_proposedTurnRecordId start, dc_metadata = None\<rparr>"
proof -
  note guards = AcceptWorkerTurnStart_def accept_def reject_def noWrites_def
  from assms obtain start receipt where m: "matching_start db inp = Some start" "matching_receipt db inp start = Some receipt"
    by (auto simp: guards split: if_splits option.splits)
  show thesis
  proof (cases "si_state start")
    case (AcceptedState x t l)
    with assms m show thesis by (intro replayed [of start receipt x]) (auto simp: guards split: if_splits)
  next
    case (StartingState resolved)
    with assms m have "accept_starting graphs db start resolved receipt (ai_workerLeaseId inp) = Inr (Inr d)"
      by (auto simp: guards split: if_splits)
    then obtain view where v: "getProcessTurnGraph graphs (pi_processId (ed_process db)) (si_turnId start) = Inr view"
        "map_option tv_turnType view = Some (si_turnType start)"
        "receipt_problem graphs (pi_processId (ed_process db)) start resolved receipt = None"
        "d = \<lparr>dc_writes = createWrites (accepting_writes (ed_process db) (ed_records db) start resolved receipt (ai_workerLeaseId inp)),
          dc_data = si_proposedTurnRecordId start, dc_metadata = None\<rparr>"
      unfolding accept_starting_def accept_def reject_def throws_bind_Inr by (auto split: if_split_asm option.split_asm)
    show thesis by (rule accepted [OF m StartingState v])
  qed (use assms m in \<open>auto simp: guards split: if_splits\<close>)
qed

lemma accept_guards:
  assumes "AcceptWorkerTurnStart graphs db inp = Inr (Inr d)"
  shows "pi_lifecycleStatus (ed_process db) = ActiveProcess" "pi_currentExecution (ed_process db) = Some (ai_startRecordId inp)"
  using assms by (auto simp: AcceptWorkerTurnStart_def reject_def split: if_splits)

lemma matching_start_iff:
  assumes "starts_valid (ed_starts db)"
  shows "matching_start db inp = Some start \<longleftrightarrow> start \<in> set (ed_starts db) \<and> si_id start = ai_startRecordId inp \<and>
    si_instanceId start = pi_id (ed_process db) \<and> si_proposedTurnRecordId start = ai_proposedTurnRecordId inp \<and>
    pi_selectedTurnId (ed_process db) = Some (si_turnId start)"
proof -
  have "matching_start db inp = Some start \<longleftrightarrow> getStartById (ed_starts db) (ai_startRecordId inp) = Some start \<and>
      si_instanceId start = pi_id (ed_process db) \<and> si_proposedTurnRecordId start = ai_proposedTurnRecordId inp \<and>
      pi_selectedTurnId (ed_process db) = Some (si_turnId start)"
    by (cases "getStartById (ed_starts db) (ai_startRecordId inp)") (auto simp: matching_start_def)
  then show ?thesis by (simp add: getStartById_iff [OF assms])
qed

lemma matching_receipt_cong:
  "ed_leases db' = ed_leases db \<Longrightarrow> pi_id (ed_process db') = pi_id (ed_process db) \<Longrightarrow> si_id start' = si_id start \<Longrightarrow>
   matching_receipt db' inp start' = matching_receipt db inp start"
  by (simp add: matching_receipt_def cong: option.case_cong if_cong)

lemma createWrites_simps [simp]:
  "w_turnStartWrites (createWrites w) = w_turnStartWrites w" "w_turnRecordWrites (createWrites w) = w_turnRecordWrites w"
  "w_mappedRunWrites (createWrites w) = w_mappedRunWrites w" "w_processPatch (createWrites w) = w_processPatch w"
  "w_changedFields (createWrites w) = w_changedFields w" "w_events (createWrites w) = w_events w"
  "w_workerIntent (createWrites w) = w_workerIntent w"
  by (simp_all add: createWrites_def)

lemma no_writes_simps [simp]:
  "w_turnStartWrites no_writes = []" "w_turnRecordWrites no_writes = []" "w_mappedRunWrites no_writes = []"
  "w_processPatch no_writes = []" "w_changedFields no_writes = []" "w_events no_writes = []" "w_workerIntent no_writes = None"
  by (simp_all add: no_writes_def)

lemma accepting_writes_simps:
  "w_mappedRunWrites (accepting_writes p records start resolved receipt leaseId) = []"
  "start \<in> set (ed_starts db) \<Longrightarrow> si_state start = StartingState resolved \<Longrightarrow>
   accepts db start resolved receipt leaseId (createWrites (accepting_writes p (ed_records db) start resolved receipt leaseId))"
  "f \<noteq> FMetadata \<Longrightarrow> patched (createWrites (accepting_writes p records start resolved receipt leaseId)) p f = pi_fields p f"
  by (simp_all add: accepting_writes_def accepts_def Let_def patched_def)

lemma commit_no_writes: "commitWrites ck ids db (createWrites no_writes) = Inr db"
  by (simp add: commitWrites_def)

text \<open>
  C11. An accepted start runs once. In a store whose starts and records belong together, a granted
  acceptance always commits and keeps them together; then the start is accepted with the proposed record
  and the reporting lease, exactly one record exists for it, which has the proposed id and the turn of the
  process, and no other accepted start is touched. Asking again with the same identity returns the same
  record and writes nothing, and no other identity is accepted for this start.
\<close>

theorem accepted_start_runs_once:
  assumes "db_linked db" "AcceptWorkerTurnStart graphs db inp = Inr (Inr d)"
  shows "\<exists>db' s x r. commitWrites ck ids db (dc_writes d) = Inr db' \<and> db_linked db' \<and>
    keeps_accepted (ed_starts db) (ed_starts db') \<and>
    getStartById (ed_starts db') (ai_startRecordId inp) = Some s \<and>
    si_state s = AcceptedState x (ai_proposedTurnRecordId inp) (ai_workerLeaseId inp) \<and>
    filter (\<lambda>r. tr_turnStartRecordId r = Some (ai_startRecordId inp)) (ed_records db') = [r] \<and>
    rec_id r = ai_proposedTurnRecordId inp \<and> tr_acceptedWorkerLeaseId r = Some (ai_workerLeaseId inp) \<and>
    pi_selectedTurnId (ed_process db') = Some (rec_turnId r) \<and> dc_data d = rec_id r \<and>
    AcceptWorkerTurnStart graphs db' inp = noWrites (rec_id r) \<and>
    (\<forall>inp2 d2. ai_startRecordId inp2 = ai_startRecordId inp \<longrightarrow>
       AcceptWorkerTurnStart graphs db' inp2 = Inr (Inr d2) \<longrightarrow> inp2 = inp)"
proof -
  have valid: "starts_valid (ed_starts db)" using assms(1) by (simp add: db_linked_def linked_def)
  note guards = accept_guards [OF assms(2)]
  obtain db' s x start receipt where c: "commitWrites ck ids db (dc_writes d) = Inr db'" "db_linked db'"
      "keeps_accepted (ed_starts db) (ed_starts db')" "s \<in> set (ed_starts db')"
      "si_state s = AcceptedState x (ai_proposedTurnRecordId inp) (ai_workerLeaseId inp)"
      "matching_start db inp = Some start" "matching_receipt db inp start = Some receipt"
      "si_id s = si_id start" "si_instanceId s = si_instanceId start" "si_turnId s = si_turnId start"
      "si_proposedTurnRecordId s = si_proposedTurnRecordId start" "dc_data d = ai_proposedTurnRecordId inp"
      "ed_leases db' = ed_leases db" "pi_id (ed_process db') = pi_id (ed_process db)"
      "\<And>f. f \<noteq> FMetadata \<Longrightarrow> pi_fields (ed_process db') f = pi_fields (ed_process db) f"
    using assms(2)
  proof (cases rule: accept_granted)
    case (replayed start receipt x)
    then show ?thesis using assms(1) matching_start_iff [OF valid]
      by (intro that [of db start x start receipt]) (auto simp: commit_no_writes)
  next
    case (accepted start receipt resolved view)
    then have m: "start \<in> set (ed_starts db)" "si_proposedTurnRecordId start = ai_proposedTurnRecordId inp"
      using matching_start_iff [OF valid] by auto
    let ?w = "createWrites (accepting_writes (ed_process db) (ed_records db) start resolved receipt (ai_workerLeaseId inp))"
    have "commit_mapped_runs (ck_text ck) (pi_id (ed_process db)) (w_mappedRunWrites ?w) (ed_mapped db) = Inr (ed_mapped db)"
      by (simp add: accepting_writes_simps)
    then obtain db' where "commitWrites ck ids db ?w = Inr db'" "db_linked db'" "keeps_accepted (ed_starts db) (ed_starts db')"
        "accepted_start ck start resolved (ai_workerLeaseId inp) \<in> set (ed_starts db')" "ed_leases db' = ed_leases db"
        "ed_process db' = commit_process (ed_process db) ?w"
      using commit_acceptance [OF assms(1) accepting_writes_simps(2) [OF m(1) accepted(3)], where ck = ck and ids = ids]
      by metis
    with accepted m show ?thesis
      by (intro that [of db' "accepted_start ck start resolved (ai_workerLeaseId inp)" resolved start receipt])
        (auto simp: accepted_start_def accepting_writes_simps)
  qed
  have valid': "starts_valid (ed_starts db')" using c(2) by (simp add: db_linked_def linked_def)
  have same: "pi_selectedTurnId (ed_process db') = pi_selectedTurnId (ed_process db)"
    "pi_lifecycleStatus (ed_process db') = ActiveProcess" "pi_currentExecution (ed_process db') = Some (ai_startRecordId inp)"
    using c(15) guards by (simp_all add: pi_defs)
  have ms: "matching_start db' inp = Some s"
    using c(4,6,8-11,14) same matching_start_iff [OF valid] matching_start_iff [OF valid'] by simp
  have mr: "matching_receipt db' inp s = Some receipt" using c(7,8,13,14) matching_receipt_cong by metis
  have again: "AcceptWorkerTurnStart graphs db' inp = noWrites (ai_proposedTurnRecordId inp)"
    using same ms mr c(5) by (simp add: AcceptWorkerTurnStart_def)
  obtain r where r: "filter (\<lambda>r. tr_turnStartRecordId r = Some (si_id s)) (ed_records db') = [r]"
      "rec_id r = ai_proposedTurnRecordId inp" "tr_acceptedWorkerLeaseId r = Some (ai_workerLeaseId inp)" "rec_turnId r = si_turnId s"
    using accepted_record_exists [OF c(2,4,5)] by metis
  have s: "si_id s = ai_startRecordId inp" "pi_selectedTurnId (ed_process db') = Some (si_turnId s)"
    using ms matching_start_iff [OF valid'] by auto
  have other: "inp2 = inp" if "ai_startRecordId inp2 = ai_startRecordId inp"
      "AcceptWorkerTurnStart graphs db' inp2 = Inr (Inr d2)" for inp2 d2
  proof -
    from that(2) obtain s2 receipt2 where 2: "matching_start db' inp2 = Some s2" "matching_receipt db' inp2 s2 = Some receipt2"
      by (auto elim: accept_granted)
    have "ai_proposedTurnRecordId inp2 = ai_proposedTurnRecordId inp"
      using 2(1) ms that(1) by (auto simp: matching_start_def split: option.splits if_splits)
    moreover have "ai_workerLeaseId inp2 = ai_workerLeaseId inp"
      using 2(2) mr by (auto simp: matching_receipt_def split: option.splits if_splits)
    ultimately show ?thesis using that(1) by simp
  qed
  show ?thesis
    using c(1-5,12) r s again other getStartById_iff [OF valid'] by (intro exI [of _ db'] exI [of _ s] exI [of _ x] exI [of _ r]) auto
qed

definition sample_clock :: clock where
  "sample_clock = \<lparr>ck_text = ''now'', ck_instant = 1000\<rparr>"

definition sample_start :: start_row where
  "sample_start = new_start_row sample_clock (sample_accepted\<lparr>si_state := StartingState (ResolvedLlm sample_llm)\<rparr>)"

definition sample_receipt :: bootstrap_receipt where
  "sample_receipt = \<lparr>br_startRecordId = ''s1'', br_workerLeaseId = ''l1'', br_receiptEpoch = ''e'', br_readyAt = ''now'',
     br_kind = LlmReceipt \<lparr>lr_verifiedResourceSnapshotDigest = ''sha'', lr_credentialRevision = None,
       lr_loadedResourceIds = [], lr_providerId = ''prov'', lr_modelId = ''m'',
       lr_preparedStart = Some \<lparr>ps_pathType = PrimaryPath, ps_contextMode = FullContext,
         ps_startTarget = TargetCurrentLeaf, ps_forkPiEntryId = None\<rparr>\<rparr>\<rparr>"

definition sample_lease :: lease_row where
  "sample_lease = \<lparr>wl_id = ''l1'', wl_instanceId = ''p1'', wl_workerId = ''w1'', wl_turnStartRecordId = Some ''s1'',
     wl_state = LeaseIdle, wl_serverEpoch = None, wl_connectTokenHash = None, wl_snapshotTokenHash = None,
     wl_modelPolicyFingerprint = None, wl_bootstrapReceipt = Some sample_receipt, wl_lastHeartbeatAt = None,
     wl_startedAt = ''now'', wl_connectedAt = None, wl_workspacePreparationStartedAt = None, wl_readyAt = None,
     wl_exitedAt = None\<rparr>"

definition sample_db :: engine_db where
  "sample_db = \<lparr>ed_process = sample_process\<lparr>pi_fields := (pi_fields sample_process)
       (FSelectedTurnId := VStr ''draft'', FLifecycleStatus := VLifecycle ActiveProcess,
        FCurrentExecution := VExecution ''s1'')\<rparr>,
     ed_mapped = \<lparr>md_runs = [], md_items = []\<rparr>, ed_starts = [sample_start], ed_records = [],
     ed_leases = [sample_lease], ed_events = []\<rparr>"

definition sample_acceptance :: accept_input where
  "sample_acceptance = \<lparr>ai_workerLeaseId = ''l1'', ai_startRecordId = ''s1'', ai_proposedTurnRecordId = ''r1''\<rparr>"

lemma sample_db_linked: "db_linked sample_db"
  by code_simp

theorem accepted_start_runs_once_witness:
  "\<exists>d db' r. AcceptWorkerTurnStart sample_registry sample_db sample_acceptance = Inr (Inr d) \<and>
     commitWrites sample_clock (\<lambda>_. []) sample_db (dc_writes d) = Inr db' \<and>
     filter (\<lambda>r. tr_turnStartRecordId r = Some ''s1'') (ed_records db') = [r] \<and> rec_id r = ''r1'' \<and>
     AcceptWorkerTurnStart sample_registry db' sample_acceptance = noWrites ''r1''"
proof -
  have "case AcceptWorkerTurnStart sample_registry sample_db sample_acceptance of Inr (Inr _) \<Rightarrow> True | _ \<Rightarrow> False"
    by code_simp
  then obtain d where d: "AcceptWorkerTurnStart sample_registry sample_db sample_acceptance = Inr (Inr d)"
    by (auto split: sum.splits)
  have "ai_startRecordId sample_acceptance = ''s1''" "ai_proposedTurnRecordId sample_acceptance = ''r1''"
    by (simp_all add: sample_acceptance_def)
  with accepted_start_runs_once [OF sample_db_linked d, of sample_clock "\<lambda>_. []"] d show ?thesis by metis
qed


section \<open>Failed starts and their replacement\<close>

lemma commit_cas:
  assumes "db_linked db" "s \<in> set (ed_starts db)" "kind_of_state (si_state s) = k"
    and "w_turnStartWrites w = [CasStartState (si_id s) k st retry]" "w_turnRecordWrites w = []" "w_mappedRunWrites w = []"
  obtains db' where "commitWrites ck ids db w = Inr db'"
    "ed_starts db' = map (\<lambda>r. if si_id r = si_id s then set_state ck st retry r else r) (ed_starts db)"
    "ed_records db' = ed_records db" "ed_leases db' = ed_leases db"
    "ed_process db' = commit_process (ed_process db) w"
proof -
  have valid: "starts_valid (ed_starts db)" using assms(1) by (simp add: db_linked_def linked_def)
  have cas: "commit_starts ck (w_turnStartWrites w) (ed_starts db) =
      Inr (map (\<lambda>r. if si_id r = si_id s then set_state ck st retry r else r) (ed_starts db))"
    using valid
  proof (cases rule: compareAndSetState_cases [where i = "si_id s" and k = k and ck = ck and retry = retry and st = st])
    case refused
    with assms(2,3) show ?thesis by blast
  qed (simp add: assms(4))
  show thesis
    by (rule that [where db' = "db\<lparr>ed_mapped := ed_mapped db,
        ed_starts := map (\<lambda>r. if si_id r = si_id s then set_state ck st retry r else r) (ed_starts db),
        ed_records := ed_records db,
        ed_process := commit_process (ed_process db) w,
        ed_events := fold append_event (w_events w) (ed_events db)\<rparr>"])
      (use cas in \<open>simp_all add: commitWrites_def assms(5,6)\<close>)
qed

lemma cas_row:
  assumes "starts_valid starts" "s \<in> set starts"
    "starts' = map (\<lambda>r. if si_id r = si_id s then set_state ck st retry r else r) starts"
  shows "getStartById starts' (si_id s) = Some (set_state ck st retry s)" "starts_valid starts'"
    "\<And>r. r \<in> set starts \<Longrightarrow> si_id r \<noteq> si_id s \<Longrightarrow> r \<in> set starts'"
    "si_id ` set starts' = si_id ` set starts"
    "si_proposedTurnRecordId ` set starts' = si_proposedTurnRecordId ` set starts"
proof -
  show valid': "starts_valid starts'" unfolding assms(3) using assms(1) by (subst starts_valid_map) auto
  have "set_state ck st retry s \<in> set starts'" using assms(2) by (force simp: assms(3))
  then show "getStartById starts' (si_id s) = Some (set_state ck st retry s)"
    by (simp add: getStartById_iff [OF valid'])
  show "\<And>r. r \<in> set starts \<Longrightarrow> si_id r \<noteq> si_id s \<Longrightarrow> r \<in> set starts'" by (force simp: assms(3))
  show "si_id ` set starts' = si_id ` set starts"
    unfolding assms(3) set_map image_image by (rule image_cong) simp_all
  show "si_proposedTurnRecordId ` set starts' = si_proposedTurnRecordId ` set starts"
    unfolding assms(3) set_map image_image by (rule image_cong) simp_all
qed

lemma unaccepting_cas:
  assumes "db_linked db" "unaccepting w" "commitWrites ck ids db w = Inr db'"
    "\<And>si. CreateStart si \<notin> set (w_turnStartWrites w)"
  shows "db_linked db'" "keeps_accepted (ed_starts db) (ed_starts db')"
  using commit_unaccepting [OF assms(1,2) _ assms(3)] assms(4) by (auto simp: fresh_ids_def)

text \<open>The ids generated for a replacement are new.\<close>

definition new_ids :: "engine_db \<Rightarrow> string \<Rightarrow> string \<Rightarrow> bool" where
  "new_ids db startId recordId \<longleftrightarrow> startId \<notin> si_id ` set (ed_starts db) \<and>
     recordId \<notin> si_proposedTurnRecordId ` set (ed_starts db) \<and> recordId \<notin> rec_id ` set (ed_records db)"

definition replaced_start :: "clock \<Rightarrow> string \<Rightarrow> string \<Rightarrow> start_row \<Rightarrow> start_state \<Rightarrow> startup_retry option \<Rightarrow> start_row" where
  "replaced_start ck startId recordId failed st retry = new_start_row ck (replacement_start startId recordId failed st retry)"

lemma js_same_execution [simp]: "\<not> js_same a (VExecution i)"
  by (cases a) simp_all

lemma patched_events [plan_simps]: "patched (w\<lparr>w_events := es\<rparr>) p g = patched w p g"
  by (simp add: patched_def)

lemma replacement_writes_parts:
  "w_turnStartWrites (replacement_writes startId recordId p failed st inp) =
     [CreateStart (replacement_start startId recordId failed st (ri_automaticRetry inp))]"
  "w_turnRecordWrites (replacement_writes startId recordId p failed st inp) = []"
  "w_mappedRunWrites (replacement_writes startId recordId p failed st inp) = []"
  "pi_currentExecution (committed p (replacement_writes startId recordId p failed st inp)) = Some startId"
  "pi_lifecycleStatus (committed p (replacement_writes startId recordId p failed st inp)) =
     (if kind_of_state st = KindStarting then ActiveProcess else ErrorProcess)"
  "g \<notin> {FCurrentExecution, FLifecycleStatus} \<Longrightarrow>
     patched (replacement_writes startId recordId p failed st inp) p g = pi_fields p g"
  "w_changedFields (replacement_writes startId recordId p failed st inp) \<noteq> []"
  "w_workerIntent (replacement_writes startId recordId p failed st inp) =
     (if kind_of_state st = KindStarting then Some RestartWorker else None)"
proof -
  define w0 where "w0 = createWrites (no_writes\<lparr>w_workerIntent := (if kind_of_state st = KindStarting then Some RestartWorker else None)\<rparr>)"
  define w1 where "w1 = w0\<lparr>w_turnStartWrites := w_turnStartWrites w0
      @ [CreateStart (replacement_start startId recordId failed st (ri_automaticRetry inp))]\<rparr>"
  have w1: "w_turnStartWrites w1 = [CreateStart (replacement_start startId recordId failed st (ri_automaticRetry inp))]"
    "w_turnRecordWrites w1 = []" "w_mappedRunWrites w1 = []" "patched w1 p g = pi_fields p g" "w_changedFields w1 = []"
    "w_workerIntent w1 = (if kind_of_state st = KindStarting then Some RestartWorker else None)" for g
    by (simp_all add: w1_def w0_def createWrites_def no_writes_def patched_def)
  note d = replacement_writes_def Let_def stampActorOnEvents_def w0_def [symmetric] w1_def [symmetric]
  show "w_turnStartWrites (replacement_writes startId recordId p failed st inp) =
     [CreateStart (replacement_start startId recordId failed st (ri_automaticRetry inp))]"
    "w_turnRecordWrites (replacement_writes startId recordId p failed st inp) = []"
    "w_mappedRunWrites (replacement_writes startId recordId p failed st inp) = []"
    "w_workerIntent (replacement_writes startId recordId p failed st inp) =
     (if kind_of_state st = KindStarting then Some RestartWorker else None)"
    "w_changedFields (replacement_writes startId recordId p failed st inp) \<noteq> []"
    by (simp_all add: d plan_simps w1 applyProcessPatchField_def set_field_def jsset_add_def)
  have *: "patched (replacement_writes startId recordId p failed st inp) p g =
      (if g = FCurrentExecution then VExecution startId
       else if g = FLifecycleStatus then VLifecycle (if kind_of_state st = KindStarting then ActiveProcess else ErrorProcess)
       else pi_fields p g)" for g
    unfolding d by (simp add: plan_simps w1) (auto dest: js_same_eq)
  show "g \<notin> {FCurrentExecution, FLifecycleStatus} \<Longrightarrow>
     patched (replacement_writes startId recordId p failed st inp) p g = pi_fields p g" by (simp add: *)
  show "pi_currentExecution (committed p (replacement_writes startId recordId p failed st inp)) = Some startId"
    "pi_lifecycleStatus (committed p (replacement_writes startId recordId p failed st inp)) =
     (if kind_of_state st = KindStarting then ActiveProcess else ErrorProcess)"
    by (simp_all add: pi_defs *)
qed


lemma commit_replacement:
  assumes "db_linked db" "failed \<in> set (ed_starts db)" "\<not> accepted_state st" "new_ids db startId recordId"
    and "w_turnStartWrites w = [CreateStart (replacement_start startId recordId failed st retry)]"
      "w_turnRecordWrites w = []" "w_mappedRunWrites w = []"
  obtains db' where "commitWrites ck ids db w = Inr db'" "db_linked db'"
    "ed_starts db' = ed_starts db @ [replaced_start ck startId recordId failed st retry]"
    "getStartById (ed_starts db') startId = Some (replaced_start ck startId recordId failed st retry)"
    "ed_records db' = ed_records db" "ed_leases db' = ed_leases db"
    "ed_process db' = commit_process (ed_process db) w"
proof -
  have valid: "starts_valid (ed_starts db)" using assms(1) by (simp add: db_linked_def linked_def)
  let ?starts' = "ed_starts db @ [replaced_start ck startId recordId failed st retry]"
  have valid': "starts_valid ?starts'"
    using valid assms(2,4) by (auto simp: starts_valid_def replaced_start_def replacement_start_def new_ids_def list_all_iff)
  define db' where "db' = db\<lparr>ed_mapped := ed_mapped db, ed_starts := ?starts', ed_records := ed_records db,
        ed_process := commit_process (ed_process db) w,
        ed_events := fold append_event (w_events w) (ed_events db)\<rparr>"
  have c: "commitWrites ck ids db w = Inr db'"
    using valid' by (simp add: commitWrites_def assms(5-7) createStart_def Let_def replaced_start_def db'_def)
  moreover have "unaccepting w" using assms(3) by (simp add: unaccepting_def assms(5,6) replacement_start_def)
  moreover have "fresh_ids db w" using assms(4) by (auto simp: fresh_ids_def assms(5) replacement_start_def new_ids_def)
  ultimately have "db_linked db'" using commit_unaccepting [OF assms(1)] by blast
  moreover have "getStartById ?starts' startId = Some (replaced_start ck startId recordId failed st retry)"
    by (subst getStartById_iff [OF valid']) (simp add: replaced_start_def replacement_start_def)
  ultimately show thesis using c by (intro that [of db']) (simp_all add: db'_def)
qed

lemma replaced_start_simps [simp]:
  "si_id (replaced_start ck startId recordId failed st retry) = startId"
  "si_turnId (replaced_start ck startId recordId failed st retry) = si_turnId failed"
  "si_turnType (replaced_start ck startId recordId failed st retry) = si_turnType failed"
  "si_state (replaced_start ck startId recordId failed st retry) = st"
  "si_automaticRetry (replaced_start ck startId recordId failed st retry) = retry"
  "start_input.truncate (replaced_start ck startId recordId failed st retry) =
     replacement_start startId recordId failed st retry"
  by (simp_all add: replaced_start_def replacement_start_def)

lemma replacement_state_unaccepted: "replacement_state st = Some st' \<Longrightarrow> \<not> accepted_state st'"
  by (auto simp: replacement_state_def split: start_state.splits resolved_start.splits)

text \<open>The failure of a worker that bootstraps for the current start, and what it leaves.\<close>

lemma bootstrap_failure:
  assumes "db_linked db" "s \<in> set (ed_starts db)" "si_state s = StartingState resolved"
    and "pi_currentExecution (ed_process db) = Some (si_id s)" "pi_lifecycleStatus (ed_process db) = ActiveProcess"
    and "\<not> late_failure db (Some s) inp"
  defines "st \<equiv> BootstrapFailedState resolved (map_option wl_id (reported_lease db inp)) (wp_errorCode inp) (wp_message inp)"
  shows "\<exists>w db'. WorkerFailure graphs ck db inp = accept w () None \<and> w_workerIntent w = Some (failed_intent inp) \<and>
    commitWrites ck ids db (createWrites w) = Inr db' \<and> db_linked db' \<and> keeps_accepted (ed_starts db) (ed_starts db') \<and>
    set_state ck st None s \<in> set (ed_starts db') \<and> getStartById (ed_starts db') (si_id s) = Some (set_state ck st None s) \<and>
    si_id ` set (ed_starts db') = si_id ` set (ed_starts db) \<and>
    si_proposedTurnRecordId ` set (ed_starts db') = si_proposedTurnRecordId ` set (ed_starts db) \<and>
    ed_records db' = ed_records db \<and> ed_leases db' = ed_leases db \<and>
    pi_lifecycleStatus (ed_process db') = ErrorProcess \<and> pi_currentExecution (ed_process db') = Some (si_id s)"
proof -
  have valid: "starts_valid (ed_starts db)" using assms(1) by (simp add: db_linked_def linked_def)
  have get: "getStartById (ed_starts db) (si_id s) = Some s" using assms(2) by (simp add: getStartById_iff [OF valid])
  let ?w = "bootstrap_failed_writes db s resolved inp"
  have "WorkerFailure graphs ck db inp = accept ?w () None"
    using assms(3-6) get by (simp add: WorkerFailure_def Let_def)
  moreover have ws: "w_turnStartWrites (createWrites ?w) = [CasStartState (si_id s) KindStarting st None]"
    "w_turnRecordWrites (createWrites ?w) = []" "w_mappedRunWrites (createWrites ?w) = []"
    "w_changedFields (createWrites ?w) = [FLifecycleStatus]" "w_workerIntent ?w = Some (failed_intent inp)"
    "patched (createWrites ?w) (ed_process db) f = (if f = FLifecycleStatus then VLifecycle ErrorProcess else pi_fields (ed_process db) f)" for f
    by (simp_all add: bootstrap_failed_writes_def no_writes_def st_def patched_def)
  moreover have k: "kind_of_state (si_state s) = KindStarting" using assms(3) by simp
  obtain db' where c: "commitWrites ck ids db (createWrites ?w) = Inr db'"
      "ed_starts db' = map (\<lambda>r. if si_id r = si_id s then set_state ck st None r else r) (ed_starts db)"
      "ed_records db' = ed_records db" "ed_leases db' = ed_leases db"
      "ed_process db' = committed (ed_process db) (createWrites ?w)"
    by (rule commit_cas [OF assms(1,2) k ws(1-3), where ck = ck and ids = ids]) (rule that, assumption+, use ws(4) in simp)
  note row = cas_row [OF valid assms(2) c(2)]
  have "unaccepting (createWrites ?w)" using ws by (simp add: unaccepting_def st_def)
  with unaccepting_cas [OF assms(1) _ c(1)] ws have "db_linked db'" "keeps_accepted (ed_starts db) (ed_starts db')" by auto
  moreover have "set_state ck st None s \<in> set (ed_starts db')" using row(1,2) by (simp add: getStartById_iff)
  moreover have "pi_lifecycleStatus (ed_process db') = ErrorProcess" "pi_currentExecution (ed_process db') = Some (si_id s)"
    using assms(4) by (simp_all add: c(5) pi_defs ws(6))
  ultimately show ?thesis using c row by blast
qed

text \<open>
  C12. A failed bootstrap can always be replaced. When the worker that bootstraps for the current start
  fails, the start keeps the code and the message of the failure, the process is in error, the worker is
  stopped for that reason, and no further report about the process writes anything. A retry is then granted and
  commits: the process owns a new start for the same turn and mapped item, which an automatic turn
  begins at once with a restarted worker, while an LLM turn waits for its model to be chosen again with the
  options it had; the failed start stays as it was recorded.
\<close>

theorem failed_bootstrap_can_be_replaced:
  assumes "db_linked db" "s \<in> set (ed_starts db)" "si_state s = StartingState resolved"
    and "pi_currentExecution (ed_process db) = Some (si_id s)" "pi_lifecycleStatus (ed_process db) = ActiveProcess"
    and "\<not> late_failure db (Some s) inp" "new_ids db startId recordId" "ri_startRecordId rin = si_id s"
  shows "\<exists>w db1 f w2 db2 new lease. WorkerFailure graphs ck db inp = accept w () None \<and>
    w_workerIntent w = Some (failed_intent inp) \<and> commitWrites ck ids db (createWrites w) = Inr db1 \<and>
    getStartById (ed_starts db1) (si_id s) = Some f \<and>
    si_state f = BootstrapFailedState resolved lease (wp_errorCode inp) (wp_message inp) \<and>
    pi_lifecycleStatus (ed_process db1) = ErrorProcess \<and>
    (\<forall>inp2. WorkerFailure graphs ck2 db1 inp2 = noWrites ()) \<and>
    RetryStartup startId recordId db1 rin = accept w2 startId (modelOverrideMetadata (ri_overrides rin)) \<and>
    commitWrites ck2 ids2 db1 (createWrites w2) = Inr db2 \<and> db_linked db2 \<and>
    keeps_accepted (ed_starts db) (ed_starts db2) \<and> getStartById (ed_starts db2) (si_id s) = Some f \<and>
    getStartById (ed_starts db2) startId = Some new \<and> pi_currentExecution (ed_process db2) = Some startId \<and>
    si_turnId new = si_turnId s \<and> si_turnType new = si_turnType s \<and> si_iteration new = si_iteration s \<and>
    (case resolved of
       ResolvedAutomatic \<Rightarrow> si_state new = StartingState ResolvedAutomatic \<and> w_workerIntent w2 = Some RestartWorker \<and>
         pi_lifecycleStatus (ed_process db2) = ActiveProcess
     | ResolvedLlm l \<Rightarrow> (\<exists>summary prov. si_state new = PreparationFailed (Some (rm_profileId (ls_model l)))
           (ls_providerOptions l) ''model_required'' summary prov None) \<and> pi_lifecycleStatus (ed_process db2) = ErrorProcess)"
proof -
  let ?st = "BootstrapFailedState resolved (map_option wl_id (reported_lease db inp)) (wp_errorCode inp) (wp_message inp)"
  let ?f = "set_state ck ?st None s"
  obtain w db1 where w: "WorkerFailure graphs ck db inp = accept w () None" "w_workerIntent w = Some (failed_intent inp)"
      "commitWrites ck ids db (createWrites w) = Inr db1"
    and 1: "db_linked db1" "keeps_accepted (ed_starts db) (ed_starts db1)" "?f \<in> set (ed_starts db1)"
      "getStartById (ed_starts db1) (si_id s) = Some ?f" "si_id ` set (ed_starts db1) = si_id ` set (ed_starts db)"
      "si_proposedTurnRecordId ` set (ed_starts db1) = si_proposedTurnRecordId ` set (ed_starts db)"
      "ed_records db1 = ed_records db" "pi_lifecycleStatus (ed_process db1) = ErrorProcess"
      "pi_currentExecution (ed_process db1) = Some (si_id s)"
    using bootstrap_failure [OF assms(1-6), of graphs ck ids] by blast
  have quiet: "WorkerFailure graphs ck2 db1 inp2 = noWrites ()" for inp2
    using 1(4,8,9) by (simp add: WorkerFailure_def Let_def running_turn_def)
  obtain st where st: "replacement_state ?st = Some st"
    by (cases resolved) (auto simp: replacement_state_def)
  let ?w2 = "replacement_writes startId recordId (ed_process db1) ?f st rin"
  have retry: "RetryStartup startId recordId db1 rin = accept ?w2 startId (modelOverrideMetadata (ri_overrides rin))"
    using 1(4,8,9) assms(8) st by (simp add: RetryStartup_def)
  have ids: "new_ids db1 startId recordId" using assms(7) by (simp add: new_ids_def 1)
  have ws: "w_turnStartWrites (createWrites ?w2) = [CreateStart (replacement_start startId recordId ?f st (ri_automaticRetry rin))]"
    "w_turnRecordWrites (createWrites ?w2) = []" "w_mappedRunWrites (createWrites ?w2) = []"
    "w_changedFields (createWrites ?w2) \<noteq> []"
    by (simp_all add: replacement_writes_parts)
  obtain db2 where 2: "commitWrites ck2 ids2 db1 (createWrites ?w2) = Inr db2" "db_linked db2"
      "ed_starts db2 = ed_starts db1 @ [replaced_start ck2 startId recordId ?f st (ri_automaticRetry rin)]"
      "getStartById (ed_starts db2) startId = Some (replaced_start ck2 startId recordId ?f st (ri_automaticRetry rin))"
      "ed_process db2 = committed (ed_process db1) (createWrites ?w2)"
    by (rule commit_replacement [OF 1(1,3) replacement_state_unaccepted [OF st] ids ws(1-3), where ck = ck2 and ids = ids2])
      (rule that, assumption+, use ws(4) in simp)
  have valid2: "starts_valid (ed_starts db2)" using 2(2) by (simp add: db_linked_def linked_def)
  have "getStartById (ed_starts db2) (si_id s) = Some ?f"
    by (subst getStartById_iff [OF valid2]) (simp add: 1(3) 2(3))
  moreover have "keeps_accepted (ed_starts db) (ed_starts db2)" using 1(2) by (auto simp: keeps_accepted_def 2(3))
  moreover have patch: "patched (createWrites ?w2) (ed_process db1) g = patched ?w2 (ed_process db1) g" for g
    by (simp add: patched_def)
  then have "pi_currentExecution (ed_process db2) = Some startId"
    "pi_lifecycleStatus (ed_process db2) = (if kind_of_state st = KindStarting then ActiveProcess else ErrorProcess)"
    using replacement_writes_parts(4) [of "ed_process db1" startId recordId ?f st rin]
      replacement_writes_parts(5) [of "ed_process db1" startId recordId ?f st rin] by (simp_all add: 2(5) pi_defs)
  moreover have "si_iteration (replaced_start ck2 startId recordId ?f st (ri_automaticRetry rin)) = si_iteration s"
    by (simp add: replaced_start_def new_start_row_def replacement_start_def start_input.defs start_row.defs set_state_def)
  ultimately show ?thesis
    using w 1(4,8) quiet retry 2 st
    by (intro exI [of _ w] exI [of _ db1] exI [of _ ?f] exI [of _ ?w2] exI [of _ db2]
        exI [of _ "replaced_start ck2 startId recordId ?f st (ri_automaticRetry rin)"]
        exI [of _ "map_option wl_id (reported_lease db inp)"])
      (auto simp: replacement_state_def replacement_writes_parts split: resolved_start.split)
qed

definition sample_report :: worker_failure_payload where
  "sample_report = \<lparr>wp_errorCode = ''process_exited'', wp_message = ''worker exited'', wp_errorClass = None,
     wp_workerLeaseId = Some ''l1'', wp_resultPiEntryId = None, wp_recoveryContext = None\<rparr>"

theorem failed_bootstrap_can_be_replaced_witness:
  "\<exists>w db1 w2 db2 new. WorkerFailure sample_registry sample_clock sample_db sample_report = accept w () None \<and>
     commitWrites sample_clock (\<lambda>_. []) sample_db (createWrites w) = Inr db1 \<and>
     RetryStartup ''s2'' ''r2'' db1 \<lparr>ri_startRecordId = ''s1'', ri_overrides = no_model_overrides, ri_actor = None,
       ri_automaticRetry = None\<rparr> = accept w2 ''s2'' None \<and>
     commitWrites sample_clock (\<lambda>_. []) db1 (createWrites w2) = Inr db2 \<and>
     getStartById (ed_starts db2) ''s2'' = Some new \<and> pi_currentExecution (ed_process db2) = Some ''s2'' \<and>
     si_turnId new = ''draft''"
proof -
  have s: "sample_start \<in> set (ed_starts sample_db)" "si_state sample_start = StartingState (ResolvedLlm sample_llm)"
    "si_id sample_start = ''s1''" "si_turnId sample_start = ''draft''"
    by (simp_all add: sample_db_def sample_start_def sample_accepted_def)
  have p: "pi_currentExecution (ed_process sample_db) = Some (si_id sample_start)"
    "pi_lifecycleStatus (ed_process sample_db) = ActiveProcess" "\<not> late_failure sample_db (Some sample_start) sample_report"
    "new_ids sample_db ''s2'' ''r2''"
    by code_simp+
  have m: "modelOverrideMetadata no_model_overrides = None" by (simp add: modelOverrideMetadata_def no_model_overrides_def)
  let ?rin = "\<lparr>ri_startRecordId = ''s1'', ri_overrides = no_model_overrides, ri_actor = None, ri_automaticRetry = None\<rparr>"
  have r: "ri_startRecordId ?rin = si_id sample_start" "ri_overrides ?rin = no_model_overrides" by (simp_all add: s)
  show ?thesis
    using failed_bootstrap_can_be_replaced [OF sample_db_linked s(1,2) p r(1), of sample_registry sample_clock "\<lambda>_. []"
        sample_clock "\<lambda>_. []"]
    unfolding s r m by (elim exE conjE) (intro exI conjI, assumption+)
qed


section \<open>Automatic recovery\<close>

text \<open>The counters of a start: the stored ones, or those its history gives.\<close>

definition counters_of :: "engine_db \<Rightarrow> start_row \<Rightarrow> startup_retry" where
  "counters_of db s = (case si_automaticRetry s of
     Some r \<Rightarrow> r
   | None \<Rightarrow> startupRetryState s (listStartsByInstance (ed_starts db) (pi_id (ed_process db)))
       (listByInstanceEventTypes (ed_events db) (pi_id (ed_process db)) ''startup_retry_scheduled''))"

lemma recovery_ready:
  assumes "rs_status (automaticStartupRecovery s r now restored) = RecoveryReady"
  obtains code bootstrap where "start_failure (si_state s) = Some (code, bootstrap)" "rt_starts r < MAX_STARTUP_STARTS"
    "code \<in> {''model_unavailable'', ''model_stale''} \<and> restored \<or>
     bootstrap \<and> code \<in> set TRANSIENT_CODES \<and>
       (\<exists>t. sr_updatedAt s = Some t \<and> coalesce (rt_nextRetryAt r) (t + retry_delay (rt_starts r)) \<le> now)"
  using assms that
  by (auto simp: automaticStartupRecovery_def summary_of_def Let_def not_le split: option.splits if_splits prod.splits)

lemma replacement_state_iff: "(\<exists>st'. replacement_state st = Some st') \<longleftrightarrow> start_failure st \<noteq> None"
  by (auto simp: replacement_state_def start_failure_def split: start_state.splits resolved_start.splits)

lemma automatic_restart:
  assumes "AutomaticRetryStartup startId recordId now available db inp = Inr (Inr d)"
    and "CreateStart si \<in> set (w_turnStartWrites (dc_writes d))"
  obtains s code bootstrap where "getStartById (ed_starts db) (ar_startRecordId inp) = Some s"
    "start_failure (si_state s) = Some (code, bootstrap)" "si_id si = startId"
    "si_automaticRetry si = Some ((counters_of db s)\<lparr>rt_starts := rt_starts (counters_of db s) + 1, rt_nextRetryAt := None\<rparr>)"
    "rs_status (automaticStartupRecovery s (counters_of db s) now (ar_availabilityCause inp \<and> \<not> bootstrap \<and> available)) = RecoveryReady"
proof -
  obtain s code bootstrap where s: "getStartById (ed_starts db) (ar_startRecordId inp) = Some s"
      "start_failure (si_state s) = Some (code, bootstrap)"
    and g: "pi_lifecycleStatus (ed_process db) = ErrorProcess" "pi_currentExecution (ed_process db) = Some (ar_startRecordId inp)"
    using assms(1) by (auto simp: AutomaticRetryStartup_def Let_def reject_def bind_eq_Some_conv split: if_splits option.splits)
  let ?r = "counters_of db s"
  let ?sum = "automaticStartupRecovery s ?r now (ar_availabilityCause inp \<and> \<not> bootstrap \<and> available)"
  have ready: "rs_status ?sum = RecoveryReady"
  proof (rule ccontr)
    assume "rs_status ?sum \<noteq> RecoveryReady"
    then have "w_turnStartWrites (dc_writes d) = [] \<or> (\<exists>i k st r. w_turnStartWrites (dc_writes d) = [CasStartState i k st r])"
      using assms(1) s g by (auto simp: AutomaticRetryStartup_def Let_def counters_of_def accept_def split: if_splits)
    with assms(2) show False by auto
  qed
  obtain st where st: "replacement_state (si_state s) = Some st" using s(2) replacement_state_iff by fastforce
  have "w_turnStartWrites (dc_writes d) = [CreateStart (replacement_start startId recordId s st
      (Some (?r\<lparr>rt_starts := rt_starts ?r + 1, rt_nextRetryAt := None\<rparr>)))]"
    using assms(1) s g ready st
    by (auto simp: AutomaticRetryStartup_def RetryStartup_def Let_def counters_of_def accept_def replacement_writes_parts)
  with assms(2) have "si = replacement_start startId recordId s st (Some (?r\<lparr>rt_starts := rt_starts ?r + 1, rt_nextRetryAt := None\<rparr>))"
    by simp
  then show thesis by (intro that [OF s _ _ ready]) (simp_all add: replacement_start_def)
qed

text \<open>
  A row of automatic replacements, each of the one before it. Between two of them the replacement is
  committed, fails and may have its deadline stored, which keeps its counters.
\<close>

inductive automatic_restarts :: "start_row \<Rightarrow> nat \<Rightarrow> start_row \<Rightarrow> bool" where
  none: "automatic_restarts s 0 s"
| restart: "automatic_restarts s n t \<Longrightarrow> getStartById (ed_starts db) (ar_startRecordId inp) = Some t' \<Longrightarrow>
    si_id t' = si_id t \<Longrightarrow> si_automaticRetry t = Some r \<Longrightarrow> si_automaticRetry t' = Some r' \<Longrightarrow> rt_starts r' = rt_starts r \<Longrightarrow>
    AutomaticRetryStartup startId recordId now available db inp = Inr (Inr d) \<Longrightarrow>
    CreateStart si \<in> set (w_turnStartWrites (dc_writes d)) \<Longrightarrow> automatic_restarts s (Suc n) (new_start_row ck si)"

lemma automatic_restarts_count:
  assumes "automatic_restarts s n t" "si_automaticRetry s = Some r"
  shows "\<exists>r'. si_automaticRetry t = Some r' \<and> rt_starts r' = rt_starts r + int n \<and>
    (n > 0 \<longrightarrow> rt_starts r' \<le> MAX_STARTUP_STARTS)"
  using assms
proof induction
  case (restart s n t db inp t' r1 r1' startId recordId now available d si ck)
  obtain r' where r': "si_automaticRetry t = Some r'" "rt_starts r' = rt_starts r + int n" using restart.IH restart.prems by blast
  show ?case
  proof (rule automatic_restart [OF restart.hyps(7,8)])
    fix u code bootstrap
    assume u: "getStartById (ed_starts db) (ar_startRecordId inp) = Some u" "si_automaticRetry si =
        Some ((counters_of db u)\<lparr>rt_starts := rt_starts (counters_of db u) + 1, rt_nextRetryAt := None\<rparr>)"
      and ready: "rs_status (automaticStartupRecovery u (counters_of db u) now (ar_availabilityCause inp \<and> \<not> bootstrap \<and> available)) = RecoveryReady"
    have "counters_of db u = r1'" using u(1) restart.hyps by (simp add: counters_of_def)
    then have "rt_starts (counters_of db u) = rt_starts r + int n" using restart.hyps r' by simp
    moreover have "rt_starts (counters_of db u) < MAX_STARTUP_STARTS" using ready by (rule recovery_ready)
    ultimately show ?thesis using u(2) by simp
  qed
qed simp


definition sample_counters :: startup_retry where
  "sample_counters = \<lparr>rt_episodeStartRecordId = ''s1'', rt_starts = 1, rt_nextRetryAt = None\<rparr>"

definition sample_failed :: start_row where
  "sample_failed = set_state sample_clock (BootstrapFailedState (ResolvedLlm sample_llm) (Some ''l1'') ''process_exited'' ''exited'')
     (Some sample_counters) sample_start"

definition sample_failed_db :: engine_db where
  "sample_failed_db = sample_db\<lparr>ed_starts := [sample_failed],
     ed_process := (ed_process sample_db)\<lparr>pi_fields := (pi_fields (ed_process sample_db))(FLifecycleStatus := VLifecycle ErrorProcess)\<rparr>\<rparr>"

definition sample_recovery :: auto_retry_input where
  "sample_recovery = \<lparr>ar_startRecordId = ''s1'', ar_availabilityCause = False\<rparr>"



text \<open>The deadline of a first check.\<close>

definition first_deadline :: "startup_retry \<Rightarrow> int \<Rightarrow> int" where
  "first_deadline r failureAt = failureAt + 30000 * 2 ^ nat (rt_starts r - 1)"

lemma transient_summary:
  assumes "start_failure (si_state s) = Some (code, True)" "code \<in> set TRANSIENT_CODES"
    and "1 \<le> rt_starts r" "rt_starts r < MAX_STARTUP_STARTS" "sr_updatedAt s = Some t"
  shows "automaticStartupRecovery s r now restored =
    (let due = coalesce (rt_nextRetryAt r) (first_deadline r t) in
     summary_of r (if due > now then RecoveryWaiting else RecoveryReady)
       ''A transient worker startup failure is eligible for automatic recovery.'' (Some due))"
proof -
  have "code \<noteq> ''model_unavailable''" "code \<noteq> ''model_stale''" using assms(2) by (auto simp: TRANSIENT_CODES_def)
  then show ?thesis using assms
    by (simp add: automaticStartupRecovery_def Let_def first_deadline_def retry_delay_def not_le)
qed

lemma automatic_check:
  assumes "pi_lifecycleStatus (ed_process db) = ErrorProcess" "pi_currentExecution (ed_process db) = Some (ar_startRecordId inp)"
    and "getStartById (ed_starts db) (ar_startRecordId inp) = Some s" "si_automaticRetry s = Some r"
    and "start_failure (si_state s) = Some (code, True)" "code \<in> set TRANSIENT_CODES"
    and "1 \<le> rt_starts r" "rt_starts r < MAX_STARTUP_STARTS" "sr_updatedAt s = Some t"
  defines "due \<equiv> coalesce (rt_nextRetryAt r) (first_deadline r t)"
  shows "now < due \<Longrightarrow> rt_nextRetryAt r = Some due \<Longrightarrow>
      \<exists>sm. AutomaticRetryStartup startId recordId now available db inp = accept no_writes sm None \<and>
        rs_status sm = RecoveryWaiting \<and> rs_nextRetryAt sm = Some due"
    and "now < due \<Longrightarrow> rt_nextRetryAt r = None \<Longrightarrow>
      \<exists>sm. AutomaticRetryStartup startId recordId now available db inp = accept (no_writes
          \<lparr>w_turnStartWrites := [CasStartState (si_id s) (kind_of_state (si_state s)) (si_state s)
             (Some (r\<lparr>rt_nextRetryAt := Some due\<rparr>))],
           w_processPatch := [(FCurrentExecution, pi_fields (ed_process db) FCurrentExecution)],
           w_changedFields := [FCurrentExecution]\<rparr>) sm None \<and>
        rs_status sm = RecoveryWaiting \<and> rs_nextRetryAt sm = Some due"
    and "now \<ge> due \<Longrightarrow> \<exists>w sm st. AutomaticRetryStartup startId recordId now available db inp = accept w sm None \<and>
        rs_status sm = RecoveryRetried \<and> rs_starts sm = rt_starts r + 1 \<and>
        w_turnStartWrites w = [CreateStart (replacement_start startId recordId s st
          (Some (r\<lparr>rt_starts := rt_starts r + 1, rt_nextRetryAt := None\<rparr>)))]"
proof -
  note sum = transient_summary [OF assms(5-9), folded due_def, unfolded Let_def due_def [symmetric]]
  note eval = AutomaticRetryStartup_def Let_def assms(1-5) bind_eq_Some_conv sum summary_of_def
  show "\<exists>sm. AutomaticRetryStartup startId recordId now available db inp = accept no_writes sm None \<and>
        rs_status sm = RecoveryWaiting \<and> rs_nextRetryAt sm = Some due" if "now < due" "rt_nextRetryAt r = Some due"
    using that by (simp add: eval) (intro exI conjI, rule refl, simp_all)
  show "\<exists>sm. AutomaticRetryStartup startId recordId now available db inp = accept (no_writes
          \<lparr>w_turnStartWrites := [CasStartState (si_id s) (kind_of_state (si_state s)) (si_state s)
             (Some (r\<lparr>rt_nextRetryAt := Some due\<rparr>))],
           w_processPatch := [(FCurrentExecution, pi_fields (ed_process db) FCurrentExecution)],
           w_changedFields := [FCurrentExecution]\<rparr>) sm None \<and>
        rs_status sm = RecoveryWaiting \<and> rs_nextRetryAt sm = Some due" if "now < due" "rt_nextRetryAt r = None"
    using that by (simp add: eval) (intro exI conjI, rule refl, simp_all)
  obtain st where st: "replacement_state (si_state s) = Some st" using assms(5) replacement_state_iff by fastforce
  show "\<exists>w sm st. AutomaticRetryStartup startId recordId now available db inp = accept w sm None \<and>
        rs_status sm = RecoveryRetried \<and> rs_starts sm = rt_starts r + 1 \<and>
        w_turnStartWrites w = [CreateStart (replacement_start startId recordId s st
          (Some (r\<lparr>rt_starts := rt_starts r + 1, rt_nextRetryAt := None\<rparr>)))]" if "now \<ge> due"
    using that st
    by (simp add: eval RetryStartup_def accept_def replacement_writes_parts modelOverrideMetadata_def no_model_overrides_def)
      (rule exI, rule conjI, rule refl, rule exI [of _ st], simp add: replacement_writes_parts)
qed



end
