(* ===== verification/Turn_Waits.thy ===== *)
theory Turn_Waits
  imports Turn_Starts
begin

text \<open>
  Turns that wait for a condition (\<^verbatim>\<open>packages/server/src/process-engine/ops/turn-wait.ts\<close> and
  \<^verbatim>\<open>packages/server/src/turn-wait-service.ts\<close>). The start of such a turn is held in the metadata of the process. A
  service checks the condition outside of the engine, and its result is committed only if what it was
  computed from is still current: the start is released, the process ends, or the wait goes on.

  The readiness callback, its time limit and the codec of the parameters are arguments of the operations. The texts of the
  parameters and of the projects are compared by the values they denote.
\<close>

section \<open>The held start\<close>

text \<open>The start as it is read back; values outside of the declared types do not occur.\<close>

definition jstr :: "json option \<Rightarrow> string" where
  "jstr j = (case j of Some (JStr s) \<Rightarrow> s | _ \<Rightarrow> [])"

definition jopt :: "json option \<Rightarrow> string option" where
  "jopt j = (case j of Some (JStr s) \<Rightarrow> Some s | _ \<Rightarrow> None)"

definition jnum :: "json option \<Rightarrow> int" where
  "jnum j = (case j of Some (JNum n) \<Rightarrow> n | _ \<Rightarrow> 0)"

definition jobj :: "json option \<Rightarrow> json_object" where
  "jobj j = (case j of Some (JObj m) \<Rightarrow> m | _ \<Rightarrow> [])"

definition options_of_json :: "json option \<Rightarrow> (string \<times> string) list" where
  "options_of_json j = map (\<lambda>(k, v). (k, jstr (Some v))) (jobj j)"

definition provenance_of :: "json_object \<Rightarrow> provenance option" where
  "provenance_of m = Option.bind (map_of m ''modelSelectionProvenance'') provenance_of_json"

definition LLM_START_KEYS :: "string list" where
  "LLM_START_KEYS = [''kind'', ''model'', ''modelSelectionProvenance'', ''providerOptions'', ''piResourceSnapshotDigest'']"

definition resolved_of_json :: "json option \<Rightarrow> resolved_start" where
  "resolved_of_json j =
     (let m = jobj j; model = jobj (map_of m ''model'') in
      if map_of m ''kind'' = Some (JStr ''automatic'') then ResolvedAutomatic
      else ResolvedLlm
        \<lparr>ls_model = \<lparr>rm_profileId = jstr (map_of model ''profileId''), rm_providerId = jstr (map_of model ''providerId''),
           rm_modelId = jstr (map_of model ''modelId''), rm_thinkingLevel = jstr (map_of model ''thinkingLevel'')\<rparr>,
         ls_modelSelectionProvenance = provenance_of m,
         ls_providerOptions = options_of_json (map_of m ''providerOptions''),
         ls_piResourceSnapshotDigest = jstr (map_of m ''piResourceSnapshotDigest''),
         ls_rest = filter (\<lambda>(k, _). k \<notin> set LLM_START_KEYS) m\<rparr>)"

definition state_of_json :: "json_object \<Rightarrow> start_state" where
  "state_of_json m =
     (let kind = jstr (map_of m ''kind''); start = map_of m ''start'' in
      if kind = ''starting'' then StartingState (resolved_of_json start)
      else if kind = ''bootstrap_failed''
      then BootstrapFailedState (resolved_of_json start) (jopt (map_of m ''failedWorkerLeaseId''))
             (jstr (map_of m ''code'')) (jstr (map_of m ''safeSummary''))
      else if kind = ''accepted''
      then AcceptedState (resolved_of_json start) (jstr (map_of m ''turnRecordId'')) (jstr (map_of m ''acceptedWorkerLeaseId''))
      else if kind = ''superseded''
      then SupersededState (if start = Some JNull then None else Some (resolved_of_json start))
      else PreparationFailed (jopt (map_of m ''requestedModelProfileId'')) (options_of_json (map_of m ''providerOptions''))
             (jstr (map_of m ''code'')) (jstr (map_of m ''safeSummary'')) (provenance_of m)
             (map_option (\<lambda>j. jnum (Some j)) (map_of m ''availabilityRevision'')))"

definition retry_of_json :: "json_object \<Rightarrow> startup_retry option" where
  "retry_of_json m = map_option (\<lambda>j. let r = jobj (Some j) in
     \<lparr>rt_episodeStartRecordId = jstr (map_of r ''episodeStartRecordId''), rt_starts = jnum (map_of r ''starts''),
      rt_nextRetryAt = (case map_of r ''nextRetryAt'' of Some (JNum t) \<Rightarrow> Some t | _ \<Rightarrow> None)\<rparr>) (map_of m ''automaticRetry'')"

definition start_kind_of_name :: "string \<Rightarrow> start_kind" where
  "start_kind_of_name s = coalesce (find (\<lambda>k. start_kind_name k = s) [RetryStart, ContinueStart, StartupRetryStart]) SelectedTurnStart"

definition start_of_json :: "json option \<Rightarrow> start_input" where
  "start_of_json j =
     (let m = jobj j; st = jobj (map_of m ''state'') in
      \<lparr>si_id = jstr (map_of m ''id''), si_instanceId = jstr (map_of m ''instanceId''), si_turnId = jstr (map_of m ''turnId''),
       si_turnType = coalesce (turn_type_of_name (jstr (map_of m ''turnType''))) LlmTurn,
       si_proposedTurnRecordId = jstr (map_of m ''proposedTurnRecordId''),
       si_startKind = start_kind_of_name (jstr (map_of m ''startKind'')),
       si_recoveryTurnRecordId = jopt (map_of m ''recoveryTurnRecordId''),
       si_continuation = (case map_of m ''continuation'' of
           Some (JObj c) \<Rightarrow> Some \<lparr>sc_continueFromPiEntryId = jstr (map_of c ''continueFromPiEntryId''),
             sc_continuePrompt = jstr (map_of c ''continuePrompt''),
             sc_savedPrimaryLeafEntryId = jopt (map_of c ''savedPrimaryLeafEntryId'')\<rparr>
         | _ \<Rightarrow> None),
       si_state = state_of_json st, si_iteration = iteration_of_json (map_of m ''iteration''),
       si_automaticRetry = retry_of_json st\<rparr>)"

section \<open>Operations\<close>

definition pi_paramsJson :: "process_instance \<Rightarrow> string option" where
  "pi_paramsJson p = as_string (pi_fields p FParamsJson)"

definition ArmTurnWait :: "string \<Rightarrow> string \<Rightarrow> graph_registry \<Rightarrow> process_instance \<Rightarrow> unit decide" where
  "ArmTurnWait startId recordId graphs p =
     throws_bind (pendingTurnWait (pi_metadata p)) (\<lambda>wait.
       if wait \<noteq> None \<or> pi_currentExecution p \<noteq> None \<or> \<not> truthy (pi_selectedTurnId p) \<or>
          pi_lifecycleStatus p \<noteq> ActiveProcess \<or> \<not> turnWaitPredicate graphs p
       then noWrites ()
       else throws_bind (buildTurnSelectionWrites startId recordId graphs p
           \<lparr>sel_fromTurnId = None, sel_toTurnId = pi_selectedTurnId p, sel_trigger = None, sel_lifecycleStatus = None,
            sel_workerIntent = None\<rparr>) (\<lambda>r.
         case r of Inl failure \<Rightarrow> Inr (Inl failure) | Inr w \<Rightarrow> accept w () None))"

datatype wait_result = WaitReady | WaitWaiting | WaitComplete | WaitAbort | WaitBind | WaitRetry | WaitError

record initial_binding =
  ib_params :: json
  ib_projects :: "json_object list"
  ib_metadata :: "json_object option"
  ib_settingsContext :: "json option"

record resolve_input =
  rw_waitId :: string
  rw_revision :: int
  rw_paramsJson :: "string option"
  rw_stateJson :: "string option"
  rw_projects :: "json_object list"
  rw_nextStateJson :: "string option"
  rw_initialBinding :: "initial_binding option"
  rw_result :: wait_result
  rw_message :: "string option"
  rw_now :: int
  rw_pollIntervalMs :: int

text \<open>What a check was computed from is still so.\<close>

definition check_current :: "json_object list \<Rightarrow> process_instance \<Rightarrow> resolve_input \<Rightarrow> json_object \<Rightarrow> bool" where
  "check_current projects p inp wait \<longleftrightarrow>
     map_of wait ''id'' = Some (JStr (rw_waitId inp)) \<and> map_of wait ''revision'' = Some (JNum (rw_revision inp)) \<and>
     map_option JStr (pi_selectedTurnId p) = map_of wait ''turnId'' \<and> pi_lifecycleStatus p = WaitingProcess \<and>
     pi_paramsJson p = rw_paramsJson inp \<and> pi_stateJson p = rw_stateJson inp \<and> projects = rw_projects inp"

text \<open>\<open>{ ...v, ...kvs }\<close>\<close>

definition set_keys :: "json_object \<Rightarrow> json_object \<Rightarrow> json_object" where
  "set_keys kvs v = fold (\<lambda>(k, x). jsmap_set k x) kvs v"

definition state_writes :: "process_instance \<Rightarrow> resolve_input \<Rightarrow> writes" where
  "state_writes p inp =
     (case rw_nextStateJson inp of
        Some s \<Rightarrow> if rw_result inp \<in> {WaitRetry, WaitError} then createWrites no_writes
                  else applyProcessPatchField (createWrites no_writes) p FStateJson (VStr s)
      | None \<Rightarrow> createWrites no_writes)"

definition bound_writes :: "process_instance \<Rightarrow> json_object \<Rightarrow> initial_binding \<Rightarrow> string \<Rightarrow> writes \<Rightarrow> writes" where
  "bound_writes p wait binding params w0 =
     (let w1 = applyProcessPatchField w0 p FParamsJson (VStr params);
          w2 = applyProcessPatchField w1 p FMetadata (VMeta (set_keys
             (case ib_settingsContext binding of
                Some c \<Rightarrow> if json_truthy c then [(''settingsContext'', c)] else [] | None \<Rightarrow> [])
             (set_keys (coalesce (ib_metadata binding) []) (coalesce (pi_metadata p) []))));
          w3 = w2\<lparr>w_initialProjects := Some (map (\<lambda>project. JObj (jsmap_set ''instanceId'' (JStr (pi_id p)) project))
             (ib_projects binding))\<rparr>;
          w4 = writeTurnWait w3 p (Some (set_keys
             [(''revision'', JNum (jnum (map_of wait ''revision'') + 1)), (''message'', JNull), (''failures'', JNum 0),
              (''nextCheckAt'', JNum 0)] wait)) in
      appendProcessEvent w4 p ''initial_repositories_bound'' ''info'' ''Startup repository bindings resolved''
        (Some [(''projectKeys'', JArr (map (\<lambda>project. coalesce (map_of project ''key'') JNull) (ib_projects binding)))]))"

definition BindInitialProjects ::
    "(string \<Rightarrow> json \<Rightarrow> string throws) \<Rightarrow> graph_registry \<Rightarrow> json_object list \<Rightarrow> engine_db \<Rightarrow> resolve_input \<Rightarrow> json_object
     \<Rightarrow> writes \<Rightarrow> unit decide" where
  "BindInitialProjects encode graphs projects db inp wait w0 =
     (let p = ed_process db; unavailable = reject ''startup_binding_unavailable''
          ''Initial bindings require a process without projects or execution history'' in
      case rw_initialBinding inp of
        None \<Rightarrow> unavailable
      | Some binding \<Rightarrow>
          if ib_projects binding = [] \<or> \<not> json_truthy (coalesce (map_of wait ''initialSelection'') JNull) \<or>
             pi_currentExecution p \<noteq> None \<or> projects \<noteq> [] \<or> listStartsByInstance (ed_starts db) (pi_id p) \<noteq> [] \<or>
             listRecordsByInstance (ed_records db) (pi_id p) \<noteq> []
          then unavailable
          else if \<exists>k \<in> fst ` set (coalesce (ib_metadata binding) []).
               k = wait_key \<or> k \<in> fst ` set (coalesce (pi_metadata p) [])
          then reject ''startup_binding_superseded'' ''Initial repository binding cannot replace retained metadata''
          else if map_of graphs (pi_processId p) = None
          then reject ''process_not_found'' ''Process definition is unavailable''
          else throws_bind (encode (pi_processId p) (ib_params binding)) (\<lambda>params.
            accept (bound_writes p wait binding params w0) () None))"

text \<open>The condition holds: the start is released, with the metadata of the decision that selected the turn.\<close>

definition released_writes :: "process_instance \<Rightarrow> json_object \<Rightarrow> writes \<Rightarrow> writes" where
  "released_writes p wait w0 =
     (let start = start_of_json (map_of wait ''start'');
          w1 = writeTurnWait w0 p None;
          w2 = w1\<lparr>w_waitForAdmission := jopt (map_of wait ''id''),
                  w_turnStartWrites := w_turnStartWrites w1 @ [CreateStart start]\<rparr>;
          w3 = applyProcessPatchField w2 p FCurrentExecution (VExecution (si_id start)) in
      (applyProcessPatchField w3 p FLifecycleStatus (VLifecycle ActiveProcess))\<lparr>w_workerIntent := Some Reconcile\<rparr>)"

text \<open>The condition ends the process.\<close>

definition ended_writes :: "process_instance \<Rightarrow> resolve_input \<Rightarrow> writes \<Rightarrow> writes" where
  "ended_writes p inp w0 =
     (let aborted = (rw_result inp = WaitAbort);
          w1 = writeTurnWait w0 p None;
          w2 = applyProcessPatchField w1 p FSelectedTurnId VNull;
          w3 = applyProcessPatchField w2 p FCurrentExecution VNull;
          w4 = applyProcessPatchField w3 p FLifecycleStatus (VLifecycle (if aborted then AbortedProcess else CompletedProcess)) in
      appendProcessEvent (w4\<lparr>w_workerIntent := Some Reconcile\<rparr>) p
        (if aborted then ''process_aborted'' else ''process_completed'') ''info''
        (coalesce (rw_message inp) ''Waiting condition completed the process'') None)"

text \<open>When the condition is checked again; failures back off.\<close>

definition next_check :: "resolve_input \<Rightarrow> int \<Rightarrow> int" where
  "next_check inp failures = rw_now inp +
     (if failures \<noteq> 0 then min 300000 (rw_pollIntervalMs inp * 2 ^ nat (min failures 8)) else rw_pollIntervalMs inp)"

definition rechecked_writes :: "process_instance \<Rightarrow> json_object \<Rightarrow> resolve_input \<Rightarrow> writes \<Rightarrow> writes" where
  "rechecked_writes p wait inp w0 =
     (let failures = (if rw_result inp = WaitRetry then jnum (map_of wait ''failures'') + 1 else 0);
          message = rw_message inp;
          same = (map_of wait ''message'' = Some (json_nullable message));
          w1 = writeTurnWait w0 p (Some (set_keys
             [(''revision'', JNum (jnum (map_of wait ''revision'') + 1)),
              (''status'', JStr (if rw_result inp = WaitError then ''error'' else ''waiting'')),
              (''failures'', JNum failures), (''message'', json_nullable message),
              (''nextCheckAt'', JNum (next_check inp failures))] wait));
          w2 = (if rw_result inp = WaitError then applyProcessPatchField w1 p FLifecycleStatus (VLifecycle ErrorProcess) else w1);
          w3 = (if same then w2 else appendProcessEvent w2 p
             (if truthy message then ''turn_wait_failed'' else ''turn_wait_recovered'') (if truthy message then ''warn'' else ''info'')
             (coalesce message ''Waiting condition recovered'')
             (Some [(''turnId'', coalesce (map_of wait ''turnId'') JNull), (''retryable'', JBool (rw_result inp = WaitRetry)),
                    (''safeSummary'', json_nullable message)])) in
      w3\<lparr>w_preserveUpdatedAt := (rw_result inp \<noteq> WaitError \<and> same \<and> list_all (\<lambda>f. f = FMetadata) (w_changedFields w3))\<rparr>)"

definition ResolveTurnWait ::
    "(string \<Rightarrow> json \<Rightarrow> string throws) \<Rightarrow> graph_registry \<Rightarrow> json_object list \<Rightarrow> engine_db \<Rightarrow> resolve_input \<Rightarrow> unit decide" where
  "ResolveTurnWait encode graphs projects db inp =
     (let p = ed_process db; superseded = reject ''turn_wait_superseded'' ''The waiting condition has changed'' in
      throws_bind (pendingTurnWait (pi_metadata p)) (\<lambda>pending.
        case pending of
          None \<Rightarrow> superseded
        | Some wait \<Rightarrow>
            if \<not> check_current projects p inp wait then superseded
            else let w0 = state_writes p inp in
              case rw_result inp of
                WaitBind \<Rightarrow> BindInitialProjects encode graphs projects db inp wait w0
              | WaitReady \<Rightarrow> accept (released_writes p wait w0) ()
                  (case map_of wait ''metadata'' of Some (JObj m) \<Rightarrow> Some m | _ \<Rightarrow> None)
              | WaitComplete \<Rightarrow> accept (ended_writes p inp w0) () None
              | WaitAbort \<Rightarrow> accept (ended_writes p inp w0) () None
              | _ \<Rightarrow> accept (rechecked_writes p wait inp w0) () None))"

definition RetryTurnWait :: "process_instance \<Rightarrow> model_overrides \<Rightarrow> actor option \<Rightarrow> unit decide" where
  "RetryTurnWait p overrides who =
     throws_bind (pendingTurnWait (pi_metadata p)) (\<lambda>pending.
       case pending of
         None \<Rightarrow> reject ''retry_target_missing'' ''No failed waiting condition is current''
       | Some wait \<Rightarrow>
           if map_of wait ''status'' \<noteq> Some (JStr ''error'') \<or> pi_lifecycleStatus p \<noteq> ErrorProcess
           then reject ''retry_target_missing'' ''No failed waiting condition is current''
           else
             let w1 = writeTurnWait (createWrites no_writes) p (Some (set_keys
                   [(''status'', JStr ''waiting''), (''revision'', JNum (jnum (map_of wait ''revision'') + 1)),
                    (''nextCheckAt'', JNum 0), (''failures'', JNum 0), (''message'', JNull),
                    (''metadata'', JObj (set_keys (coalesce (modelOverrideMetadata overrides) []) (jobj (map_of wait ''metadata''))))]
                   wait));
                 w2 = applyProcessPatchField w1 p FLifecycleStatus (VLifecycle WaitingProcess);
                 w3 = appendProcessEvent w2 p ''turn_wait_retry'' ''info'' ''Waiting condition retry requested''
                   (Some [(''turnId'', coalesce (map_of wait ''turnId'') JNull)]) in
             accept (fst (stampActorOnEvents w3 who ''turn_wait_retry'')) () None)"

section \<open>Which conditions are checked\<close>

datatype evaluation = NotChecked | ArmFirst | ChecksWait json_object

text \<open>The guards of \<open>evaluate\<close> in \<^verbatim>\<open>turn-wait-service.ts\<close>; after arming, the process is read again.\<close>

definition evaluation_of :: "graph_registry \<Rightarrow> process_instance \<Rightarrow> int \<Rightarrow> evaluation throws" where
  "evaluation_of graphs p now =
     (if \<not> turnWaitPredicate graphs p then Inr NotChecked
      else throws_bind (pendingTurnWait (pi_metadata p)) (\<lambda>pending. Inr (
        case pending of
          None \<Rightarrow> if pi_currentExecution p \<noteq> None \<or> pi_lifecycleStatus p \<noteq> ActiveProcess then NotChecked else ArmFirst
        | Some wait \<Rightarrow>
            if map_of wait ''status'' \<noteq> Some (JStr ''waiting'') \<or> pi_lifecycleStatus p \<noteq> WaitingProcess \<or>
               jnum (map_of wait ''nextCheckAt'') > now
            then NotChecked else ChecksWait wait)))"

section \<open>Reading back what was held\<close>

definition wf_resolved :: "resolved_start \<Rightarrow> bool" where
  "wf_resolved r \<longleftrightarrow> (case r of ResolvedLlm s \<Rightarrow> fst ` set (ls_rest s) \<inter> set LLM_START_KEYS = {} | ResolvedAutomatic \<Rightarrow> True)"

text \<open>The further fields of a resolved start do not repeat the named ones.\<close>

definition wf_start :: "start_input \<Rightarrow> bool" where
  "wf_start si \<longleftrightarrow> (case si_state si of
     StartingState r \<Rightarrow> wf_resolved r | BootstrapFailedState r _ _ _ \<Rightarrow> wf_resolved r
   | AcceptedState r _ _ \<Rightarrow> wf_resolved r | SupersededState (Some r) \<Rightarrow> wf_resolved r | _ \<Rightarrow> True)"

lemma json_readers [simp]:
  "jstr (Some (JStr s)) = s" "jopt (Some (json_nullable x)) = x" "jnum (Some (JNum n)) = n" "jobj (Some (JObj m)) = m"
  by (simp_all add: jstr_def jopt_def json_nullable_def jnum_def jobj_def split: option.split)

lemma options_of_json_inverse [simp]: "options_of_json (Some (string_map_json m)) = m"
  by (induction m) (auto simp: options_of_json_def string_map_json_def jobj_def)

lemma provenance_of_field:
  "map_of m ''modelSelectionProvenance'' = None \<Longrightarrow> provenance_of (provenance_field prov @ m) = prov"
  by (cases prov) (simp_all add: provenance_of_def provenance_field_def provenance_of_json_def asUnknownRecord_def json_get_def)

lemma resolved_of_json_inverse:
  assumes "wf_resolved r"
  shows "resolved_of_json (Some (resolved_json r)) = r"
proof (cases r)
  case (ResolvedLlm s)
  have none: "map_of (ls_rest s) k = None" if "k \<in> set LLM_START_KEYS" for k
    using assms that by (auto simp: wf_resolved_def ResolvedLlm map_of_eq_None_iff)
  have rest: "filter (\<lambda>(k, _). k \<notin> set LLM_START_KEYS) (ls_rest s) = ls_rest s"
    using assms by (force simp: wf_resolved_def ResolvedLlm filter_id_conv)
  show ?thesis
    by (cases "ls_modelSelectionProvenance s")
      (simp_all add: ResolvedLlm resolved_of_json_def Let_def rest [unfolded LLM_START_KEYS_def, simplified] provenance_field_def provenance_of_def none LLM_START_KEYS_def
        provenance_of_json_def asUnknownRecord_def json_get_def filter_empty_conv)
qed (simp add: resolved_of_json_def jobj_def)

lemma with_retry_obj: "with_retry retry (JObj m) = JObj (m @ (case retry of None \<Rightarrow> [] | Some r \<Rightarrow> [(''automaticRetry'',
     JObj [(''episodeStartRecordId'', JStr (rt_episodeStartRecordId r)), (''starts'', JNum (rt_starts r)),
           (''nextRetryAt'', case rt_nextRetryAt r of None \<Rightarrow> JNull | Some t \<Rightarrow> JNum t)])]))"
  by (cases retry) simp_all

lemma resolved_json_not_null [simp]: "resolved_json r \<noteq> JNull"
  by (cases r) simp_all

lemma provenance_append: "map_of (provenance_field prov @ m) k =
    (if k = ''modelSelectionProvenance'' \<and> prov \<noteq> None then map_of (provenance_field prov) k else map_of m k)"
  by (cases prov) (simp_all add: provenance_field_def)

lemma state_of_json_inverse:
  assumes "wf_start si"
  shows "state_of_json (jobj (Some (with_retry retry (state_json (si_state si))))) = si_state si \<and>
    retry_of_json (jobj (Some (with_retry retry (state_json (si_state si))))) = retry"
proof -
  have retry: "map_option (\<lambda>j. let r = jobj (Some j) in
     \<lparr>rt_episodeStartRecordId = jstr (map_of r ''episodeStartRecordId''), rt_starts = jnum (map_of r ''starts''),
      rt_nextRetryAt = (case map_of r ''nextRetryAt'' of Some (JNum t) \<Rightarrow> Some t | _ \<Rightarrow> None)\<rparr>)
     (map_of (case retry of None \<Rightarrow> [] | Some r \<Rightarrow> [(''automaticRetry'',
     JObj [(''episodeStartRecordId'', JStr (rt_episodeStartRecordId r)), (''starts'', JNum (rt_starts r)),
           (''nextRetryAt'', case rt_nextRetryAt r of None \<Rightarrow> JNull | Some t \<Rightarrow> JNum t)])]) ''automaticRetry'') = retry"
    by (cases retry; cases "rt_nextRetryAt (the retry)") auto
  have none: "map_of (case retry of None \<Rightarrow> [] | Some r \<Rightarrow> [(''automaticRetry'', x r)]) k = None"
    if "k \<noteq> ''automaticRetry''" for k and x :: "startup_retry \<Rightarrow> json"
    using that by (cases retry) auto
  show ?thesis
  proof (cases "si_state si")
    case (PreparationFailed model opts code summary prov revision)
    then show ?thesis
      by (cases prov; cases revision)
        (simp_all add: with_retry_obj state_of_json_def retry_of_json_def retry none provenance_of_def
          provenance_field_def provenance_of_json_def asUnknownRecord_def json_get_def)
  next
    case (SupersededState r)
    with assms show ?thesis
      by (cases r) (simp_all add: with_retry_obj state_of_json_def retry_of_json_def retry none resolved_of_json_inverse wf_start_def)
  qed (use assms in \<open>simp_all add: with_retry_obj state_of_json_def retry_of_json_def retry none resolved_of_json_inverse wf_start_def\<close>)
qed

lemma names_inverse [simp]:
  "start_kind_of_name (start_kind_name k) = k" "turn_type_of_name (turn_type_name t) = Some t"
  by (cases k; simp add: start_kind_of_name_def) (cases t; simp add: turn_type_of_name_def)

lemma held_start_reads_back:
  assumes "wf_start si"
  shows "start_of_json (Some (start_json si)) = si"
proof -
  have it: "iteration_of_json (map_of (case si_iteration si of None \<Rightarrow> []
        | Some m \<Rightarrow> [(''iteration'', JObj [(''runId'', JStr (mi_runId m)), (''itemKey'', JStr (mi_itemKey m)),
            (''itemIndex'', JNum (mi_itemIndex m))])]) ''iteration'') = si_iteration si"
    by (cases "si_iteration si") (simp_all add: iteration_of_json_def asUnknownRecord_def json_get_def)
  have cont: "(case (case si_continuation si of None \<Rightarrow> JNull
          | Some c \<Rightarrow> JObj [(''continueFromPiEntryId'', JStr (sc_continueFromPiEntryId c)),
              (''continuePrompt'', JStr (sc_continuePrompt c)),
              (''savedPrimaryLeafEntryId'', json_nullable (sc_savedPrimaryLeafEntryId c))]) of
           JObj c \<Rightarrow> Some \<lparr>sc_continueFromPiEntryId = jstr (map_of c ''continueFromPiEntryId''),
             sc_continuePrompt = jstr (map_of c ''continuePrompt''),
             sc_savedPrimaryLeafEntryId = jopt (map_of c ''savedPrimaryLeafEntryId'')\<rparr>
         | _ \<Rightarrow> None) = si_continuation si"
    by (cases "si_continuation si") simp_all
  show ?thesis
    using state_of_json_inverse [OF assms, of "si_automaticRetry si"]
    by (simp add: start_of_json_def start_json_def it cont)
qed

section \<open>What the operations leave\<close>

text \<open>The metadata after a wait is written, and the wait that is read from them.\<close>

definition wait_metadata :: "json_object \<Rightarrow> json_object option \<Rightarrow> json_object option" where
  "wait_metadata base x =
     (let next = (case x of Some v \<Rightarrow> jsmap_set wait_key (JObj v) base | None \<Rightarrow> clear_keys [wait_key] base) in
      if next \<noteq> [] then Some next else None)"

lemma pending_written [simp]:
  "valid_wait v \<Longrightarrow> pendingTurnWait (wait_metadata base (Some v)) = Inr (Some v)"
  "pendingTurnWait (wait_metadata base None) = Inr None"
proof -
  have "jsmap_set wait_key x base \<noteq> []" for x by (cases base) (auto split: if_splits)
  then show "valid_wait v \<Longrightarrow> pendingTurnWait (wait_metadata base (Some v)) = Inr (Some v)"
    by (simp add: wait_metadata_def pendingTurnWait_def json_get_def)
  show "pendingTurnWait (wait_metadata base None) = Inr None"
    by (simp add: wait_metadata_def pendingTurnWait_def json_get_def map_of_clear_keys Let_def)
qed

lemma pending_read:
  assumes "pendingTurnWait md = Inr (Some v)"
  shows "valid_wait v" "map_of (coalesce md []) wait_key = Some (JObj v)"
  using assms by (cases md; auto simp: pendingTurnWait_def json_get_def split: option.splits if_splits json.splits)+

lemma map_of_set_keys: "distinct (map fst kvs) \<Longrightarrow> map_of (set_keys kvs v) = map_of v ++ map_of kvs"
  unfolding set_keys_def by (rule map_of_fold_jsmap_set)

lemma patched_flags [plan_simps]:
  "patched (w\<lparr>w_waitForAdmission := a\<rparr>) p g = patched w p g" "patched (w\<lparr>w_initialProjects := b\<rparr>) p g = patched w p g"
  "patched (w\<lparr>w_preserveUpdatedAt := c\<rparr>) p g = patched w p g" "patched (createWrites w) p g = patched w p g"
  "patched (fst (stampActorOnEvents w who ty)) p g = patched w p g" "patched no_writes p g = pi_fields p g"
  by (simp_all add: patched_def createWrites_def stampActorOnEvents_def no_writes_def)

definition metadata_value :: "pvalue \<Rightarrow> json_object option" where
  "metadata_value v = (case v of VMeta m \<Rightarrow> Some m | _ \<Rightarrow> None)"

lemma pi_metadata_value: "pi_metadata p = metadata_value (pi_fields p FMetadata)"
  by (simp add: pi_metadata_def metadata_value_def)

text \<open>A wait is written over the patch of its plan; an equal value is only skipped when the plan patches nothing.\<close>

lemma metadata_written:
  assumes "wait_metadata (coalesce (metadata_value (patched w p FMetadata)) []) x = pi_metadata p \<Longrightarrow>
    patched w p FMetadata = pi_fields p FMetadata"
  shows "metadata_value (patched (writeTurnWait w p x) p FMetadata) =
    wait_metadata (coalesce (metadata_value (patched w p FMetadata)) []) x"
proof -
  let ?next = "wait_metadata (coalesce (metadata_value (patched w p FMetadata)) []) x"
  have "writeTurnWait w p x = applyMetadataPatch w p ?next"
    by (simp add: writeTurnWait_def wait_metadata_def Let_def pi_metadata_value with_patch_def patched_def)
  then have *: "writeTurnWait w p x = (if pi_metadata p = ?next then w else set_field FMetadata (nullable_meta ?next) w)"
    by (simp add: applyMetadataPatch_def)
  have inv: "metadata_value (nullable_meta m) = m" for m
    by (simp add: metadata_value_def nullable_meta_def split: option.split)
  show ?thesis
  proof (cases "pi_metadata p = ?next")
    case True
    with assms have "patched w p FMetadata = pi_fields p FMetadata" by simp
    with True * show ?thesis by (simp add: pi_metadata_value)
  next
    case False
    with * show ?thesis by (simp add: patched_set_field inv)
  qed
qed

lemma state_writes_patched [plan_simps]:
  "g \<noteq> FStateJson \<Longrightarrow> patched (state_writes p inp) p g = pi_fields p g"
  "w_turnStartWrites (state_writes p inp) = []"
proof -
  have "patched (createWrites no_writes) p h = pi_fields p h" for h by (simp add: patched_def createWrites_def no_writes_def)
  then show "g \<noteq> FStateJson \<Longrightarrow> patched (state_writes p inp) p g = pi_fields p g"
    by (simp add: state_writes_def plan_simps del: patched_flags split: option.split)
  show "w_turnStartWrites (state_writes p inp) = []"
    by (simp add: state_writes_def plan_simps createWrites_def no_writes_def split: option.split)
qed

lemma write_wait_parts [plan_simps]:
  "w_turnStartWrites (writeTurnWait w p x) = w_turnStartWrites w" "w_events (writeTurnWait w p x) = w_events w"
  by (simp_all add: writeTurnWait_def Let_def plan_simps)

text \<open>The wait that a check leaves.\<close>

definition bound_wait :: "json_object \<Rightarrow> json_object" where
  "bound_wait wait = set_keys [(''revision'', JNum (jnum (map_of wait ''revision'') + 1)), (''message'', JNull),
     (''failures'', JNum 0), (''nextCheckAt'', JNum 0)] wait"

definition rechecked_wait :: "json_object \<Rightarrow> resolve_input \<Rightarrow> json_object" where
  "rechecked_wait wait inp =
     (let failures = (if rw_result inp = WaitRetry then jnum (map_of wait ''failures'') + 1 else 0) in
      set_keys [(''revision'', JNum (jnum (map_of wait ''revision'') + 1)),
        (''status'', JStr (if rw_result inp = WaitError then ''error'' else ''waiting'')),
        (''failures'', JNum failures), (''message'', json_nullable (rw_message inp)),
        (''nextCheckAt'', JNum (next_check inp failures))] wait)"

definition retried_wait :: "json_object \<Rightarrow> model_overrides \<Rightarrow> json_object" where
  "retried_wait wait overrides = set_keys [(''status'', JStr ''waiting''), (''revision'', JNum (jnum (map_of wait ''revision'') + 1)),
     (''nextCheckAt'', JNum 0), (''failures'', JNum 0), (''message'', JNull),
     (''metadata'', JObj (set_keys (coalesce (modelOverrideMetadata overrides) []) (jobj (map_of wait ''metadata''))))] wait"

text \<open>A wait that follows another: the same held start, one revision later.\<close>

definition succeeds :: "json_object \<Rightarrow> json_object \<Rightarrow> bool" where
  "succeeds v v' \<longleftrightarrow> valid_wait v' \<and> map_of v' ''id'' = map_of v ''id'' \<and> map_of v' ''turnId'' = map_of v ''turnId'' \<and>
     map_of v' ''start'' = map_of v ''start'' \<and>
     map_of v' ''initialSelection'' = map_of v ''initialSelection'' \<and>
     map_of v' ''revision'' = Some (JNum (jnum (map_of v ''revision'') + 1))"

lemma succeeding_waits:
  assumes "valid_wait v"
  shows "succeeds v (bound_wait v)" "succeeds v (rechecked_wait v inp)" "succeeds v (retried_wait v overrides)"
  using assms
  by (auto simp: succeeds_def valid_wait_def bound_wait_def rechecked_wait_def retried_wait_def Let_def map_of_set_keys
      map_add_def is_json_number_def)

lemma wait_differs:
  assumes "pendingTurnWait (pi_metadata p) = Inr (Some v)" "succeeds v v'"
  shows "wait_metadata base (Some v') \<noteq> pi_metadata p"
proof
  assume eq: "wait_metadata base (Some v') = pi_metadata p"
  have rev: "jnum (map_of v' ''revision'') = jnum (map_of v ''revision'') + 1" using assms(2) by (simp add: succeeds_def)
  have "pendingTurnWait (wait_metadata base (Some v')) = Inr (Some v')" using assms(2) by (simp add: succeeds_def)
  then have "v' = v" unfolding eq assms(1) by simp
  with rev show False by simp
qed

lemma resolve_cases [consumes 1, case_names bound released ended rechecked]:
  assumes "ResolveTurnWait encode graphs projects db inp = Inr (Inr d)"
  obtains wait binding params where "pendingTurnWait (pi_metadata (ed_process db)) = Inr (Some wait)"
      "check_current projects (ed_process db) inp wait" "rw_result inp = WaitBind"
      "dc_writes d = createWrites (bound_writes (ed_process db) wait binding params (state_writes (ed_process db) inp))"
    | wait where "pendingTurnWait (pi_metadata (ed_process db)) = Inr (Some wait)"
      "check_current projects (ed_process db) inp wait" "rw_result inp = WaitReady"
      "dc_writes d = createWrites (released_writes (ed_process db) wait (state_writes (ed_process db) inp))"
    | wait where "pendingTurnWait (pi_metadata (ed_process db)) = Inr (Some wait)"
      "check_current projects (ed_process db) inp wait" "rw_result inp \<in> {WaitComplete, WaitAbort}"
      "dc_writes d = createWrites (ended_writes (ed_process db) inp (state_writes (ed_process db) inp))"
    | wait where "pendingTurnWait (pi_metadata (ed_process db)) = Inr (Some wait)"
      "check_current projects (ed_process db) inp wait" "rw_result inp \<in> {WaitWaiting, WaitRetry, WaitError}"
      "dc_writes d = createWrites (rechecked_writes (ed_process db) wait inp (state_writes (ed_process db) inp))"
proof -
  obtain wait where w: "pendingTurnWait (pi_metadata (ed_process db)) = Inr (Some wait)"
      "check_current projects (ed_process db) inp wait"
    using assms by (auto simp: ResolveTurnWait_def Let_def reject_def split: option.splits if_splits)
  show thesis
  proof (cases "rw_result inp")
    case WaitBind
    with assms w have "BindInitialProjects encode graphs projects db inp wait (state_writes (ed_process db) inp) = Inr (Inr d)"
      by (simp add: ResolveTurnWait_def Let_def)
    then obtain binding params where "d = \<lparr>dc_writes = createWrites (bound_writes (ed_process db) wait binding params
        (state_writes (ed_process db) inp)), dc_data = (), dc_metadata = None\<rparr>"
      by (auto simp: BindInitialProjects_def Let_def reject_def accept_def split: option.splits if_splits)
    then show thesis using that(1) [OF w WaitBind] by simp
  qed (use assms w that in \<open>auto simp: ResolveTurnWait_def Let_def accept_def\<close>)
qed

declare commit_process_def [simp del]

lemma commit_wf: "wf_plan w \<Longrightarrow> commit_process p w = committed p w"
  by (auto simp: wf_plan_def committed_def with_patch_def commit_process_def)

lemma wf_flags [simp]:
  "wf_plan (w\<lparr>w_waitForAdmission := a\<rparr>) = wf_plan w" "wf_plan (w\<lparr>w_initialProjects := b\<rparr>) = wf_plan w"
  "wf_plan (w\<lparr>w_preserveUpdatedAt := c\<rparr>) = wf_plan w" "wf_plan (createWrites w) = wf_plan w"
  "wf_plan (w\<lparr>w_turnStartWrites := d\<rparr>) = wf_plan w" "wf_plan (w\<lparr>w_workerIntent := e\<rparr>) = wf_plan w"
  "wf_plan no_writes"
  by (simp_all add: wf_plan_def createWrites_def no_writes_def)

lemmas typed_intros = typed.inv_patch_field typed.inv_event typed.inv_write_wait

lemma wf_check_plans:
  "wf_plan (state_writes p inp)"
  "wf_plan w \<Longrightarrow> wf_plan (bound_writes p wait binding params w)"
  "wf_plan w \<Longrightarrow> wf_plan (released_writes p wait w)"
  "wf_plan w \<Longrightarrow> wf_plan (ended_writes p inp w)"
  "wf_plan w \<Longrightarrow> wf_plan (rechecked_writes p wait inp w)"
  by (auto simp: state_writes_def bound_writes_def released_writes_def ended_writes_def rechecked_writes_def Let_def
      intro!: typed_intros split: option.split)

text \<open>What becomes of the wait when a check is committed.\<close>

datatype wait_outcome = GoesOn json_object lifecycle_status | Released start_input | Ended lifecycle_status

fun outcome_holds :: "process_instance \<Rightarrow> writes \<Rightarrow> process_instance \<Rightarrow> wait_outcome \<Rightarrow> bool" where
  "outcome_holds p w p' (GoesOn v status) \<longleftrightarrow> pendingTurnWait (pi_metadata p') = Inr (Some v) \<and> w_turnStartWrites w = [] \<and>
     pi_selectedTurnId p' = pi_selectedTurnId p \<and> pi_currentExecution p' = pi_currentExecution p \<and>
     pi_lifecycleStatus p' = status"
| "outcome_holds p w p' (Released si) \<longleftrightarrow> pendingTurnWait (pi_metadata p') = Inr None \<and> w_turnStartWrites w = [CreateStart si] \<and>
     pi_selectedTurnId p' = pi_selectedTurnId p \<and> pi_currentExecution p' = Some (si_id si) \<and>
     pi_lifecycleStatus p' = ActiveProcess \<and> w_workerIntent w = Some Reconcile"
| "outcome_holds p w p' (Ended status) \<longleftrightarrow> pendingTurnWait (pi_metadata p') = Inr None \<and> w_turnStartWrites w = [] \<and>
     pi_selectedTurnId p' = None \<and> pi_currentExecution p' = None \<and> pi_lifecycleStatus p' = status \<and>
     w_workerIntent w = Some Reconcile"

lemma bound_effect:
  fixes p :: process_instance and inp :: resolve_input and binding :: initial_binding and params :: string
  assumes "pendingTurnWait (pi_metadata p) = Inr (Some wait)" "pi_lifecycleStatus p = WaitingProcess"
  defines "w \<equiv> bound_writes p wait binding params (state_writes p inp)"
  shows "outcome_holds p w (committed p w) (GoesOn (bound_wait wait) WaitingProcess)"
proof -
  have suc: "succeeds wait (bound_wait wait)" using pending_read(1) [OF assms(1)] by (rule succeeding_waits)
  note d = wait_differs [OF assms(1) suc]
  have "w_turnStartWrites w = []" by (simp add: w_def bound_writes_def Let_def plan_simps)
  moreover have "pi_metadata (committed p w) = wait_metadata (coalesce (metadata_value (patched (applyProcessPatchField
       (applyProcessPatchField (state_writes p inp) p FParamsJson (VStr params)) p FMetadata (VMeta (set_keys
             (case ib_settingsContext binding of
                Some c \<Rightarrow> if json_truthy c then [(''settingsContext'', c)] else [] | None \<Rightarrow> [])
             (set_keys (coalesce (ib_metadata binding) []) (coalesce (pi_metadata p) []))))) p FMetadata)) []) (Some (bound_wait wait))"
    unfolding pi_metadata_value committed_simps w_def bound_writes_def Let_def patched_rows
    by (subst metadata_written) (use d in \<open>simp_all add: patched_flags bound_wait_def\<close>)
  moreover have "patched w p g = pi_fields p g" if "g \<in> {FSelectedTurnId, FLifecycleStatus, FCurrentExecution}" for g
    using that by (auto simp: w_def bound_writes_def Let_def plan_simps)
  ultimately show ?thesis using assms(2) suc by (simp add: pi_defs succeeds_def)
qed

lemma rechecked_effect:
  fixes p :: process_instance and inp :: resolve_input
  assumes "pendingTurnWait (pi_metadata p) = Inr (Some wait)" "pi_lifecycleStatus p = WaitingProcess"
  defines "w \<equiv> rechecked_writes p wait inp (state_writes p inp)"
  shows "outcome_holds p w (committed p w) (GoesOn (rechecked_wait wait inp)
    (if rw_result inp = WaitError then ErrorProcess else WaitingProcess))"
proof -
  have suc: "succeeds wait (rechecked_wait wait inp)" using pending_read(1) [OF assms(1)] by (rule succeeding_waits)
  note d = wait_differs [OF assms(1) suc]
  let ?w1 = "writeTurnWait (state_writes p inp) p (Some (rechecked_wait wait inp))"
  have w: "w_turnStartWrites w = []" "patched w p g = patched (if rw_result inp = WaitError
      then applyProcessPatchField ?w1 p FLifecycleStatus (VLifecycle ErrorProcess) else ?w1) p g" for g
    by (simp_all add: w_def rechecked_writes_def Let_def plan_simps rechecked_wait_def)
  have m: "metadata_value (patched w p FMetadata) = wait_metadata (coalesce (pi_metadata p) []) (Some (rechecked_wait wait inp))"
    unfolding w(2) using metadata_written [of "state_writes p inp" p "Some (rechecked_wait wait inp)"] d
    by (simp add: plan_simps pi_metadata_value)
  have o: "patched w p g = (if g = FLifecycleStatus \<and> rw_result inp = WaitError then VLifecycle ErrorProcess else pi_fields p g)"
    if "g \<in> {FSelectedTurnId, FLifecycleStatus, FCurrentExecution}" for g
    unfolding w(2) using that by (auto simp: plan_simps dest: js_same_eq)
  show ?thesis using assms(2) suc m o w(1) by (simp add: pi_metadata_value) (simp add: pi_defs succeeds_def)
qed

lemma released_effect:
  fixes p :: process_instance and inp :: resolve_input
  assumes "pendingTurnWait (pi_metadata p) = Inr (Some wait)"
  defines "w \<equiv> released_writes p wait (state_writes p inp)"
  shows "outcome_holds p w (committed p w) (Released (start_of_json (map_of wait ''start'')))"
    "w_waitForAdmission w = jopt (map_of wait ''id'')"
proof -
  let ?w1 = "writeTurnWait (state_writes p inp) p None"
  let ?si = "start_of_json (map_of wait ''start'')"
  have w: "w_turnStartWrites w = [CreateStart ?si]" "w_workerIntent w = Some Reconcile"
    "patched w p g = patched (applyProcessPatchField (applyProcessPatchField ?w1 p FCurrentExecution (VExecution (si_id ?si)))
       p FLifecycleStatus (VLifecycle ActiveProcess)) p g" for g
    by (simp_all add: w_def released_writes_def Let_def plan_simps)
  have m: "metadata_value (patched w p FMetadata) = wait_metadata (coalesce (pi_metadata p) []) None"
    unfolding w(3) using metadata_written [of "state_writes p inp" p None]
    by (simp add: plan_simps pi_metadata_value)
  have o: "patched w p FSelectedTurnId = pi_fields p FSelectedTurnId" "patched w p FCurrentExecution = VExecution (si_id ?si)"
    "patched w p FLifecycleStatus = VLifecycle ActiveProcess"
    unfolding w(3) by (auto simp: plan_simps dest: js_same_eq)
  show "outcome_holds p w (committed p w) (Released ?si)"
    using m o w(1,2) by (simp add: pi_metadata_value) (simp add: pi_defs)
  show "w_waitForAdmission w = jopt (map_of wait ''id'')"
    by (simp add: w_def released_writes_def Let_def applyProcessPatchField_def plan_simps)
qed

lemma ended_effect:
  fixes p :: process_instance and inp :: resolve_input
  defines "w \<equiv> ended_writes p inp (state_writes p inp)"
  shows "outcome_holds p w (committed p w) (Ended (if rw_result inp = WaitAbort then AbortedProcess else CompletedProcess))"
proof -
  let ?w1 = "writeTurnWait (state_writes p inp) p None"
  have w: "w_turnStartWrites w = []" "w_workerIntent w = Some Reconcile"
    "patched w p g = patched (applyProcessPatchField (applyProcessPatchField (applyProcessPatchField ?w1 p FSelectedTurnId VNull)
       p FCurrentExecution VNull) p FLifecycleStatus
       (VLifecycle (if rw_result inp = WaitAbort then AbortedProcess else CompletedProcess))) p g" for g
    by (simp_all add: w_def ended_writes_def Let_def plan_simps)
  have m: "metadata_value (patched w p FMetadata) = wait_metadata (coalesce (pi_metadata p) []) None"
    unfolding w(3) using metadata_written [of "state_writes p inp" p None]
    by (simp add: plan_simps pi_metadata_value)
  have o: "patched w p FSelectedTurnId = VNull" "patched w p FCurrentExecution = VNull"
    "patched w p FLifecycleStatus = VLifecycle (if rw_result inp = WaitAbort then AbortedProcess else CompletedProcess)"
    unfolding w(3) by (auto simp: plan_simps dest: js_same_eq)
  show ?thesis using m o w(1,2) by (simp add: pi_metadata_value) (simp add: pi_defs)
qed

text \<open>The recorder's check of waiting starts leaves each of these plans as it is.\<close>

lemma defer_goes_on:
  assumes "outcome_holds p w (committed p w) (GoesOn v status)" "pendingTurnWait (pi_metadata p) = Inr (Some wait)"
    and "map_of v ''turnId'' = map_option JStr (pi_selectedTurnId p)" "status \<in> {WaitingProcess, ErrorProcess}"
  shows "deferTurnWaitStarts waitId graphs p w md = Inr w"
  using assms
  by (auto simp: deferTurnWaitStarts_def Let_def committed_def [symmetric] clear_stale_wait_def split: bool.split)

lemma defer_released:
  assumes "outcome_holds p w (committed p w) (Released si)" "pendingTurnWait (pi_metadata p) = Inr (Some wait)"
    and "map_of wait ''turnId'' = Some (JStr (si_turnId si))" "pi_selectedTurnId p = Some (si_turnId si)"
    and "map_of wait ''id'' = map_option JStr (w_waitForAdmission w)"
  shows "deferTurnWaitStarts waitId graphs p w md = Inr w"
  using assms
  by (auto simp: deferTurnWaitStarts_def Let_def committed_def [symmetric] clear_stale_wait_def admitted_start_def split: bool.split)

lemma defer_ended:
  assumes "outcome_holds p w (committed p w) (Ended status)" "pendingTurnWait (pi_metadata p) = Inr (Some wait)"
  shows "deferTurnWaitStarts waitId graphs p w md = Inr w"
  using assms
  by (auto simp: deferTurnWaitStarts_def Let_def committed_def [symmetric] clear_stale_wait_def split: bool.split)

text \<open>A granted check, as it is recorded: the wait goes on, the held start is released, or the process ends.\<close>

definition outcome_of :: "json_object \<Rightarrow> resolve_input \<Rightarrow> wait_outcome" where
  "outcome_of wait inp =
     (case rw_result inp of
        WaitBind \<Rightarrow> GoesOn (bound_wait wait) WaitingProcess
      | WaitReady \<Rightarrow> Released (start_of_json (map_of wait ''start''))
      | WaitComplete \<Rightarrow> Ended CompletedProcess | WaitAbort \<Rightarrow> Ended AbortedProcess
      | WaitError \<Rightarrow> GoesOn (rechecked_wait wait inp) ErrorProcess
      | _ \<Rightarrow> GoesOn (rechecked_wait wait inp) WaitingProcess)"

lemma held_turn:
  assumes "valid_wait v"
  shows "map_of v ''turnId'' = Some (JStr (si_turnId (start_of_json (map_of v ''start''))))"
proof -
  obtain t m where t: "map_of v ''turnId'' = Some (JStr t)" "map_of v ''start'' = Some m" "json_get (asUnknownRecord (Some m)) ''turnId'' = Some (JStr t)"
    using assms by (auto simp: valid_wait_def is_json_string_def split: option.splits json.splits)
  then obtain fs where "m = JObj fs" "map_of fs ''turnId'' = Some (JStr t)"
    by (cases m) (auto simp: json_get_def asUnknownRecord_def)
  with t show ?thesis by (simp add: start_of_json_def Let_def)
qed

lemma createWrites_patched [simp]: "committed p (createWrites w) = committed p w"
  by (simp add: committed_def createWrites_def)

lemma outcome_createWrites [simp]: "outcome_holds p (createWrites w) p' oc = outcome_holds p w p' oc"
  by (cases oc) (simp_all add: createWrites_def)

lemma resolve_outcome:
  assumes "ResolveTurnWait encode graphs projects db inp = Inr (Inr d)" "rw_waitId inp \<noteq> []"
  obtains wait where "pendingTurnWait (pi_metadata (ed_process db)) = Inr (Some wait)"
    "check_current projects (ed_process db) inp wait"
    "\<And>waitId gs md. deferTurnWaitStarts waitId gs (ed_process db) (dc_writes d) md = Inr (dc_writes d)"
    "outcome_holds (ed_process db) (dc_writes d) (commit_process (ed_process db) (dc_writes d)) (outcome_of wait inp)"
  using assms(1)
proof (cases rule: resolve_cases)
  case (bound wait binding params)
  let ?p = "ed_process db"
  have waiting: "pi_lifecycleStatus ?p = WaitingProcess" "map_of wait ''turnId'' = map_option JStr (pi_selectedTurnId ?p)"
    using bound(2) by (auto simp: check_current_def)
  have e: "outcome_holds ?p (dc_writes d) (committed ?p (dc_writes d)) (GoesOn (bound_wait wait) WaitingProcess)"
    unfolding bound(4) using bound_effect [OF bound(1) waiting(1)] by simp
  moreover have "wf_plan (dc_writes d)" by (simp add: bound(4) wf_check_plans)
  moreover have "map_of (bound_wait wait) ''turnId'' = map_option JStr (pi_selectedTurnId ?p)"
    using waiting succeeding_waits(1) [OF pending_read(1) [OF bound(1)]] by (simp add: succeeds_def)
  then have "deferTurnWaitStarts waitId gs ?p (dc_writes d) md = Inr (dc_writes d)" for waitId gs md
    using defer_goes_on [OF e bound(1)] by auto
  ultimately show thesis using that bound by (simp add: commit_wf outcome_of_def)
next
  case (released wait)
  let ?p = "ed_process db" and ?si = "start_of_json (map_of wait ''start'')"
  note t = held_turn [OF pending_read(1) [OF released(1)]]
  have c: "pi_selectedTurnId ?p = Some (si_turnId ?si)" "map_of wait ''id'' = Some (JStr (rw_waitId inp))"
    using released(2) t by (auto simp: check_current_def)
  have e: "outcome_holds ?p (dc_writes d) (committed ?p (dc_writes d)) (Released ?si)"
    unfolding released(4) using released_effect(1) [OF released(1)] by simp
  have a: "w_waitForAdmission (dc_writes d) = Some (rw_waitId inp)"
    using released_effect(2) [OF released(1), of inp] c(2) assms(2) by (simp add: released(4) createWrites_def jopt_def)
  have "deferTurnWaitStarts waitId gs ?p (dc_writes d) md = Inr (dc_writes d)" for waitId gs md
    using defer_released [OF e released(1) t c(1)] c(2) a by auto
  moreover have "wf_plan (dc_writes d)" by (simp add: released(4) wf_check_plans)
  ultimately show thesis using that released e by (simp add: commit_wf outcome_of_def)
next
  case (ended wait)
  let ?p = "ed_process db"
  have e: "outcome_holds ?p (dc_writes d) (committed ?p (dc_writes d))
      (Ended (if rw_result inp = WaitAbort then AbortedProcess else CompletedProcess))"
    unfolding ended(4) using ended_effect [of ?p inp] by simp
  moreover have "wf_plan (dc_writes d)" by (simp add: ended(4) wf_check_plans)
  moreover have "deferTurnWaitStarts waitId gs ?p (dc_writes d) md = Inr (dc_writes d)" for waitId gs md
    using defer_ended [OF e ended(1)] .
  ultimately show thesis using that ended by (auto simp: commit_wf outcome_of_def)
next
  case (rechecked wait)
  let ?p = "ed_process db" and ?status = "if rw_result inp = WaitError then ErrorProcess else WaitingProcess"
  have waiting: "pi_lifecycleStatus ?p = WaitingProcess" "map_of wait ''turnId'' = map_option JStr (pi_selectedTurnId ?p)"
    using rechecked(2) by (auto simp: check_current_def)
  have e: "outcome_holds ?p (dc_writes d) (committed ?p (dc_writes d)) (GoesOn (rechecked_wait wait inp) ?status)"
    unfolding rechecked(4) using rechecked_effect [OF rechecked(1) waiting(1)] by simp
  moreover have "wf_plan (dc_writes d)" by (simp add: rechecked(4) wf_check_plans)
  moreover have "map_of (rechecked_wait wait inp) ''turnId'' = map_option JStr (pi_selectedTurnId ?p)"
    using waiting succeeding_waits(2) [OF pending_read(1) [OF rechecked(1)]] by (simp add: succeeds_def)
  then have "deferTurnWaitStarts waitId gs ?p (dc_writes d) md = Inr (dc_writes d)" for waitId gs md
    using defer_goes_on [OF e rechecked(1)] by auto
  moreover have "outcome_of wait inp = GoesOn (rechecked_wait wait inp) ?status"
    using rechecked(3) by (auto simp: outcome_of_def)
  ultimately show thesis using that rechecked by (simp add: commit_wf)
qed

text \<open>
  C16. Of the checks made from one revision of a wait, one is committed. Once a check is recorded, every other check of
  the same wait that was computed from this revision or an earlier one is refused, whatever it found, whatever the
  projects and tables hold by then, and also when the first one released the start or ended the process.
\<close>

theorem check_is_committed_once:
  assumes "ResolveTurnWait encode graphs projects db inp = Inr (Inr d)" "rw_waitId inp \<noteq> []"
    and "deferTurnWaitStarts waitId graphs (ed_process db) (dc_writes d) md = Inr w"
    and "pi_metadata (ed_process db2) = pi_metadata (commit_process (ed_process db) w)"
    and "rw_waitId inp2 = rw_waitId inp" "rw_revision inp2 \<le> rw_revision inp"
  shows "ResolveTurnWait encode2 graphs2 projects2 db2 inp2 =
    Inr (Inl \<lparr>wf_code = ''turn_wait_superseded'', wf_msg = ''The waiting condition has changed''\<rparr>)"
proof -
  obtain wait where wait: "pendingTurnWait (pi_metadata (ed_process db)) = Inr (Some wait)"
      "check_current projects (ed_process db) inp wait"
    and df: "deferTurnWaitStarts waitId graphs (ed_process db) (dc_writes d) md = Inr (dc_writes d)"
    and oc': "outcome_holds (ed_process db) (dc_writes d) (commit_process (ed_process db) (dc_writes d)) (outcome_of wait inp)"
    by (rule resolve_outcome [OF assms(1,2)]) blast
  have oc: "outcome_holds (ed_process db) w (commit_process (ed_process db) w) (outcome_of wait inp)"
    using oc' df assms(3) by simp
  have rev: "jnum (map_of wait ''revision'') = rw_revision inp" using wait(2) by (simp add: check_current_def)
  have "pendingTurnWait (pi_metadata (ed_process db2)) = Inr None \<or>
    (\<exists>v. pendingTurnWait (pi_metadata (ed_process db2)) = Inr (Some v) \<and> succeeds wait v)"
    using oc succeeding_waits(1,2) [OF pending_read(1) [OF wait(1)]]
    by (cases "rw_result inp") (auto simp: outcome_of_def assms(4))
  then show ?thesis
    using assms(6) rev by (auto simp: ResolveTurnWait_def Let_def reject_def check_current_def succeeds_def)
qed

text \<open>A process whose first turn is held, and the first check of its condition.\<close>

definition held_plan :: writes where
  "held_plan = projr (deferTurnWaitStarts ''w1'' waiting_registry sample_process sample_selection_plan None)"

definition held_db :: engine_db where
  "held_db = sample_db\<lparr>ed_process := commit_process sample_process held_plan, ed_starts := [], ed_leases := []\<rparr>"

definition sample_check :: "wait_result \<Rightarrow> resolve_input" where
  "sample_check result = \<lparr>rw_waitId = ''w1'', rw_revision = 0, rw_paramsJson = None, rw_stateJson = None, rw_projects = [],
     rw_nextStateJson = None, rw_initialBinding = None, rw_result = result, rw_message = Some ''not yet'', rw_now = 1000,
     rw_pollIntervalMs = 30000\<rparr>"

definition sample_encode :: "string \<Rightarrow> json \<Rightarrow> string throws" where
  "sample_encode processId params = Inr ''{}''"

definition checked_decision :: "unit decision" where
  "checked_decision = projr (projr (ResolveTurnWait sample_encode waiting_registry [] held_db (sample_check WaitRetry)))"

lemma checked_once:
  "ResolveTurnWait sample_encode waiting_registry [] held_db (sample_check WaitRetry) = Inr (Inr checked_decision)"
  "deferTurnWaitStarts ''w2'' waiting_registry (ed_process held_db) (dc_writes checked_decision) None =
     Inr (dc_writes checked_decision)"
  by code_simp+

theorem check_is_committed_once_witness:
  "ResolveTurnWait sample_encode waiting_registry []
     (held_db\<lparr>ed_process := commit_process (ed_process held_db) (dc_writes checked_decision)\<rparr>) (sample_check WaitReady) =
   Inr (Inl \<lparr>wf_code = ''turn_wait_superseded'', wf_msg = ''The waiting condition has changed''\<rparr>)"
  by (rule check_is_committed_once [OF checked_once(1) _ checked_once(2)]) (simp_all add: sample_check_def)

section \<open>The life of a held start\<close>

text \<open>
  What happens while a start is held: checks that neither release it nor end the process, retries of a failed condition, and
  whatever else the engine and the repositories do that leaves the selection, status, execution and metadata of the process.
\<close>

inductive wait_step ::
    "(string \<Rightarrow> json \<Rightarrow> string throws) \<Rightarrow> graph_registry \<Rightarrow> engine_db \<Rightarrow> engine_db \<Rightarrow> bool" for encode graphs where
  checked: "ResolveTurnWait encode graphs projects db inp = Inr (Inr d) \<Longrightarrow> rw_result inp \<notin> {WaitReady, WaitComplete, WaitAbort} \<Longrightarrow>
    deferTurnWaitStarts newWait graphs (ed_process db) (dc_writes d) md = Inr w \<Longrightarrow> commitWrites ck ids db w = Inr db' \<Longrightarrow>
    wait_step encode graphs db db'"
| retried: "RetryTurnWait (ed_process db) overrides who = Inr (Inr d) \<Longrightarrow>
    deferTurnWaitStarts newWait graphs (ed_process db) (dc_writes d) md = Inr w \<Longrightarrow> commitWrites ck ids db w = Inr db' \<Longrightarrow>
    wait_step encode graphs db db'"
| other: "\<forall>f \<in> {FSelectedTurnId, FLifecycleStatus, FCurrentExecution, FMetadata}.
      pi_fields (ed_process db') f = pi_fields (ed_process db) f \<Longrightarrow>
    wait_step encode graphs db db'"

definition holds :: "string \<Rightarrow> start_input \<Rightarrow> process_instance \<Rightarrow> bool" where
  "holds waitId si p \<longleftrightarrow> (\<exists>v. pendingTurnWait (pi_metadata p) = Inr (Some v) \<and> map_of v ''id'' = Some (JStr waitId) \<and>
     map_of v ''start'' = Some (start_json si)) \<and> pi_selectedTurnId p = Some (si_turnId si) \<and>
     pi_currentExecution p = None \<and> pi_lifecycleStatus p \<in> {WaitingProcess, ErrorProcess}"

lemma held_turn_id: "si_turnId (start_of_json (Some (start_json si))) = si_turnId si"
  by (simp add: start_of_json_def start_json_def Let_def)

lemma commit_only_process:
  "commitWrites ck ids db w = Inr db' \<Longrightarrow> ed_process db' = commit_process (ed_process db) w"
  by (erule commitWrites_cases) simp

lemma outcome_keeps_hold:
  assumes "holds waitId si p" "pendingTurnWait (pi_metadata p) = Inr (Some v)" "outcome_holds p w p' (GoesOn v' status)"
    and "succeeds v v'" "status \<in> {WaitingProcess, ErrorProcess}"
  shows "holds waitId si p'"
  using assms by (auto simp: holds_def succeeds_def)

lemma retried_effect:
  assumes "RetryTurnWait p overrides who = Inr (Inr d)"
  obtains wait where "pendingTurnWait (pi_metadata p) = Inr (Some wait)"
    "outcome_holds p (dc_writes d) (commit_process p (dc_writes d)) (GoesOn (retried_wait wait overrides) WaitingProcess)"
    "\<And>newWait gs md. map_of wait ''turnId'' = map_option JStr (pi_selectedTurnId p) \<Longrightarrow>
       deferTurnWaitStarts newWait gs p (dc_writes d) md = Inr (dc_writes d)"
proof -
  obtain wait w3 where wait: "pendingTurnWait (pi_metadata p) = Inr (Some wait)"
    and w3: "w3 = appendProcessEvent (applyProcessPatchField (writeTurnWait (createWrites no_writes) p (Some (retried_wait wait overrides)))
        p FLifecycleStatus (VLifecycle WaitingProcess)) p ''turn_wait_retry'' ''info'' ''Waiting condition retry requested''
        (Some [(''turnId'', coalesce (map_of wait ''turnId'') JNull)])"
    and d: "dc_writes d = createWrites (fst (stampActorOnEvents w3 who ''turn_wait_retry''))"
    using assms by (auto simp: RetryTurnWait_def reject_def accept_def retried_wait_def Let_def split: option.splits if_splits)
  have suc: "succeeds wait (retried_wait wait overrides)" using pending_read(1) [OF wait] by (rule succeeding_waits)
  let ?w1 = "writeTurnWait (createWrites no_writes) p (Some (retried_wait wait overrides))"
  have starts: "w_turnStartWrites (dc_writes d) = []"
    by (simp add: d w3 stampActorOnEvents_def createWrites_def plan_simps no_writes_def)
  have patched: "patched (dc_writes d) p g = patched (applyProcessPatchField ?w1 p FLifecycleStatus (VLifecycle WaitingProcess)) p g" for g
    by (simp add: d w3 plan_simps)
  have m: "metadata_value (patched (dc_writes d) p FMetadata) = wait_metadata (coalesce (pi_metadata p) []) (Some (retried_wait wait overrides))"
    unfolding patched using metadata_written [of "createWrites no_writes" p "Some (retried_wait wait overrides)"]
    by (simp add: plan_simps pi_metadata_value)
  have o: "patched (dc_writes d) p g = (if g = FLifecycleStatus then VLifecycle WaitingProcess else pi_fields p g)"
    if "g \<noteq> FMetadata" for g
    unfolding patched using that by (auto simp: plan_simps dest: js_same_eq)
  have "wf_plan (dc_writes d)" unfolding d w3
    by (simp add: typed.inv_stamp typed_intros)
  moreover have e: "outcome_holds p (dc_writes d) (committed p (dc_writes d)) (GoesOn (retried_wait wait overrides) WaitingProcess)"
    using suc m o starts by (simp add: pi_metadata_value) (simp add: pi_defs succeeds_def)
  ultimately show thesis
    using wait defer_goes_on [OF e wait] suc by (intro that [of wait]) (simp_all add: commit_wf succeeds_def)
qed

lemma step_holds:
  assumes "wait_step encode graphs db db'" "holds waitId si (ed_process db)" "waitId \<noteq> []"
  shows "holds waitId si (ed_process db')"
  using assms(1)
proof cases
  case (checked projects inp d newWait md w ck ids)
  obtain v where v: "pendingTurnWait (pi_metadata (ed_process db)) = Inr (Some v)" "map_of v ''id'' = Some (JStr waitId)"
    using assms(2) by (auto simp: holds_def)
  have "rw_waitId inp \<noteq> []"
    using checked(1) v assms(3) by (elim resolve_cases) (auto simp: check_current_def)
  with checked(1) obtain wait where wait: "pendingTurnWait (pi_metadata (ed_process db)) = Inr (Some wait)"
      "deferTurnWaitStarts newWait graphs (ed_process db) (dc_writes d) md = Inr (dc_writes d)"
      "outcome_holds (ed_process db) (dc_writes d) (commit_process (ed_process db) (dc_writes d)) (outcome_of wait inp)"
    by (rule resolve_outcome) blast
  have "w = dc_writes d" using wait(2) checked(3) by simp
  then have p': "ed_process db' = commit_process (ed_process db) (dc_writes d)" using commit_only_process [OF checked(4)] by simp
  obtain v' status where "outcome_of wait inp = GoesOn v' status" "succeeds wait v'" "status \<in> {WaitingProcess, ErrorProcess}"
    using checked(2) succeeding_waits(1,2) [OF pending_read(1) [OF wait(1)]] by (cases "rw_result inp") (auto simp: outcome_of_def)
  with wait(3) show ?thesis unfolding p' by (intro outcome_keeps_hold [OF assms(2) wait(1)]) auto
next
  case (retried overrides who d newWait md w ck ids)
  obtain wait where wait: "pendingTurnWait (pi_metadata (ed_process db)) = Inr (Some wait)"
    "outcome_holds (ed_process db) (dc_writes d) (commit_process (ed_process db) (dc_writes d))
      (GoesOn (retried_wait wait overrides) WaitingProcess)"
    "map_of wait ''turnId'' = map_option JStr (pi_selectedTurnId (ed_process db)) \<Longrightarrow>
       deferTurnWaitStarts newWait graphs (ed_process db) (dc_writes d) md = Inr (dc_writes d)"
    using retried(1) by (rule retried_effect) blast
  note valid = pending_read(1) [OF wait(1)]
  note suc = succeeding_waits(3) [OF valid, of overrides]
  have "map_of wait ''turnId'' = map_option JStr (pi_selectedTurnId (ed_process db))"
    using assms(2) wait(1) held_turn [OF valid] by (auto simp: holds_def held_turn_id)
  then have "w = dc_writes d" using wait(3) retried(2) by simp
  then have "ed_process db' = commit_process (ed_process db) (dc_writes d)" using commit_only_process [OF retried(3)] by simp
  with wait(2) suc show ?thesis by (intro outcome_keeps_hold [OF assms(2) wait(1)]) auto
next
  case other
  with assms(2) show ?thesis by (simp add: holds_def pi_defs)
qed

lemma steps_hold:
  "(wait_step encode graphs)\<^sup>*\<^sup>* db db' \<Longrightarrow> holds waitId si (ed_process db) \<Longrightarrow> waitId \<noteq> [] \<Longrightarrow> holds waitId si (ed_process db')"
  by (induction rule: rtranclp_induct) (blast intro: step_holds)+

lemma new_wait_held:
  assumes "deferTurnWaitStarts waitId graphs p w md = Inr w'" "pendingTurnWait (pi_metadata p) = Inr None"
    and "turnWaitPredicate graphs (committed p w)"
    and "find_start (pi_selectedTurnId (committed p w)) (w_turnStartWrites w) = Some (i, si)"
    and "si_iteration si = None \<or> si_startKind si \<noteq> SelectedTurnStart"
  shows "holds waitId si (commit_process p w')"
proof -
  let ?v = "new_wait waitId p si md"
  let ?w1 = "w\<lparr>w_turnStartWrites := take i (w_turnStartWrites w) @ drop (Suc i) (w_turnStartWrites w)\<rparr>"
  have w': "w' = hold_start waitId p w md None i si"
    using defer_found [OF assms(1-4)] assms(5) by (auto simp: admitted_start_def)
  have "map_of (case md of None \<Rightarrow> [] | Some m \<Rightarrow> [(''metadata'', m)]) ''x'' = None" by (cases md) simp_all
  have v: "valid_wait ?v" "map_of ?v ''id'' = Some (JStr waitId)" "map_of ?v ''start'' = Some (start_json si)"
    by (simp_all add: new_wait_def valid_wait_def is_json_string_def is_json_number_def start_json_def json_get_def asUnknownRecord_def)
  have "wait_metadata base (Some ?v) \<noteq> pi_metadata p" for base
    using assms(2) pending_written(1) [OF v(1), of base] by auto
  then have m: "metadata_value (patched (writeTurnWait ?w1 p (Some ?v)) p FMetadata) =
      wait_metadata (coalesce (metadata_value (patched ?w1 p FMetadata)) []) (Some ?v)"
    by (intro metadata_written) auto
  have "w_changedFields w' \<noteq> []" by (auto simp: w' hold_start_def Let_def set_field_def jsset_add_def)
  then have c: "commit_process p w' = committed p w'" by (simp add: commit_process_def)
  have "pendingTurnWait (pi_metadata (committed p w')) = Inr (Some ?v)"
    using m v(1) by (simp add: pi_metadata_value w' hold_start_patched)
  moreover have "pi_selectedTurnId (committed p w') = Some (si_turnId si)"
    using find_start_some(3) [OF assms(4)] by (simp add: pi_defs w' hold_start_patched plan_simps)
  moreover have "pi_currentExecution (committed p w') = None" "pi_lifecycleStatus (committed p w') = WaitingProcess"
    by (simp_all add: pi_defs w' hold_start_patched)
  ultimately show ?thesis using v by (auto simp: holds_def c)
qed

text \<open>
  C15. A start that is held is released unchanged, once. From the plan that puts the start aside, through every sequence of checks
  that do not end the wait, retries of a failed condition and other work, the process keeps its turn, runs nothing and holds the
  start. Every current check that finds the condition true is then granted: its recorded plan creates exactly the start that was
  held, the process becomes active with that start as its execution, and no wait is left.
\<close>

theorem held_start_is_released_unchanged:
  assumes "deferTurnWaitStarts waitId graphs p w md = Inr w'" "pendingTurnWait (pi_metadata p) = Inr None"
    and "turnWaitPredicate graphs (committed p w)"
    and "find_start (pi_selectedTurnId (committed p w)) (w_turnStartWrites w) = Some (i, si)"
    and "si_iteration si = None \<or> si_startKind si \<noteq> SelectedTurnStart" "wf_start si" "waitId \<noteq> []"
    and "ed_process db0 = commit_process p w'" "(wait_step encode graphs)\<^sup>*\<^sup>* db0 db"
  shows "\<exists>v. pendingTurnWait (pi_metadata (ed_process db)) = Inr (Some v) \<and> map_of v ''id'' = Some (JStr waitId) \<and>
    pi_selectedTurnId (ed_process db) = Some (si_turnId si) \<and> pi_currentExecution (ed_process db) = None \<and>
    pi_lifecycleStatus (ed_process db) \<in> {WaitingProcess, ErrorProcess} \<and>
    (\<forall>projects inp newWait md2. check_current projects (ed_process db) inp v \<longrightarrow> rw_result inp = WaitReady \<longrightarrow>
       (\<exists>d. ResolveTurnWait encode graphs projects db inp = Inr (Inr d) \<and>
          deferTurnWaitStarts newWait graphs (ed_process db) (dc_writes d) md2 = Inr (dc_writes d) \<and>
          w_turnStartWrites (dc_writes d) = [CreateStart si] \<and>
          pi_currentExecution (commit_process (ed_process db) (dc_writes d)) = Some (si_id si) \<and>
          pi_lifecycleStatus (commit_process (ed_process db) (dc_writes d)) = ActiveProcess \<and>
          pi_selectedTurnId (commit_process (ed_process db) (dc_writes d)) = Some (si_turnId si) \<and>
          pendingTurnWait (pi_metadata (commit_process (ed_process db) (dc_writes d))) = Inr None))"
proof -
  have "holds waitId si (ed_process db)"
    using steps_hold [OF assms(9)] new_wait_held [OF assms(1-5)] assms(7,8) by simp
  then obtain v where v: "pendingTurnWait (pi_metadata (ed_process db)) = Inr (Some v)" "map_of v ''id'' = Some (JStr waitId)"
      "map_of v ''start'' = Some (start_json si)" "pi_selectedTurnId (ed_process db) = Some (si_turnId si)"
    and p: "pi_currentExecution (ed_process db) = None" "pi_lifecycleStatus (ed_process db) \<in> {WaitingProcess, ErrorProcess}"
    by (auto simp: holds_def)
  have ready: "\<exists>d. ResolveTurnWait encode graphs projects db inp = Inr (Inr d) \<and>
      deferTurnWaitStarts newWait graphs (ed_process db) (dc_writes d) md2 = Inr (dc_writes d) \<and>
      outcome_holds (ed_process db) (dc_writes d) (commit_process (ed_process db) (dc_writes d)) (Released si)"
    if "check_current projects (ed_process db) inp v" "rw_result inp = WaitReady" for projects inp newWait md2
  proof -
    have "\<exists>d. ResolveTurnWait encode graphs projects db inp = Inr (Inr d)"
      using v(1) that by (simp add: ResolveTurnWait_def Let_def accept_def)
    then obtain d where d: "ResolveTurnWait encode graphs projects db inp = Inr (Inr d)" by blast
    have "rw_waitId inp \<noteq> []" using that(1) v(2) assms(7) by (simp add: check_current_def)
    with d obtain wait where wait: "pendingTurnWait (pi_metadata (ed_process db)) = Inr (Some wait)"
        "deferTurnWaitStarts newWait graphs (ed_process db) (dc_writes d) md2 = Inr (dc_writes d)"
        "outcome_holds (ed_process db) (dc_writes d) (commit_process (ed_process db) (dc_writes d)) (outcome_of wait inp)"
      by (rule resolve_outcome) blast
    moreover have "outcome_of wait inp = Released si"
      using that(2) wait(1) v(1,3) held_start_reads_back [OF assms(6)] by (simp add: outcome_of_def)
    ultimately show ?thesis using d by auto
  qed
  show ?thesis
  proof (intro exI [of _ v] conjI allI impI)
    fix projects inp newWait md2
    assume "check_current projects (ed_process db) inp v" "rw_result inp = WaitReady"
    from ready [OF this, of newWait md2] v(4) show "\<exists>d. ResolveTurnWait encode graphs projects db inp = Inr (Inr d) \<and>
          deferTurnWaitStarts newWait graphs (ed_process db) (dc_writes d) md2 = Inr (dc_writes d) \<and>
          w_turnStartWrites (dc_writes d) = [CreateStart si] \<and>
          pi_currentExecution (commit_process (ed_process db) (dc_writes d)) = Some (si_id si) \<and>
          pi_lifecycleStatus (commit_process (ed_process db) (dc_writes d)) = ActiveProcess \<and>
          pi_selectedTurnId (commit_process (ed_process db) (dc_writes d)) = Some (si_turnId si) \<and>
          pendingTurnWait (pi_metadata (commit_process (ed_process db) (dc_writes d))) = Inr None" by auto
  qed (use v p in simp_all)
qed

definition held_sample :: start_input where
  "held_sample = snd (the (find_start (Some ''draft'') (w_turnStartWrites sample_selection_plan)))"

definition checked_db :: engine_db where
  "checked_db = projr (commitWrites sample_clock (\<lambda>_. []) held_db (dc_writes checked_decision))"

theorem held_start_is_released_unchanged_witness:
  "\<exists>d. ResolveTurnWait sample_encode waiting_registry [] checked_db ((sample_check WaitReady)\<lparr>rw_revision := 1\<rparr>) = Inr (Inr d) \<and>
     w_turnStartWrites (dc_writes d) = [CreateStart held_sample] \<and>
     pi_currentExecution (commit_process (ed_process checked_db) (dc_writes d)) = Some ''s1''"
proof -
  have sel: "pi_selectedTurnId (committed sample_process sample_selection_plan) = Some ''draft''" by code_simp
  have h: "deferTurnWaitStarts ''w1'' waiting_registry sample_process sample_selection_plan None = Inr held_plan"
    unfolding held_plan_def by code_simp
  have none: "pendingTurnWait (pi_metadata sample_process) = Inr None" by code_simp
  have pred: "turnWaitPredicate waiting_registry (committed sample_process sample_selection_plan)" by code_simp
  have found: "find_start (pi_selectedTurnId (committed sample_process sample_selection_plan))
      (w_turnStartWrites sample_selection_plan) = Some (0, held_sample)"
    unfolding sel held_sample_def by code_simp
  have it: "si_iteration held_sample = None" "si_id held_sample = ''s1''" "wf_start held_sample"
    unfolding held_sample_def by code_simp+
  have commit: "commitWrites sample_clock (\<lambda>_. []) held_db (dc_writes checked_decision) = Inr checked_db"
  proof -
    have "\<not> isl (commitWrites sample_clock (\<lambda>_. []) held_db (dc_writes checked_decision))" by code_simp
    then show ?thesis by (simp add: checked_db_def)
  qed
  have step: "(wait_step sample_encode waiting_registry)\<^sup>*\<^sup>* held_db checked_db"
    by (rule r_into_rtranclp, rule wait_step.checked [OF checked_once(1) _ checked_once(2) commit]) (simp add: sample_check_def)
  have db0: "ed_process held_db = commit_process sample_process held_plan" by (simp add: held_db_def)
  have "case pendingTurnWait (pi_metadata (ed_process checked_db)) of
      Inr (Some v) \<Rightarrow> check_current [] (ed_process checked_db) ((sample_check WaitReady)\<lparr>rw_revision := 1\<rparr>) v | _ \<Rightarrow> False"
    by code_simp
  then have cur: "\<exists>v. pendingTurnWait (pi_metadata (ed_process checked_db)) = Inr (Some v) \<and>
      check_current [] (ed_process checked_db) ((sample_check WaitReady)\<lparr>rw_revision := 1\<rparr>) v"
    by (auto split: sum.splits option.splits)
  have first: "si_iteration held_sample = None \<or> si_startKind held_sample \<noteq> SelectedTurnStart" "''w1'' \<noteq> []"
    using it(1) by simp_all
  from held_start_is_released_unchanged [OF h none pred found first(1) it(3) first(2) db0 step]
  obtain v where v: "pendingTurnWait (pi_metadata (ed_process checked_db)) = Inr (Some v)"
    and rel: "\<forall>projects inp newWait md2. check_current projects (ed_process checked_db) inp v \<longrightarrow> rw_result inp = WaitReady \<longrightarrow>
       (\<exists>d. ResolveTurnWait sample_encode waiting_registry projects checked_db inp = Inr (Inr d) \<and>
          deferTurnWaitStarts newWait waiting_registry (ed_process checked_db) (dc_writes d) md2 = Inr (dc_writes d) \<and>
          w_turnStartWrites (dc_writes d) = [CreateStart held_sample] \<and>
          pi_currentExecution (commit_process (ed_process checked_db) (dc_writes d)) = Some (si_id held_sample) \<and>
          pi_lifecycleStatus (commit_process (ed_process checked_db) (dc_writes d)) = ActiveProcess \<and>
          pi_selectedTurnId (commit_process (ed_process checked_db) (dc_writes d)) = Some (si_turnId held_sample) \<and>
          pendingTurnWait (pi_metadata (commit_process (ed_process checked_db) (dc_writes d))) = Inr None)"
    by (elim exE conjE) (rule that)
  have "check_current [] (ed_process checked_db) ((sample_check WaitReady)\<lparr>rw_revision := 1\<rparr>) v" using cur v by simp
  from rel [rule_format, OF this] it(2) show ?thesis by (auto simp: sample_check_def)
qed

end
