(* ===== verification/Wait_Service.thy ===== *)
theory Wait_Service
  imports Leitwerk_Prelude "HOL-Library.Multiset"
begin

text \<open>
  The service that checks waiting conditions (\<^verbatim>\<open>packages/server/src/turn-wait-service.ts\<close>): at most four checks run at a
  time, one per process, and further ones wait in order.

  A check passes through the handlers of the service: its promise is entered for the process (\<^verbatim>\<open>check\<close>), a later microtask
  schedules it (\<^verbatim>\<open>schedule\<close>), it runs or waits, its work settles, its slot is given back (the first \<open>finally\<close>) and its promise
  is removed (the second). Each handler is a function on the state; the order in which they run is arbitrary.
\<close>

section \<open>The state and its handlers\<close>

record wait_service =
  ws_stopped :: bool
  ws_active :: nat
  ws_queued :: "string list"
  ws_running :: "string list"
  ws_deferred :: "string list"
  ws_working :: "string list"
  ws_releasing :: nat
  ws_settled :: "string list"

definition createTurnWaitService :: wait_service where
  "createTurnWaitService = \<lparr>ws_stopped = False, ws_active = 0, ws_queued = [], ws_running = [], ws_deferred = [],
     ws_working = [], ws_releasing = 0, ws_settled = []\<rparr>"

definition check :: "string \<Rightarrow> wait_service \<Rightarrow> wait_service" where
  "check i s =
     (if ws_stopped s \<or> i \<in> set (ws_running s) then s
      else s\<lparr>ws_running := ws_running s @ [i], ws_deferred := ws_deferred s @ [i]\<rparr>)"

definition start_check :: "string \<Rightarrow> wait_service \<Rightarrow> wait_service" where
  "start_check i s =
     (if ws_stopped s then s\<lparr>ws_settled := ws_settled s @ [i]\<rparr>
      else s\<lparr>ws_active := ws_active s + 1, ws_working := ws_working s @ [i]\<rparr>)"

text \<open>The microtask that \<open>check\<close> defers.\<close>

definition schedule :: "string \<Rightarrow> wait_service \<Rightarrow> wait_service" where
  "schedule i s0 =
     (let s = s0\<lparr>ws_deferred := remove1 i (ws_deferred s0)\<rparr> in
      if ws_active s < 4 then start_check i s else s\<lparr>ws_queued := ws_queued s @ [i]\<rparr>)"

definition work_settled :: "string \<Rightarrow> wait_service \<Rightarrow> wait_service" where
  "work_settled i s = s\<lparr>ws_working := remove1 i (ws_working s), ws_releasing := ws_releasing s + 1,
     ws_settled := ws_settled s @ [i]\<rparr>"

text \<open>\<open>activeChecks--; queued.shift()?.()\<close>\<close>

definition release_slot :: "wait_service \<Rightarrow> wait_service" where
  "release_slot s0 =
     (let s = s0\<lparr>ws_active := ws_active s0 - 1, ws_releasing := ws_releasing s0 - 1\<rparr> in
      case ws_queued s of [] \<Rightarrow> s | i # rest \<Rightarrow> start_check i (s\<lparr>ws_queued := rest\<rparr>))"

definition forget_check :: "string \<Rightarrow> wait_service \<Rightarrow> wait_service" where
  "forget_check i s = s\<lparr>ws_running := removeAll i (ws_running s), ws_settled := remove1 i (ws_settled s)\<rparr>"

definition stop_service :: "wait_service \<Rightarrow> wait_service" where
  "stop_service s = fold start_check (ws_queued s) (s\<lparr>ws_stopped := True, ws_queued := []\<rparr>)"

datatype service_event = Check string | Schedule string | Settle string | Release | Forget string | Stop

text \<open>A handler runs only when what it handles has happened.\<close>

fun serve :: "service_event \<Rightarrow> wait_service \<Rightarrow> wait_service option" where
  "serve (Check i) s = Some (check i s)"
| "serve (Schedule i) s = (if i \<in> set (ws_deferred s) then Some (schedule i s) else None)"
| "serve (Settle i) s = (if i \<in> set (ws_working s) then Some (work_settled i s) else None)"
| "serve Release s = (if ws_releasing s > 0 then Some (release_slot s) else None)"
| "serve (Forget i) s = (if i \<in> set (ws_settled s) then Some (forget_check i s) else None)"
| "serve Stop s = Some (stop_service s)"

fun serve_all :: "service_event list \<Rightarrow> wait_service \<Rightarrow> wait_service option" where
  "serve_all [] s = Some s"
| "serve_all (e # es) s = Option.bind (serve e s) (serve_all es)"

section \<open>Invariant\<close>

lemma in_set_remove1_D: "x \<in> set (remove1 y xs) \<Longrightarrow> x \<in> set xs"
  using set_remove1_subset by fastforce

text \<open>Every entered check is in exactly one place, and the slots are counted.\<close>

definition places :: "wait_service \<Rightarrow> string list" where
  "places s = ws_deferred s @ ws_queued s @ ws_working s @ ws_settled s"

definition service_ok :: "wait_service \<Rightarrow> bool" where
  "service_ok s \<longleftrightarrow> mset (places s) = mset (ws_running s) \<and> distinct (ws_running s) \<and>
     ws_active s = length (ws_working s) + ws_releasing s \<and> ws_active s \<le> 4 \<and>
     (\<not> ws_stopped s \<longrightarrow> ws_queued s \<noteq> [] \<longrightarrow> ws_active s = 4)"

lemma fold_start_stopped:
  "ws_stopped s \<Longrightarrow> fold start_check is s = s\<lparr>ws_settled := ws_settled s @ is\<rparr>"
  by (induction "is" arbitrary: s) (simp_all add: start_check_def)

lemma stop_service_eq: "stop_service s = s\<lparr>ws_stopped := True, ws_queued := [], ws_settled := ws_settled s @ ws_queued s\<rparr>"
  by (simp add: stop_service_def fold_start_stopped)

lemma removed_once: "i \<in> set xs \<Longrightarrow> mset xs = add_mset i (mset (remove1 i xs))"
  by simp

lemma entered_once: "service_ok s \<Longrightarrow> distinct (places s) \<and> set (places s) = set (ws_running s)"
  unfolding service_ok_def by (metis mset_eq_imp_distinct_iff mset_eq_setD)

lemma serve_ok:
  assumes "serve e s = Some s'" "service_ok s"
  shows "service_ok s'"
proof (cases e)
  case (Check i)
  with assms show ?thesis by (auto simp: service_ok_def places_def check_def split: if_splits)
next
  case (Schedule i)
  define ds where "ds = remove1 i (ws_deferred s)"
  have i: "i \<in> set (ws_deferred s)" and s': "s' = schedule i s" using assms(1) Schedule by (auto split: if_splits)
  note removed_once [OF i, folded ds_def]
  then show ?thesis
    using assms(2) unfolding s' schedule_def start_check_def ds_def [symmetric] Let_def
    by (auto simp: service_ok_def places_def)
next
  case (Settle i)
  define ws where "ws = remove1 i (ws_working s)"
  have i: "i \<in> set (ws_working s)" and s': "s' = work_settled i s" using assms(1) Settle by (auto split: if_splits)
  have "length (ws_working s) = Suc (length ws)" using arg_cong [OF removed_once [OF i], of size] unfolding ws_def [symmetric] by simp
  with removed_once [OF i, folded ws_def] show ?thesis
    using assms(2) unfolding s' work_settled_def ws_def [symmetric] by (auto simp: service_ok_def places_def)
next
  case Release
  with assms have "0 < ws_releasing s" "s' = release_slot s" by (simp_all split: if_splits)
  with assms(2) show ?thesis
    by (cases "ws_queued s"; cases "ws_stopped s") (auto simp: service_ok_def places_def release_slot_def start_check_def)
next
  case (Forget i)
  define ss where "ss = remove1 i (ws_settled s)"
  have i: "i \<in> set (ws_settled s)" and s': "s' = forget_check i s" using assms(1) Forget by (auto split: if_splits)
  have r: "removeAll i (ws_running s) = remove1 i (ws_running s)"
    using assms(2) by (simp add: service_ok_def distinct_remove1_removeAll)
  define rs where "rs = remove1 i (ws_running s)"
  have "i \<in> set (ws_running s)" using i entered_once [OF assms(2)] by (auto simp: places_def)
  note removed_once [OF this, folded rs_def] removed_once [OF i, folded ss_def]
  moreover have "distinct rs" using assms(2) by (simp add: service_ok_def rs_def)
  ultimately show ?thesis
    using assms(2) unfolding s' forget_check_def ss_def [symmetric] r rs_def [symmetric] by (auto simp: service_ok_def places_def)
next
  case Stop
  with assms show ?thesis by (auto simp: service_ok_def places_def stop_service_eq ac_simps)
qed

lemma serve_all_ok: "serve_all es s = Some s' \<Longrightarrow> service_ok s \<Longrightarrow> service_ok s'"
  by (induction es arbitrary: s) (auto simp: bind_eq_Some_conv intro: serve_ok)

lemma initial_ok: "service_ok createTurnWaitService"
  by (simp add: service_ok_def places_def createTurnWaitService_def)

text \<open>
  C17. Waiting conditions are checked one at a time per process and at most four at a time in all, through every order in which the
  handlers run. A check that has been asked for and has not settled is in exactly one place: entered, queued, or working. While the service is not stopped
  a check is only queued when all four slots are taken, so there is always one whose release starts the head of the
  queue; after a stop nothing new starts.
\<close>

theorem checks_are_bounded_and_single:
  assumes "serve_all es createTurnWaitService = Some s"
  shows "length (ws_working s) + ws_releasing s \<le> 4 \<and> distinct (places s) \<and> set (places s) = set (ws_running s) \<and>
    (\<forall>i rest. ws_queued s = i # rest \<longrightarrow> \<not> ws_stopped s \<longrightarrow>
       (ws_working s \<noteq> [] \<or> ws_releasing s > 0) \<and>
       ws_working (release_slot s) = ws_working s @ [i] \<and> ws_queued (release_slot s) = rest) \<and>
    (\<forall>e s'. ws_stopped s \<longrightarrow> serve e s = Some s' \<longrightarrow> ws_stopped s' \<and> set (ws_working s') \<subseteq> set (ws_working s))"
proof -
  have ok: "service_ok s" using serve_all_ok [OF assms initial_ok] .
  have "ws_stopped s' \<and> set (ws_working s') \<subseteq> set (ws_working s)" if "ws_stopped s" "serve e s = Some s'" for e s'
    using that by (cases e) (auto simp: check_def schedule_def start_check_def work_settled_def release_slot_def
        forget_check_def stop_service_eq Let_def split: if_splits list.splits dest: in_set_remove1_D)
  moreover have "(ws_working s \<noteq> [] \<or> ws_releasing s > 0) \<and>
      ws_working (release_slot s) = ws_working s @ [i] \<and> ws_queued (release_slot s) = rest"
    if "ws_queued s = i # rest" "\<not> ws_stopped s" for i rest
  proof -
    have "0 < length (ws_working s) + ws_releasing s" using ok that by (auto simp: service_ok_def)
    then show ?thesis using that by (auto simp: release_slot_def start_check_def)
  qed
  moreover have "length (ws_working s) + ws_releasing s \<le> 4" using ok by (simp add: service_ok_def)
  ultimately show ?thesis using entered_once [OF ok] by simp
qed

definition busy_events :: "service_event list" where
  "busy_events = map Check [''a'', ''b'', ''c'', ''d'', ''e''] @ map Schedule [''a'', ''b'', ''c'', ''d'', ''e'']"

definition busy_service :: wait_service where
  "busy_service = \<lparr>ws_stopped = False, ws_active = 4, ws_queued = [''e''], ws_running = [''a'', ''b'', ''c'', ''d'', ''e''],
     ws_deferred = [], ws_working = [''a'', ''b'', ''c'', ''d''], ws_releasing = 0, ws_settled = []\<rparr>"

lemma busy_reached: "serve_all busy_events createTurnWaitService = Some busy_service"
  by code_simp

theorem checks_are_bounded_and_single_witness:
  "length (ws_working busy_service) = 4 \<and> ws_queued busy_service = [''e''] \<and>
   ws_working (release_slot busy_service) = [''a'', ''b'', ''c'', ''d'', ''e'']"
  using checks_are_bounded_and_single [OF busy_reached] by (simp add: busy_service_def)

text \<open>
  A stop resolves what is queued at that moment, and each of the four slots hands on to one more check as it is given back. Checks that were entered
  in the same turn of the event loop and are scheduled after the stop can therefore stay queued: with nothing
  deferred, working or to be released, only another stop would settle them, but the first one waits for them.
\<close>

lemma stop_can_leave_a_check_queued:
  "\<exists>es s. serve_all es createTurnWaitService = Some s \<and> ws_stopped s \<and> ws_queued s = [''i''] \<and> ''i'' \<in> set (ws_running s) \<and>
     ws_deferred s = [] \<and> ws_working s = [] \<and> ws_releasing s = 0"
proof (intro exI conjI)
  let ?es = "map Check [''a'', ''b'', ''c'', ''d''] @ map Schedule [''a'', ''b'', ''c'', ''d''] @
     map Check [''e'', ''f'', ''g'', ''h'', ''i''] @ [Stop] @ map Schedule [''e'', ''f'', ''g'', ''h'', ''i''] @
     map Settle [''a'', ''b'', ''c'', ''d''] @ replicate 4 Release"
  let ?s = "the (serve_all ?es createTurnWaitService)"
  show "serve_all ?es createTurnWaitService = Some ?s" by code_simp
  show "ws_stopped ?s" "ws_queued ?s = [''i'']" "''i'' \<in> set (ws_running ?s)" "ws_deferred ?s = []"
    "ws_working ?s = []" "ws_releasing ?s = 0"
    by code_simp+
qed

end
