(* ===== verification/Model_Status.thy ===== *)
theory Model_Status
  imports Process_Graph
begin

text \<open>
  The cache of model availability (\<^verbatim>\<open>packages/server/src/model-providers/model-status-cache.ts\<close>) and evaluation at one of its
  revisions (\<^verbatim>\<open>packages/server/src/process-model-policy/stable-availability.ts\<close>).

  The cache holds one status per configured profile. Reading it expires old statuses; a refresh asks the providers and
  replaces all statuses. What a provider answers is an argument of the refresh. Instants are counted in milliseconds.
\<close>

section \<open>Profiles and statuses\<close>

record model_profile =
  pf_id :: string
  pf_provider :: string
  pf_modelId :: string
  pf_thinkingLevel :: "string option"

datatype availability = Available | Unavailable | Stale

record provider_status =
  st_modelId :: string
  st_availability :: availability
  st_safeReason :: "string option"

record profile_status =
  mst_profileId :: string
  mst_providerId :: string
  mst_modelId :: string
  mst_availability :: availability
  mst_safeReason :: "string option"
  mst_checkedAt :: "int option"
  mst_expiresAt :: "int option"

definition MAX_SAFE_REASON_LENGTH :: nat where "MAX_SAFE_REASON_LENGTH = 500"

definition safeReason :: "json option \<Rightarrow> string \<Rightarrow> string" where
  "safeReason value fallback =
     (case value of
        Some (JStr s) \<Rightarrow>
          let normalized = js_trim (collapse_spaces s) in
          if normalized = [] then fallback else take MAX_SAFE_REASON_LENGTH normalized
      | _ \<Rightarrow> fallback)"

fun availability_name :: "availability \<Rightarrow> string" where
  "availability_name Available = ''available''"
| "availability_name Unavailable = ''unavailable''"
| "availability_name Stale = ''stale''"

definition availability_of_json :: "json option \<Rightarrow> availability option" where
  "availability_of_json j = find (\<lambda>a. j = Some (JStr (availability_name a))) [Available, Unavailable, Stale]"

text \<open>The statuses a provider returned, by model; an invalid or repeated status is thrown.\<close>

definition validate_status :: "string \<Rightarrow> json \<Rightarrow> provider_status throws" where
  "validate_status providerId status =
     (let r = asUnknownRecord (Some status); invalid = Inl (''Provider '' @ quoted providerId @ '' returned an invalid model status'') in
      case (json_get r ''modelId'', availability_of_json (json_get r ''availability'')) of
        (Some (JStr m), Some a) \<Rightarrow>
          if js_trim m = [] then invalid
          else Inr \<lparr>st_modelId = m, st_availability = a,
             st_safeReason = (case json_get r ''safeReason'' of
                 Some v \<Rightarrow> if json_truthy v then Some (safeReason (Some v) ''Provider reported the model unavailable'') else None
               | None \<Rightarrow> None)\<rparr>
      | _ \<Rightarrow> invalid)"

fun validate_statuses :: "string \<Rightarrow> (string \<times> provider_status) list \<Rightarrow> json list \<Rightarrow> (string \<times> provider_status) list throws" where
  "validate_statuses providerId byModel [] = Inr byModel"
| "validate_statuses providerId byModel (status # rest) =
     throws_bind (validate_status providerId status) (\<lambda>st.
       if st_modelId st \<in> fst ` set byModel
       then Inl (''Provider '' @ quoted providerId @ '' returned duplicate status for model '' @ quoted (st_modelId st))
       else validate_statuses providerId (jsmap_set (st_modelId st) st byModel) rest)"

definition validateProviderStatuses :: "string \<Rightarrow> json \<Rightarrow> (string \<times> provider_status) list throws" where
  "validateProviderStatuses providerId statuses =
     (case statuses of
        JArr xs \<Rightarrow> validate_statuses providerId [] xs
      | _ \<Rightarrow> Inl (''Provider '' @ quoted providerId @ '' returned a non-array model status result''))"

section \<open>The cache\<close>

record status_cache =
  mc_profiles :: "model_profile list"
  mc_ttlMs :: int
  mc_revision :: int
  mc_statuses :: "(string \<times> profile_status) list"

definition DEFAULT_STATUS_TTL_MS :: int where "DEFAULT_STATUS_TTL_MS = 30000"

definition DEFAULT_STATUS_TIMEOUT_MS :: int where "DEFAULT_STATUS_TIMEOUT_MS = 5000"

definition DEFAULT_MAX_STATUS_PROFILES :: int where "DEFAULT_MAX_STATUS_PROFILES = 512"

definition positiveBound :: "int option \<Rightarrow> int \<Rightarrow> string \<Rightarrow> int throws" where
  "positiveBound value fallback name =
     (let resolved = coalesce value fallback in
      if resolved < 1 \<or> 2 ^ 53 \<le> resolved then Inl (name @ '' must be a positive safe integer'') else Inr resolved)"

fun decimal :: "nat \<Rightarrow> string" where
  "decimal n = (if n < 10 then [char_of (48 + n)] else decimal (n div 10) @ [char_of (48 + n mod 10)])"

declare decimal.simps [simp del]

fun check_profiles :: "string list \<Rightarrow> string list \<Rightarrow> model_profile list \<Rightarrow> unit throws" where
  "check_profiles providers profileIds [] = Inr ()"
| "check_profiles providers profileIds (profile # rest) =
     (if pf_id profile \<in> set profileIds then Inl (''Duplicate model profile id '' @ quoted (pf_id profile))
      else if pf_provider profile \<notin> set providers then Inl (''Unknown model provider '' @ quoted (pf_provider profile))
      else check_profiles providers (jsset_add (pf_id profile) profileIds) rest)"

definition unrefreshed_status :: "model_profile \<Rightarrow> profile_status" where
  "unrefreshed_status pf = \<lparr>mst_profileId = pf_id pf, mst_providerId = pf_provider pf, mst_modelId = pf_modelId pf,
     mst_availability = Stale, mst_safeReason = Some ''Model status has not been refreshed'', mst_checkedAt = None,
     mst_expiresAt = None\<rparr>"

definition createModelStatusCache ::
    "string list \<Rightarrow> int option \<Rightarrow> int option \<Rightarrow> int option \<Rightarrow> model_profile list \<Rightarrow> status_cache throws" where
  "createModelStatusCache providers ttl timeout maximum profiles =
     throws_bind (positiveBound ttl DEFAULT_STATUS_TTL_MS ''Model status TTL'') (\<lambda>ttlMs.
     throws_bind (positiveBound timeout DEFAULT_STATUS_TIMEOUT_MS ''Model status timeout'') (\<lambda>timeoutMs.
     throws_bind (positiveBound maximum DEFAULT_MAX_STATUS_PROFILES ''Maximum cached model profiles'') (\<lambda>maxProfiles.
       if int (length profiles) > maxProfiles
       then Inl (''Configured model profile count '' @ decimal (length profiles) @ '' exceeds cache bound '' @ decimal (nat maxProfiles))
       else throws_bind (check_profiles providers [] profiles) (\<lambda>_.
         Inr \<lparr>mc_profiles = profiles, mc_ttlMs = ttlMs, mc_revision = 0,
           mc_statuses = map (\<lambda>pf. (pf_id pf, unrefreshed_status pf)) profiles\<rparr>))))"

definition expired :: "int \<Rightarrow> profile_status \<Rightarrow> bool" where
  "expired at s \<longleftrightarrow> mst_availability s \<noteq> Stale \<and> (case mst_expiresAt s of Some t \<Rightarrow> t \<le> at | None \<Rightarrow> False)"

definition expire :: "int \<Rightarrow> status_cache \<Rightarrow> status_cache" where
  "expire at c =
     (let statuses = map (\<lambda>(i, s). (i, if expired at s
          then s\<lparr>mst_availability := Stale, mst_safeReason := Some ''Model status expired''\<rparr> else s)) (mc_statuses c) in
      c\<lparr>mc_statuses := statuses,
        mc_revision := (if list_ex (\<lambda>(i, s). expired at s) (mc_statuses c) then mc_revision c + 1 else mc_revision c)\<rparr>)"

record transition =
  tn_profileId :: string
  tn_from :: availability
  tn_to :: availability

record status_snapshot =
  av_revision :: int
  av_profiles :: "profile_status list"
  av_transitions :: "transition list"

definition capture :: "int \<Rightarrow> transition list \<Rightarrow> status_cache \<Rightarrow> status_snapshot \<times> status_cache" where
  "capture at transitions c0 =
     (let c = expire at c0 in
      (\<lparr>av_revision = mc_revision c, av_profiles = map (\<lambda>pf. the (map_of (mc_statuses c) (pf_id pf))) (mc_profiles c),
        av_transitions = transitions\<rparr>, c))"

text \<open>The status of one profile, if it is configured.\<close>

definition get_status :: "int \<Rightarrow> string \<Rightarrow> status_cache \<Rightarrow> profile_status option \<times> status_cache" where
  "get_status at profileId c0 = (let c = expire at c0 in (map_of (mc_statuses c) profileId, c))"

text \<open>How asking a provider ends; the time limit is the environment's.\<close>

datatype provider_answer = Answered json | NoCredentials | TimedOut | AskingFailed

definition refreshProvider :: "string \<Rightarrow> model_profile list \<Rightarrow> provider_answer \<Rightarrow> (string \<times> profile_status) list" where
  "refreshProvider providerId profiles answer =
     (let found = (case answer of Answered statuses \<Rightarrow>
            (case validateProviderStatuses providerId statuses of Inr byModel \<Rightarrow> Inr byModel
             | Inl _ \<Rightarrow> Inl (Stale, ''Provider model status refresh failed''))
        | NoCredentials \<Rightarrow> Inl (Unavailable, ''Provider credentials are unavailable'')
        | TimedOut \<Rightarrow> Inl (Stale, ''Provider model status refresh timed out'')
        | AskingFailed \<Rightarrow> Inl (Stale, ''Provider model status refresh failed''));
          fallback = (case found of Inl f \<Rightarrow> f | Inr _ \<Rightarrow> (Unavailable, ''Provider did not report model availability'')) in
      map (\<lambda>pf. (pf_id pf,
        case (case found of Inr byModel \<Rightarrow> map_of byModel (pf_modelId pf) | Inl _ \<Rightarrow> None) of
          Some st \<Rightarrow> \<lparr>mst_profileId = pf_id pf, mst_providerId = pf_provider pf, mst_modelId = st_modelId st,
            mst_availability = st_availability st, mst_safeReason = st_safeReason st, mst_checkedAt = None, mst_expiresAt = None\<rparr>
        | None \<Rightarrow> \<lparr>mst_profileId = pf_id pf, mst_providerId = pf_provider pf, mst_modelId = pf_modelId pf,
            mst_availability = fst fallback, mst_safeReason = Some (snd fallback), mst_checkedAt = None, mst_expiresAt = None\<rparr>)) profiles)"

definition provider_groups :: "model_profile list \<Rightarrow> (string \<times> model_profile list) list" where
  "provider_groups profiles =
     map (\<lambda>p. (p, filter (\<lambda>pf. pf_provider pf = p) profiles)) (fold jsset_add (map pf_provider profiles) [])"

definition availability_transitions :: "model_profile list \<Rightarrow> (string \<times> profile_status) list \<Rightarrow> (string \<times> profile_status) list \<Rightarrow> transition list" where
  "availability_transitions profiles previous next =
     List.map_filter (\<lambda>pf. case (map_of previous (pf_id pf), map_of next (pf_id pf)) of
         (Some a, Some b) \<Rightarrow> if mst_availability a \<noteq> mst_availability b
           then Some \<lparr>tn_profileId = pf_id pf, tn_from = mst_availability a, tn_to = mst_availability b\<rparr> else None
       | _ \<Rightarrow> None) profiles"

text \<open>What the policy reads of a status.\<close>

definition policy_view :: "profile_status \<Rightarrow> availability \<times> string option" where
  "policy_view s = (mst_availability s, mst_safeReason s)"

definition policy_changed :: "model_profile list \<Rightarrow> (string \<times> profile_status) list \<Rightarrow> (string \<times> profile_status) list \<Rightarrow> bool" where
  "policy_changed profiles previous next \<longleftrightarrow>
     list_ex (\<lambda>pf. case (map_of previous (pf_id pf), map_of next (pf_id pf)) of
         (Some a, Some b) \<Rightarrow> policy_view a \<noteq> policy_view b | _ \<Rightarrow> False) profiles"

text \<open>The end of a refresh, when every provider has answered.\<close>

definition refresh :: "(string \<Rightarrow> provider_answer) \<Rightarrow> int \<Rightarrow> status_cache \<Rightarrow> status_snapshot \<times> status_cache" where
  "refresh answers checked c =
     (let refreshed = concat (map (\<lambda>(p, profiles). refreshProvider p profiles (answers p)) (provider_groups (mc_profiles c)));
          next = fold (\<lambda>(i, s). jsmap_set i (s\<lparr>mst_checkedAt := Some checked, mst_expiresAt := Some (checked + mc_ttlMs c)\<rparr>)) refreshed [] in
      capture checked (availability_transitions (mc_profiles c) (mc_statuses c) next)
        (c\<lparr>mc_statuses := next,
           mc_revision := (if policy_changed (mc_profiles c) (mc_statuses c) next then mc_revision c + 1 else mc_revision c)\<rparr>))"

text \<open>What happens to a cache: it is read at some time, or refreshed.\<close>

datatype cache_event = ReadAt int | Refreshed "string \<Rightarrow> provider_answer" int

fun serve_cache :: "cache_event \<Rightarrow> status_cache \<Rightarrow> status_snapshot \<times> status_cache" where
  "serve_cache (ReadAt at) c = capture at [] c"
| "serve_cache (Refreshed answers checked) c = refresh answers checked c"

fun cache_run :: "cache_event list \<Rightarrow> status_cache \<Rightarrow> status_snapshot list \<times> status_cache" where
  "cache_run [] c = ([], c)"
| "cache_run (e # es) c = (let (s, c') = serve_cache e c; (ss, c'') = cache_run es c' in (s # ss, c''))"

section \<open>Evaluation at a stable revision\<close>

text \<open>
  The evaluation and the reads of the cache may change what they work on, so they pass a state along. The result is the
  availability with the value, or \<open>None\<close> when the revision changed during both attempts.
\<close>

fun attempt_evaluation ::
    "nat \<Rightarrow> (status_snapshot \<Rightarrow> 's \<Rightarrow> 'a \<times> 's) \<Rightarrow> ('s \<Rightarrow> status_snapshot \<times> 's) \<Rightarrow> ('s \<Rightarrow> 's) \<Rightarrow> status_snapshot \<Rightarrow> 's
     \<Rightarrow> (status_snapshot \<times> 'a option) \<times> 's" where
  "attempt_evaluation 0 evaluate getSnapshot beforeRetry availability s = ((availability, None), s)"
| "attempt_evaluation (Suc n) evaluate getSnapshot beforeRetry availability s =
     (let (x, s1) = evaluate availability s; (current, s2) = getSnapshot s1 in
      if av_revision current = av_revision availability then ((availability, Some x), s2)
      else attempt_evaluation n evaluate getSnapshot beforeRetry current (if n = 1 then beforeRetry s2 else s2))"

definition evaluateAtStableAvailabilityRevision where
  "evaluateAtStableAvailabilityRevision = attempt_evaluation 2"

section \<open>Revisions\<close>

text \<open>Every profile has a status; its view is what the policy reads.\<close>

definition cache_ok :: "status_cache \<Rightarrow> bool" where
  "cache_ok c \<longleftrightarrow> (\<forall>pf \<in> set (mc_profiles c). \<exists>s. map_of (mc_statuses c) (pf_id pf) = Some s \<and> mst_profileId s = pf_id pf)"

definition cache_view :: "status_cache \<Rightarrow> (string \<times> availability \<times> string option) list" where
  "cache_view c = map (\<lambda>pf. (pf_id pf, policy_view (the (map_of (mc_statuses c) (pf_id pf))))) (mc_profiles c)"

definition snapshot_view :: "status_snapshot \<Rightarrow> (string \<times> availability \<times> string option) list" where
  "snapshot_view a = map (\<lambda>s. (mst_profileId s, policy_view s)) (av_profiles a)"

text \<open>A later state of a cache: the revision never goes back, and stays only while the view stays.\<close>

definition later :: "status_cache \<Rightarrow> status_cache \<Rightarrow> bool" where
  "later c c' \<longleftrightarrow> mc_profiles c' = mc_profiles c \<and> mc_revision c \<le> mc_revision c' \<and>
     (mc_revision c' = mc_revision c \<longrightarrow> cache_view c' = cache_view c)"

lemma later_trans: "later a b \<Longrightarrow> later b c \<Longrightarrow> later a c"
  by (auto simp: later_def)

lemma map_of_map_snd: "map_of (map (\<lambda>(i, s). (i, g s)) xs) k = map_option g (map_of xs k)"
  by (induction xs) auto

lemma expire_later:
  assumes "cache_ok c"
  shows "cache_ok (expire at c) \<and> later c (expire at c)"
proof -
  let ?g = "\<lambda>s. if expired at s then s\<lparr>mst_availability := Stale, mst_safeReason := Some ''Model status expired''\<rparr> else s"
  have "map_of (mc_statuses (expire at c)) i = map_option ?g (map_of (mc_statuses c) i)" for i
    by (simp add: expire_def Let_def map_of_map_snd)
  moreover have "mc_profiles (expire at c) = mc_profiles c" by (simp add: expire_def Let_def)
  moreover have "mst_profileId (?g s) = mst_profileId s" for s by simp
  ultimately have "cache_ok (expire at c)" using assms unfolding cache_ok_def by (metis (no_types, lifting) option.simps(9))
  moreover have "later c (expire at c)"
  proof (cases "list_ex (\<lambda>(i, s). expired at s) (mc_statuses c)")
    case False
    then have "map (\<lambda>(i, s). (i, ?g s)) (mc_statuses c) = mc_statuses c"
      by (intro map_idI) (auto simp: list_ex_iff)
    with False show ?thesis by (simp add: later_def expire_def cache_view_def)
  qed (simp add: later_def expire_def)
  ultimately show ?thesis ..
qed

lemma refreshed_profiles:
  "(i, s) \<in> set (refreshProvider p pfs answer) \<Longrightarrow> mst_profileId s = i"
  "fst ` set (refreshProvider p pfs answer) = pf_id ` set pfs"
  by (auto simp: refreshProvider_def Let_def image_iff split: option.splits)

lemma fold_set_statuses:
  fixes g :: "profile_status \<Rightarrow> profile_status"
  shows "set (fold (\<lambda>(i, s). jsmap_set i (g s)) xs m) \<subseteq> set m \<union> (\<lambda>(i, s). (i, g s)) ` set xs"
    "fst ` set (fold (\<lambda>(i, s). jsmap_set i (g s)) xs m) = fst ` set m \<union> fst ` set xs"
proof -
  show "set (fold (\<lambda>(i, s). jsmap_set i (g s)) xs m) \<subseteq> set m \<union> (\<lambda>(i, s). (i, g s)) ` set xs"
  proof (induction xs arbitrary: m)
    case (Cons x xs)
    obtain i s where [simp]: "x = (i, s)" by (cases x)
    show ?case using Cons.IH [of "jsmap_set i (g s) m"] set_jsmap_set [of i "g s" m] by auto
  qed simp
  show "fst ` set (fold (\<lambda>(i, s). jsmap_set i (g s)) xs m) = fst ` set m \<union> fst ` set xs"
  proof (induction xs arbitrary: m)
    case (Cons x xs)
    obtain i s where [simp]: "x = (i, s)" by (cases x)
    show ?case using Cons.IH [of "jsmap_set i (g s) m"] by simp
  qed simp
qed

lemma refresh_later:
  assumes "cache_ok c" "refresh answers checked c = (a, c')"
  shows "cache_ok c' \<and> later c c' \<and> (\<exists>tr c1. (a, c') = capture checked tr c1 \<and> cache_ok c1)"
proof -
  define refreshed where "refreshed =
    concat (map (\<lambda>(p, profiles). refreshProvider p profiles (answers p)) (provider_groups (mc_profiles c)))"
  define fresh where "fresh = fold (\<lambda>(i, s). jsmap_set i (s\<lparr>mst_checkedAt := Some checked,
      mst_expiresAt := Some (checked + mc_ttlMs c)\<rparr>)) refreshed []"
  define c1 where "c1 = c\<lparr>mc_statuses := fresh,
     mc_revision := (if policy_changed (mc_profiles c) (mc_statuses c) fresh then mc_revision c + 1 else mc_revision c)\<rparr>"
  have r: "(a, c') = capture checked (availability_transitions (mc_profiles c) (mc_statuses c) fresh) c1"
    unfolding assms(2) [symmetric] refresh_def Let_def c1_def fresh_def refreshed_def ..
  have keys: "pf_id ` set (mc_profiles c) \<subseteq> fst ` set refreshed"
  proof
    fix i assume "i \<in> pf_id ` set (mc_profiles c)"
    then obtain pf where pf: "pf \<in> set (mc_profiles c)" "i = pf_id pf" by blast
    let ?g = "filter (\<lambda>x. pf_provider x = pf_provider pf) (mc_profiles c)"
    have "(pf_provider pf, ?g) \<in> set (provider_groups (mc_profiles c))" using pf by (auto simp: provider_groups_def)
    moreover have "i \<in> fst ` set (refreshProvider (pf_provider pf) ?g (answers (pf_provider pf)))"
      unfolding refreshed_profiles(2) using pf by auto
    ultimately show "i \<in> fst ` set refreshed" by (force simp: refreshed_def)
  qed
  have status: "\<exists>s. map_of fresh i = Some s \<and> mst_profileId s = i" if "i \<in> pf_id ` set (mc_profiles c)" for i
  proof -
    have "i \<in> fst ` set fresh" unfolding fresh_def fold_set_statuses(2) using keys that by auto
    then obtain s where s: "map_of fresh i = Some s" by (metis map_of_eq_None_iff not_Some_eq)
    then have "(i, s) \<in> set fresh" by (rule map_of_SomeD)
    then obtain s0 where "(i, s0) \<in> set refreshed" "mst_profileId s = mst_profileId s0"
      using fold_set_statuses(1) [of "\<lambda>s. s\<lparr>mst_checkedAt := Some checked, mst_expiresAt := Some (checked + mc_ttlMs c)\<rparr>" refreshed "[]"]
      unfolding fresh_def by force
    with s show ?thesis by (auto simp: refreshed_def dest: refreshed_profiles(1))
  qed
  have ok1: "cache_ok c1" using status by (simp add: cache_ok_def c1_def)
  have "policy_view (the (map_of fresh (pf_id pf))) = policy_view (the (map_of (mc_statuses c) (pf_id pf)))"
    if "\<not> policy_changed (mc_profiles c) (mc_statuses c) fresh" "pf \<in> set (mc_profiles c)" for pf
    using that assms(1) status [of "pf_id pf"] by (force simp: policy_changed_def list_ex_iff cache_ok_def)
  then have "later c c1" by (auto simp: later_def c1_def cache_view_def)
  moreover have "c' = expire checked c1" using r by (simp add: capture_def Let_def)
  ultimately show ?thesis using expire_later [OF ok1, of checked] ok1 r by (auto intro: later_trans)
qed

lemma capture_view:
  assumes "cache_ok c" "capture at tr c = (a, c')"
  shows "cache_ok c'" "later c c'" "av_revision a = mc_revision c'" "snapshot_view a = cache_view c'"
proof -
  have c': "c' = expire at c" and a: "a = \<lparr>av_revision = mc_revision c', av_profiles =
      map (\<lambda>pf. the (map_of (mc_statuses c') (pf_id pf))) (mc_profiles c'), av_transitions = tr\<rparr>"
    using assms(2) by (auto simp: capture_def Let_def)
  show ok: "cache_ok c'" "later c c'" using expire_later [OF assms(1)] unfolding c' by auto
  show "av_revision a = mc_revision c'" by (simp add: a)
  show "snapshot_view a = cache_view c'" using ok(1) by (force simp: a snapshot_view_def cache_view_def cache_ok_def)
qed

lemma serve_cache_later:
  assumes "cache_ok c" "serve_cache e c = (a, c')"
  shows "cache_ok c'" "later c c'" "av_revision a = mc_revision c'" "snapshot_view a = cache_view c'"
proof -
  have "cache_ok c' \<and> later c c' \<and> av_revision a = mc_revision c' \<and> snapshot_view a = cache_view c'"
  proof (cases e)
    case (ReadAt at)
    with assms capture_view [OF assms(1)] show ?thesis by simp
  next
    case (Refreshed answers checked)
    with assms(2) have r: "refresh answers checked c = (a, c')" by simp
    with refresh_later [OF assms(1) r] capture_view show ?thesis by metis
  qed
  then show "cache_ok c'" "later c c'" "av_revision a = mc_revision c'" "snapshot_view a = cache_view c'" by auto
qed

lemma cache_run_later:
  assumes "cache_run es c = (as, c')" "cache_ok c"
  shows "cache_ok c' \<and> later c c' \<and> length as = length es \<and>
    (\<forall>i < length as. \<exists>d. later c d \<and> later d c' \<and> av_revision (as ! i) = mc_revision d \<and> snapshot_view (as ! i) = cache_view d)"
  using assms
proof (induction es arbitrary: c as)
  case Nil
  then show ?case by (auto simp: later_def)
next
  case (Cons e es)
  obtain a c1 where 1: "serve_cache e c = (a, c1)" by (cases "serve_cache e c")
  obtain as' where 2: "cache_run es c1 = (as', c')" "as = a # as'"
    using Cons.prems(1) 1 by (auto split: prod.splits)
  note s = serve_cache_later [OF Cons.prems(2) 1]
  note IH = Cons.IH [OF 2(1) s(1)]
  have "\<exists>d. later c d \<and> later d c' \<and> av_revision (as ! i) = mc_revision d \<and> snapshot_view (as ! i) = cache_view d"
    if "i < length as" for i
  proof (cases i)
    case 0
    then show ?thesis using IH s by (auto simp: 2(2))
  next
    case (Suc j)
    then have "j < length as'" using that 2(2) by simp
    then obtain d where "later c1 d" "later d c'" "av_revision (as' ! j) = mc_revision d" "snapshot_view (as' ! j) = cache_view d"
      using IH by blast
    then show ?thesis using later_trans [OF s(2)] by (auto simp: 2(2) Suc)
  qed
  then show ?case using IH s 2(2) by (auto intro: later_trans)
qed

lemma checked_profiles:
  "check_profiles providers profileIds profiles = Inr u \<Longrightarrow> distinct (map pf_id profiles) \<and> set profileIds \<inter> pf_id ` set profiles = {}"
  by (induction providers profileIds profiles rule: check_profiles.induct) (auto split: if_splits)

lemma created_cache:
  assumes "createModelStatusCache providers ttl timeout maximum profiles = Inr c"
  shows "cache_ok c" "mc_profiles c = profiles"
proof -
  obtain u where "check_profiles providers [] profiles = Inr u" and c: "mc_profiles c = profiles"
    and st: "mc_statuses c = map (\<lambda>pf. (pf_id pf, unrefreshed_status pf)) profiles"
    using assms by (auto simp: createModelStatusCache_def split: if_splits)
  then have d: "distinct (map pf_id profiles)" by (auto dest: checked_profiles)
  show "mc_profiles c = profiles" by (rule c)
  have "map_of (mc_statuses c) (pf_id pf) = Some (unrefreshed_status pf)" if "pf \<in> set profiles" for pf
    using d that by (intro map_of_is_SomeI) (auto simp: st comp_def)
  then show "cache_ok c" by (simp add: cache_ok_def c unrefreshed_status_def)
qed

text \<open>When a snapshot was captured.\<close>

fun event_time :: "cache_event \<Rightarrow> int" where
  "event_time (ReadAt at) = at"
| "event_time (Refreshed answers checked) = checked"

lemma expire_no_expired: "s \<in> snd ` set (mc_statuses (expire at c)) \<Longrightarrow> \<not> expired at s"
  by (auto simp: expire_def Let_def expired_def split: if_splits)

lemma capture_fresh:
  assumes "cache_ok c" "capture at tr c = (a, c')"
  shows "map mst_profileId (av_profiles a) = map pf_id (mc_profiles c) \<and> (\<forall>s \<in> set (av_profiles a). \<not> expired at s)"
proof -
  have c': "c' = expire at c" and a: "av_profiles a = map (\<lambda>pf. the (map_of (mc_statuses c') (pf_id pf))) (mc_profiles c')"
    using assms(2) by (auto simp: capture_def Let_def)
  have ok: "cache_ok c'" "mc_profiles c' = mc_profiles c" using expire_later [OF assms(1)] by (auto simp: c' later_def)
  have "\<exists>s. the (map_of (mc_statuses c') (pf_id pf)) = s \<and> mst_profileId s = pf_id pf \<and> \<not> expired at s"
    if pf: "pf \<in> set (mc_profiles c')" for pf
  proof -
    obtain s where s: "map_of (mc_statuses c') (pf_id pf) = Some s" "mst_profileId s = pf_id pf" using ok(1) pf by (auto simp: cache_ok_def)
    then have "s \<in> snd ` set (mc_statuses c')" by (force dest: map_of_SomeD)
    then show ?thesis using s expire_no_expired by (simp add: c')
  qed
  then show ?thesis by (auto simp: a ok(2))
qed

lemma serve_cache_fresh:
  assumes "cache_ok c" "serve_cache e c = (a, c')"
  shows "map mst_profileId (av_profiles a) = map pf_id (mc_profiles c) \<and> (\<forall>s \<in> set (av_profiles a). \<not> expired (event_time e) s)"
proof (cases e)
  case (ReadAt at)
  with assms(2) have "capture at [] c = (a, c')" by simp
  from capture_fresh [OF assms(1) this] show ?thesis by (simp add: ReadAt)
next
  case (Refreshed answers checked)
  with assms(2) have "refresh answers checked c = (a, c')" by simp
  from refresh_later [OF assms(1) this] obtain tr c1 where c1: "capture checked tr c1 = (a, c')" "cache_ok c1" "later c c'"
    by metis
  have "mc_profiles c1 = mc_profiles c" using capture_view(2) [OF c1(2,1)] c1(3) by (simp add: later_def)
  with capture_fresh [OF c1(2,1)] show ?thesis by (simp add: Refreshed)
qed

lemma run_snapshots_fresh:
  "cache_run es c = (as, c') \<Longrightarrow> cache_ok c \<Longrightarrow> i < length as \<Longrightarrow>
    map mst_profileId (av_profiles (as ! i)) = map pf_id (mc_profiles c) \<and>
    (\<forall>s \<in> set (av_profiles (as ! i)). \<not> expired (event_time (es ! i)) s)"
proof (induction es arbitrary: c as i)
  case (Cons e es)
  obtain a c1 where 1: "serve_cache e c = (a, c1)" by (cases "serve_cache e c")
  obtain as' where 2: "cache_run es c1 = (as', c')" "as = a # as'" using Cons.prems(1) 1 by (auto split: prod.splits)
  note s = serve_cache_later [OF Cons.prems(2) 1]
  show ?case
  proof (cases i)
    case 0
    then show ?thesis using serve_cache_fresh [OF Cons.prems(2) 1] by (simp add: 2(2))
  next
    case (Suc k)
    then show ?thesis using Cons.IH [OF 2(1) s(1), of k] Cons.prems(3) s(2) by (simp add: 2(2) later_def)
  qed
qed simp

lemma run_snapshots_ordered:
  "cache_run es c = (as, c') \<Longrightarrow> cache_ok c \<Longrightarrow> i < j \<Longrightarrow> j < length as \<Longrightarrow>
    av_revision (as ! i) \<le> av_revision (as ! j) \<and>
    (av_revision (as ! i) = av_revision (as ! j) \<longrightarrow> snapshot_view (as ! i) = snapshot_view (as ! j))"
proof (induction es arbitrary: c as i j)
  case (Cons e es)
  obtain a c1 where 1: "serve_cache e c = (a, c1)" by (cases "serve_cache e c")
  obtain as' where 2: "cache_run es c1 = (as', c')" "as = a # as'" using Cons.prems(1) 1 by (auto split: prod.splits)
  note s = serve_cache_later [OF Cons.prems(2) 1]
  obtain k where k: "j = Suc k" "k < length as'" using Cons.prems(3,4) by (cases j) (auto simp: 2(2))
  show ?case
  proof (cases i)
    case 0
    obtain d where "later c1 d" "av_revision (as' ! k) = mc_revision d" "snapshot_view (as' ! k) = cache_view d"
      using cache_run_later [OF 2(1) s(1)] k(2) by blast
    then show ?thesis using s(3,4) by (simp add: 0 2(2) k(1) later_def)
  next
    case (Suc m)
    then show ?thesis using Cons.IH [OF 2(1) s(1), of m k] Cons.prems(3) k by (simp add: 2(2))
  qed
qed simp

section \<open>Properties\<close>

text \<open>C39. Every snapshot of the model cache lists the configured profiles in their order and shows none as available or
  unavailable past its expiry. Revisions never go back over a sequence of reads and refreshes, and two snapshots with
  the same revision show the same availability and reason for every profile, whatever the providers answered: the
  policy may compare revisions only.\<close>

theorem availability_changes_with_its_revision:
  assumes "createModelStatusCache providers ttl timeout maximum profiles = Inr c"
    and "cache_run es c = (as, c')" and "i < j" and "j < length as"
  shows "map mst_profileId (av_profiles (as ! j)) = map pf_id profiles \<and>
    (\<forall>s \<in> set (av_profiles (as ! j)). \<not> expired (event_time (es ! j)) s) \<and>
    av_revision (as ! i) \<le> av_revision (as ! j) \<and>
    (av_revision (as ! i) = av_revision (as ! j) \<longrightarrow> snapshot_view (as ! i) = snapshot_view (as ! j))"
  using run_snapshots_fresh [OF assms(2) created_cache(1) [OF assms(1)] assms(4)]
    run_snapshots_ordered [OF assms(2) created_cache(1) [OF assms(1)] assms(3,4)] created_cache(2) [OF assms(1)] by simp

text \<open>A cache with one profile, refreshed while the provider offers the model, and read before and after the expiry.\<close>

definition witness_cache :: status_cache where
  "witness_cache = (case createModelStatusCache [''p''] None None None
      [\<lparr>pf_id = ''fast'', pf_provider = ''p'', pf_modelId = ''m'', pf_thinkingLevel = Some ''low''\<rparr>] of Inr c \<Rightarrow> c | Inl _ \<Rightarrow> undefined)"

lemma witness_created:
  "createModelStatusCache [''p''] None None None
     [\<lparr>pf_id = ''fast'', pf_provider = ''p'', pf_modelId = ''m'', pf_thinkingLevel = Some ''low''\<rparr>] = Inr witness_cache"
  by (simp add: witness_cache_def createModelStatusCache_def positiveBound_def DEFAULT_STATUS_TTL_MS_def
      DEFAULT_STATUS_TIMEOUT_MS_def DEFAULT_MAX_STATUS_PROFILES_def)

definition witness_answer :: "string \<Rightarrow> provider_answer" where
  "witness_answer p = Answered (JArr [JObj [(''modelId'', JStr ''m''), (''availability'', JStr ''available'')]])"

theorem availability_changes_with_its_revision_witness:
  "map av_revision (fst (cache_run [ReadAt 0, Refreshed witness_answer 10, ReadAt 20, ReadAt 30010] witness_cache)) = [0, 1, 1, 2] \<and>
   av_revision (fst (cache_run [ReadAt 0, Refreshed witness_answer 10, ReadAt 20, ReadAt 30010] witness_cache) ! 1)
     \<le> av_revision (fst (cache_run [ReadAt 0, Refreshed witness_answer 10, ReadAt 20, ReadAt 30010] witness_cache) ! 3)"
proof
  let ?es = "[ReadAt 0, Refreshed witness_answer 10, ReadAt 20, ReadAt 30010]"
  show 1: "map av_revision (fst (cache_run ?es witness_cache)) = [0, 1, 1, 2]" by code_simp
  then have "length (map av_revision (fst (cache_run ?es witness_cache))) = 4" by simp
  then have l: "3 < length (fst (cache_run ?es witness_cache))" by simp
  have c: "createModelStatusCache [''p''] None None None
      [\<lparr>pf_id = ''fast'', pf_provider = ''p'', pf_modelId = ''m'', pf_thinkingLevel = Some ''low''\<rparr>] = Inr witness_cache"
    by (rule witness_created)
  show "av_revision (fst (cache_run ?es witness_cache) ! 1) \<le> av_revision (fst (cache_run ?es witness_cache) ! 3)"
    using availability_changes_with_its_revision [OF c prod.collapse [symmetric] _ l, of 1] by simp
qed

text \<open>C40. Evaluating at a stable revision. Whatever happens to the cache during an evaluation and before the retry, at
  most two evaluations run; a value is returned only when it was computed for a snapshot that still shows, after the
  evaluation, the availability the cache shows; and no value is returned only when the revision moved during both.\<close>

theorem stable_evaluation_is_current:
  fixes f :: "status_snapshot \<Rightarrow> 'a" and during :: "nat \<Rightarrow> cache_event list"
  assumes "createModelStatusCache providers ttl timeout maximum profiles = Inr c0"
    and "cache_run before c0 = (old, c1)" and "serve_cache e c1 = (availability, c)"
    and "evaluateAtStableAvailabilityRevision
      (\<lambda>av (n, d). (f av, (Suc n, snd (cache_run (during n) d))))
      (\<lambda>(n, d). let (a, d') = serve_cache (ReadAt (t n)) d in (a, (n, d')))
      (\<lambda>(n, d). (n, snd (cache_run between d))) availability (0, c) = ((av, result), (n, c'))"
  shows "n \<le> 2 \<and> (case result of
      Some x \<Rightarrow> x = f av \<and> av_revision av = mc_revision c' \<and> snapshot_view av = cache_view c'
    | None \<Rightarrow> n = 2 \<and> av_revision availability + 2 \<le> mc_revision c')"
proof -
  have "cache_ok c1" using cache_run_later [OF assms(2)] created_cache(1) [OF assms(1)] by blast
  note s0 = serve_cache_later [OF this assms(3)]
  obtain as1 d1 where r1: "cache_run (during 0) c = (as1, d1)" by (cases "cache_run (during 0) c")
  obtain a1 e1 where g1: "serve_cache (ReadAt (t (Suc 0))) d1 = (a1, e1)" by (cases "serve_cache (ReadAt (t (Suc 0))) d1")
  have d1: "cache_ok d1" "later c d1" using cache_run_later [OF r1 s0(1)] by auto
  note s1 = serve_cache_later [OF d1(1) g1]
  obtain as2 d2 where r2: "cache_run between e1 = (as2, d2)" by (cases "cache_run between e1")
  have d2: "cache_ok d2" "later e1 d2" using cache_run_later [OF r2 s1(1)] by auto
  obtain as3 d3 where r3: "cache_run (during (Suc 0)) d2 = (as3, d3)" by (cases "cache_run (during (Suc 0)) d2")
  have d3: "cache_ok d3" "later d2 d3" using cache_run_later [OF r3 d2(1)] by auto
  obtain a2 e2 where g2: "serve_cache (ReadAt (t (Suc (Suc 0)))) d3 = (a2, e2)" by (cases "serve_cache (ReadAt (t (Suc (Suc 0)))) d3")
  note s2 = serve_cache_later [OF d3(1) g2]
  have l1: "later c e1" and l2: "later e1 e2" using d1(2) s1(2) d2(2) d3(2) s2(2) by (blast intro: later_trans)+
  have "((av, result), (n, c')) =
      (if av_revision a1 = av_revision availability then ((availability, Some (f availability)), (1, e1))
       else if av_revision a2 = av_revision a1 then ((a1, Some (f a1)), (2, e2)) else ((a2, None), (2, e2)))"
    using assms(4) g1 g2
    by (cases "av_revision a1 = av_revision availability"; cases "av_revision a2 = av_revision a1")
      (auto simp: evaluateAtStableAvailabilityRevision_def numeral_2_eq_2 r1 r2 r3 simp del: serve_cache.simps)
  then show ?thesis using s0(3,4) s1(3,4) s2(3,4) l1 l2 by (auto simp: later_def split: if_splits)
qed

theorem stable_evaluation_is_current_witness:
  "case evaluateAtStableAvailabilityRevision
      (\<lambda>av (n, d). (av_revision av, (Suc n, snd (cache_run (if n = 0 then [Refreshed witness_answer 10] else []) d))))
      (\<lambda>(n, d). let (a, d') = serve_cache (ReadAt 20) d in (a, (n, d')))
      (\<lambda>(n, d). (n, snd (cache_run [] d))) (fst (serve_cache (ReadAt 0) witness_cache)) (0, snd (serve_cache (ReadAt 0) witness_cache)) of
    ((av, result), (n, c')) \<Rightarrow> n = 2 \<and> result = Some 1 \<and> av_revision av = mc_revision c'"
proof -
  let ?run = "evaluateAtStableAvailabilityRevision
      (\<lambda>av (n, d). (av_revision av, (Suc n, snd (cache_run (if n = 0 then [Refreshed witness_answer 10] else []) d))))
      (\<lambda>(n, d). let (a, d') = serve_cache (ReadAt 20) d in (a, (n, d')))
      (\<lambda>(n, d). (n, snd (cache_run [] d))) (fst (serve_cache (ReadAt 0) witness_cache)) (0, snd (serve_cache (ReadAt 0) witness_cache))"
  have r: "?run = ((fst (fst ?run), snd (fst ?run)), (fst (snd ?run), snd (snd ?run)))" by (simp only: prod.collapse)
  let ?e1 = "serve_cache (ReadAt 20) (snd (serve_cache (Refreshed witness_answer 10) (snd (serve_cache (ReadAt 0) witness_cache))))"
  have "av_revision (fst (serve_cache (ReadAt 0) witness_cache)) = 0" "av_revision (fst ?e1) = 1"
    "av_revision (fst (serve_cache (ReadAt 20) (snd ?e1))) = 1"
    by code_simp+
  then have v: "fst (snd ?run) = 2 \<and> snd (fst ?run) = Some 1"
    by (simp add: evaluateAtStableAvailabilityRevision_def numeral_2_eq_2 case_prod_unfold Let_def del: serve_cache.simps)
  have c: "createModelStatusCache [''p''] None None None
      [\<lparr>pf_id = ''fast'', pf_provider = ''p'', pf_modelId = ''m'', pf_thinkingLevel = Some ''low''\<rparr>] = Inr witness_cache"
    by (rule witness_created)
  have "av_revision (fst (fst ?run)) = mc_revision (snd (snd ?run))"
    using stable_evaluation_is_current [OF c cache_run.simps(1) prod.collapse [symmetric] r, THEN conjunct2,
      unfolded conjunct2 [OF v] option.case] by (elim conjE)
  with v show ?thesis by (subst r) (simp only: prod.case)
qed

end
