(* ===== verification/Spec2Isabelle.thy ===== *)
theory Spec2Isabelle
  imports Worker_Progress Worker_Inputs Worker_Terminal Worker_Safety Worker_Reporting Worker_Driver
    Worker_Lease Worker_Capacity Dependency_Order Entry_Refs State_Json
    Process_Graph Process_Writes Turn_Selection Process_Position Failure_Writes Future_Execution
    Mapped_Runs Mapped_Turns Execution_Store Turn_Starts Turn_Waits Wait_Service Model_Status
begin

text \<open>
  \<^bold>\<open>Verification of the core of Leitwerk.\<close>

  Leitwerk runs processes: graphs of turns, some of which a worker executes with a language model. The
  server (\<^verbatim>\<open>packages/server\<close>) keeps the durable state of every process and decides by building write
  plans; a worker (\<^verbatim>\<open>packages/worker\<close>) is a separate process that owns one execution, driven by a pure
  reducer; both share the vocabulary of \<^verbatim>\<open>packages/domain\<close>. The server supervises workers through
  leases and a capacity queue, talks to them by the messages of \<^verbatim>\<open>packages/worker-protocol\<close>, and starts
  processes and actions later through future executions.

  \<^bold>\<open>Shared.\<close>
  \<^item> \<open>Leitwerk_Prelude\<close>: values of JavaScript, results of code that throws, trimming and splitting of
    strings, insertion-ordered maps and sets. Everything below is written over these.
  \<^item> \<open>Domain_Types\<close>: lifecycle states, turn types and error classes of \<^verbatim>\<open>domain-model.ts\<close>.
  \<^item> \<open>Dependency_Order\<close>: the dependency-first traversal of \<^verbatim>\<open>dependency-order.ts\<close>. Its fuel is the depth
    of the recursion; the number of reachable ids is enough, and then the traversal orders everything or
    reports a cycle that exists.
  \<^item> \<open>Entry_Refs\<close>, \<open>State_Json\<close>: the references a process stores (\<^verbatim>\<open>semantic-entry-refs.ts\<close>,
    \<^verbatim>\<open>process-state-json.ts\<close>), where a turn starts (\<^verbatim>\<open>turn-start-resolution.ts\<close>) and recovery metadata
    (\<^verbatim>\<open>turn-recovery.ts\<close>): parsing is inverse to storing, strict and lenient readers agree, a start
    follows its fallback chain. \<open>JSON.parse\<close> is a parameter.

  \<^bold>\<open>The worker.\<close>
  \<^item> \<open>Worker_Errors\<close>, \<open>Worker_Failure_Policy\<close>, \<open>Worker_Types\<close>: classification and bounded description of
    errors, failure normalisation, redaction and snapshot policy, and the state, events, commands and
    facts of the reducer (\<^verbatim>\<open>turn-execution-error.ts\<close>, \<^verbatim>\<open>transport-error.ts\<close>, \<^verbatim>\<open>failure-policy.ts\<close>,
    \<^verbatim>\<open>snapshot-policy.ts\<close>, \<^verbatim>\<open>ipc-messages.ts\<close>).
  \<^item> \<open>Worker_Lifecycle\<close>: \<open>reduceWorkerRuntime\<close> of \<^verbatim>\<open>runtime/lifecycle-reducer.ts\<close>, one definition per
    handler, \<open>advance\<close> with its termination.
  \<^item> \<open>Worker_Trace\<close>: runs, and the locale \<open>trace_invariant\<close> by which the following theories prove
    properties of a state together with everything output before it.
  \<^item> \<open>Worker_Progress\<close> (commands in order, the end of a run), \<open>Worker_Inputs\<close> (each input consumed once,
    in order), \<open>Worker_Terminal\<close> (one terminal fact, kept and resent until acknowledged, LLM outcomes only
    after their snapshot), \<open>Worker_Safety\<close> (the reducer does not throw), \<open>Worker_Reporting\<close> (the reported
    states refine the derived state).
  \<^item> \<open>Worker_Driver\<close>: the event queue and drain loop of \<^verbatim>\<open>runtime/index.ts\<close>, which refines the pure run;
    redaction of everything sent; delivery of input batches.

  \<^bold>\<open>The supervisor.\<close>
  \<^item> \<open>Worker_Lease\<close>: the lease table of \<^verbatim>\<open>worker-lease-lifecycle.ts\<close>, its verdicts and what is reachable.
  \<^item> \<open>Worker_Capacity\<close>: the admission queue of \<^verbatim>\<open>worker-capacity-queue.ts\<close> under every interleaving with
    the supervisor: the limit is never exceeded, a waiting queue is never forgotten, admission is in order.

  \<^bold>\<open>The process engine.\<close>
  \<^item> \<open>Process_Graph\<close>: graph views and validation (\<^verbatim>\<open>process-graph.ts\<close>) and the moves they allow
    (\<^verbatim>\<open>process-state-machine.ts\<close>): a move is granted exactly along an edge, outcomes are routed uniquely.
  \<^item> \<open>Process_Writes\<close>: write plans and their operations (\<^verbatim>\<open>writes.ts\<close>, \<^verbatim>\<open>process-effects.ts\<close>). Merging is
    sequential composition. The locale \<open>plan_invariant\<close> states what the builders may use of an invariant of
    plans; it is interpreted for well-typed plans, for plans that address their own process, and for plans
    that do not accept a start on their own.
  \<^item> \<open>Turn_Selection\<close>: selecting, waiting, aborting and server transitions
    (\<^verbatim>\<open>build-turn-selection-writes.ts\<close>, \<^verbatim>\<open>turn-wait-state.ts\<close>, \<^verbatim>\<open>build-process-abort-writes.ts\<close>, \<^verbatim>\<open>build-server-transition-writes.ts\<close>,
    \<^verbatim>\<open>worker-reconciliation.ts\<close>).
  \<^item> \<open>Process_Position\<close>: what these plans make of the row when they are committed, and the positions
    reachable through them.
  \<^item> \<open>Failure_Writes\<close>: parking, failing, retrying and continuing turns; every plan of the engine is well
    typed and addresses its own process.

  \<^bold>\<open>Mapped turns.\<close>
  \<^item> \<open>Mapped_Runs\<close>: the tables of mapped runs and their items (\<^verbatim>\<open>mapped-llm-run-repo.ts\<close>, \<^verbatim>\<open>schema.ts\<close>) and
    the commit of the mapped-run writes of a plan (\<^verbatim>\<open>commit-writes.ts\<close>). They implement one log of results
    per run, through the locale \<open>store_refinement\<close>; a recorded result is final.
  \<^item> \<open>Mapped_Turns\<close>: freezing items, yielding and collecting results (\<^verbatim>\<open>process-sdk/src/mapped-turn.ts\<close>) and
    the plans that enter mapped turns and record the outcome of an item
    (\<^verbatim>\<open>process-engine/mapped-turns.ts\<close>): plans commit, a started item is the current one, results are
    collected in order. The loop over empty mapped turns ends after the 17 rounds of the source.

  \<^bold>\<open>Starts and records of turns.\<close>
  \<^item> \<open>Execution_Store\<close>: the tables of turn starts, turn records and worker leases with their constraints and
    every operation that changes them (\<^verbatim>\<open>turn-start-record-repo.ts\<close>, \<^verbatim>\<open>process-turn-record-repo.ts\<close>,
    \<^verbatim>\<open>worker-lease-repo.ts\<close>, \<^verbatim>\<open>repo-helpers.ts\<close>), and the commit of a plan as one transaction
    (\<^verbatim>\<open>commit-writes.ts\<close>): either every write holds and is made, or the store stays as it was. The invariant
    \<open>db_linked\<close> ties each accepted start to exactly one turn record; plans that accept nothing keep it and
    keep every accepted start.
  \<^item> \<open>Turn_Starts\<close>: the operations by which a worker's start becomes a turn or is replaced
    (\<^verbatim>\<open>ops/accept-worker-turn-start.ts\<close>, \<^verbatim>\<open>ops/worker-failure.ts\<close>, \<^verbatim>\<open>ops/turn-failed.ts\<close>, \<^verbatim>\<open>ops/abort-turn.ts\<close>,
    \<^verbatim>\<open>ops/retry-startup.ts\<close>, \<^verbatim>\<open>ops/automatic-retry-startup.ts\<close>, \<^verbatim>\<open>startup-retry-policy.ts\<close>), each as a decision
    over the store. An accepted start runs once, a failed bootstrap can be replaced, and automatic recovery is
    bounded in number and in time. The walk over earlier starts ends because it never
    visits a start twice; it uses no fuel.
  \<^item> \<open>Turn_Waits\<close>: waiting conditions (\<^verbatim>\<open>ops/turn-wait.ts\<close>, the guards of \<^verbatim>\<open>turn-wait-service.ts\<close>). The start of
    a waiting turn is held in the metadata of the process and read back from there; of the checks made from one revision one
    is committed, and the check that finds the condition true releases the start unchanged.
  \<^item> \<open>Wait_Service\<close>: the scheduler of these checks in \<^verbatim>\<open>turn-wait-service.ts\<close>, its handlers in any order: one check per
    process and four in all, and a queued check gets the next free slot.

  \<^bold>\<open>Models.\<close>
  \<^item> \<open>Model_Status\<close>: the cache of model availability (\<^verbatim>\<open>model-status-cache.ts\<close>) and evaluation at one of its revisions
    (\<^verbatim>\<open>stable-availability.ts\<close>): availability only changes together with the revision, so a value computed at a
    revision that is still current is up to date.

  \<^bold>\<open>Future executions.\<close>
  \<^item> \<open>Future_Execution\<close>: the table and repository (\<^verbatim>\<open>future-execution-repo.ts\<close>, \<^verbatim>\<open>schema.ts\<close>) and the
    transitions (\<^verbatim>\<open>transition-planner.ts\<close>), which are compare-and-set over the locale \<open>row_store\<close>: an
    occurrence is taken once, different executions do not interfere, the due list is exact.

  \<^bold>\<open>How the model reads.\<close> A function that throws returns \<open>Inl\<close> of the message; a builder that returns a
  failure value has a second sum inside. Asynchronous code is cut at its awaits: each piece between two
  awaits is one step, and what the environment does in between is any sequence of steps. Generated
  identifiers and the clock are arguments. Numbers that are only compared and counted are integers. Only
  \<open>Dependency_Order\<close> uses fuel.

  \<^bold>\<open>Not modelled.\<close> The commit of annotations, snapshots, projects, queued inputs and future executions; the
  recorder and runner around the decisions (\<^verbatim>\<open>process-engine/recorder.ts\<close>, \<^verbatim>\<open>runner.ts\<close>) and the operations of actions
  and outcomes (\<^verbatim>\<open>ops/execute-action.ts\<close>, \<^verbatim>\<open>ops/turn-outcome.ts\<close>); the readiness callbacks of waiting turns; the choice of
  models (\<^verbatim>\<open>process-model-policy\<close>) beyond their availability; physical processes, sockets and timeouts of the supervisor; the
  execution of turns by Pi, git and the file system; the compilation of authored process definitions in
  \<^verbatim>\<open>packages/process-sdk\<close> beyond the graph view; HTTP and WebSocket routes, the client protocol, the browser
  interface and the extensions, which are input and output around the modelled decisions.
\<close>

end
